(* ===== verification/Prelude.thy ===== *)
theory Prelude
  imports
    Main
    "HOL-Library.Finite_Map"
    "HOL-Library.Multiset"
    "HOL-Library.Word"
    "HOL-Library.Char_ord"
    "HOL-Library.List_Lexorder"
begin

text \<open>
  What every component of the relay shares: the Go types the model is written over (instants,
  durations, byte strings, maps, fixed-width integers), the part of Go's \<open>strings\<close> and \<open>time\<close>
  packages the sources call, and the generic lemmas on finite maps, counters, key indexes and
  sweeps that carry the proofs of the components.
\<close>

section \<open>Collections of facts\<close>

named_theorems gomap_simps \<open>lookups and sizes of Go maps after an update\<close>
named_theorems inv_intros \<open>operations that preserve a component's invariant\<close>
named_theorems frame_simps \<open>fields an operation leaves alone\<close>

section \<open>Go types\<close>

text \<open>
  A \<open>time.Time\<close> is the number of nanoseconds since Go's zero instant, 1 January of year 1 UTC,
  so that \<open>IsZero\<close> is equality with 0; \<open>UTC()\<close> changes the location and not the instant, and has
  no counterpart. A \<open>time.Duration\<close> is a signed number of nanoseconds. The \<open>now\<close> function every
  store is built with becomes an argument of the operations that read the clock.
\<close>

type_synonym time = int
type_synonym duration = int
type_synonym uint32 = "32 word"
type_synonym uint64 = "64 word"
type_synonym ('k, 'v) gomap = "('k, 'v) fmap"

abbreviation (input) zero_time :: time where "zero_time \<equiv> 0"
abbreviation (input) IsZero :: "time \<Rightarrow> bool" where "IsZero t \<equiv> t = zero_time"
abbreviation (input) After :: "time \<Rightarrow> time \<Rightarrow> bool" where "After t u \<equiv> u < t"
abbreviation (input) Before :: "time \<Rightarrow> time \<Rightarrow> bool" where "Before t u \<equiv> t < u"

definition Second :: duration where "Second = 1000000000"
definition Minute :: duration where "Minute = 60 * Second"
definition Hour :: duration where "Hour = 60 * Minute"

text \<open>\<open>t.Sub(u)\<close> saturates at the bounds of a 64-bit duration.\<close>

definition min_duration :: duration where "min_duration = - (2 ^ 63)"
definition max_duration :: duration where "max_duration = 2 ^ 63 - 1"

definition time_Sub :: "time \<Rightarrow> time \<Rightarrow> duration" where
  "time_Sub t u = max min_duration (min max_duration (t - u))"

lemma time_Sub_gt:
  assumes "d < max_duration"
  shows "min_duration \<le> d \<Longrightarrow> d < time_Sub t u \<longleftrightarrow> d < t - u"
  using assms by (auto simp: time_Sub_def)

text \<open>\<open>t.Unix()\<close>: whole seconds since 1970, rounded towards the past.\<close>

definition unix_epoch_seconds :: int where "unix_epoch_seconds = 62135596800"

definition time_Unix :: "time \<Rightarrow> int" where
  "time_Unix t = t div Second - unix_epoch_seconds"

lemma time_Unix_mono: "t \<le> u \<Longrightarrow> time_Unix t \<le> time_Unix u"
  by (simp add: time_Unix_def Second_def zdiv_mono1)

text \<open>
  Go's \<open>int\<close> is 64 bits wide. Every counter of the model is bounded by the size of a table, so it
  is an \<open>int\<close> of HOL; arithmetic on a number an operator chose is wrapped explicitly.
\<close>

definition wrap64 :: "int \<Rightarrow> int" where
  "wrap64 x = (x + 2 ^ 63) mod 2 ^ 64 - 2 ^ 63"

lemma wrap64_id: "- (2 ^ 63) \<le> x \<Longrightarrow> x < 2 ^ 63 \<Longrightarrow> wrap64 x = x"
  by (simp add: wrap64_def)

section \<open>strings.TrimSpace\<close>

text \<open>
  A Go string is a sequence of bytes, here a list of \<open>char\<close>. \<open>TrimSpace\<close> removes leading and
  trailing runes for which \<open>unicode.IsSpace\<close> holds: six ASCII bytes, U+0085 and U+00A0 (two bytes
  in UTF-8), and U+1680, U+2000 to U+200A, U+2028, U+2029, U+202F, U+205F, U+3000 (three bytes).
  Each of these encodings is valid UTF-8, so decoding forwards finds one exactly where it is a
  prefix, and decoding backwards exactly where it is a suffix. The NUL byte is not a space.
\<close>

definition space1 :: "char \<Rightarrow> bool" where
  "space1 a \<longleftrightarrow> a \<in> {CHR 0x09, CHR 0x0A, CHR 0x0B, CHR 0x0C, CHR 0x0D, CHR 0x20}"

definition space2 :: "char \<Rightarrow> char \<Rightarrow> bool" where
  "space2 a b \<longleftrightarrow> a = CHR 0xC2 \<and> (b = CHR 0x85 \<or> b = CHR 0xA0)"

definition space3 :: "char \<Rightarrow> char \<Rightarrow> char \<Rightarrow> bool" where
  "space3 a b c \<longleftrightarrow>
     (a = CHR 0xE1 \<and> b = CHR 0x9A \<and> c = CHR 0x80) \<or>
     (a = CHR 0xE2 \<and> b = CHR 0x80 \<and>
        c \<in> {CHR 0x80, CHR 0x81, CHR 0x82, CHR 0x83, CHR 0x84, CHR 0x85, CHR 0x86, CHR 0x87,
              CHR 0x88, CHR 0x89, CHR 0x8A, CHR 0xA8, CHR 0xA9, CHR 0xAF}) \<or>
     (a = CHR 0xE2 \<and> b = CHR 0x81 \<and> c = CHR 0x9F) \<or>
     (a = CHR 0xE3 \<and> b = CHR 0x80 \<and> c = CHR 0x80)"

text \<open>The number of bytes of the space at the front of a string, 0 where there is none.\<close>

fun space_prefix :: "string \<Rightarrow> nat" where
  "space_prefix [] = 0"
| "space_prefix [a] = (if space1 a then 1 else 0)"
| "space_prefix [a, b] = (if space1 a then 1 else if space2 a b then 2 else 0)"
| "space_prefix (a # b # c # s) =
     (if space1 a then 1 else if space2 a b then 2 else if space3 a b c then 3 else 0)"

text \<open>The same at the back of a string, given reversed.\<close>

fun space_suffix :: "string \<Rightarrow> nat" where
  "space_suffix [] = 0"
| "space_suffix [c] = (if space1 c then 1 else 0)"
| "space_suffix [c, b] = (if space1 c then 1 else if space2 b c then 2 else 0)"
| "space_suffix (c # b # a # s) =
     (if space1 c then 1 else if space2 b c then 2 else if space3 a b c then 3 else 0)"

lemma space_prefix_le: "space_prefix s \<le> length s"
  by (induction s rule: space_prefix.induct) auto

lemma space_suffix_le: "space_suffix s \<le> length s"
  by (induction s rule: space_suffix.induct) auto

function trimLeftSpace :: "string \<Rightarrow> string" where
  "trimLeftSpace s =
     (if space_prefix s = 0 then s else trimLeftSpace (drop (space_prefix s) s))"
  by pat_completeness auto
termination
proof (relation "measure length")
  fix s assume "space_prefix s \<noteq> 0"
  then show "(drop (space_prefix s) s, s) \<in> measure length"
    using space_prefix_le [of s] by simp
qed simp

function trimRightSpace :: "string \<Rightarrow> string" where
  "trimRightSpace r =
     (if space_suffix r = 0 then r else trimRightSpace (drop (space_suffix r) r))"
  by pat_completeness auto
termination
proof (relation "measure length")
  fix r assume "space_suffix r \<noteq> 0"
  then show "(drop (space_suffix r) r, r) \<in> measure length"
    using space_suffix_le [of r] by simp
qed simp

declare trimLeftSpace.simps [simp del] trimRightSpace.simps [simp del]

definition TrimSpace :: "string \<Rightarrow> string" where
  "TrimSpace s = rev (trimRightSpace (rev (trimLeftSpace s)))"

lemma space_prefix_trimLeft: "space_prefix (trimLeftSpace s) = 0"
  by (induction s rule: trimLeftSpace.induct) (metis trimLeftSpace.simps)

lemma space_suffix_trimRight: "space_suffix (trimRightSpace r) = 0"
  by (induction r rule: trimRightSpace.induct) (metis trimRightSpace.simps)

lemma trimLeft_id: "space_prefix s = 0 \<Longrightarrow> trimLeftSpace s = s"
  by (simp add: trimLeftSpace.simps)

lemma trimRight_id: "space_suffix s = 0 \<Longrightarrow> trimRightSpace s = s"
  by (simp add: trimRightSpace.simps)

lemma space_prefix_append: "space_prefix s \<noteq> 0 \<Longrightarrow> space_prefix (s @ t) = space_prefix s"
  by (induction s rule: space_prefix.induct; cases t; cases "tl t")
     (auto split: if_splits)

lemma trimRight_suffix: "\<exists>w. r = w @ trimRightSpace r"
proof (induction r rule: trimRightSpace.induct)
  case (1 r)
  show ?case
  proof (cases "space_suffix r = 0")
    case True
    then show ?thesis by (simp add: trimRight_id)
  next
    case False
    then obtain w where "drop (space_suffix r) r = w @ trimRightSpace r"
      using 1 by (auto simp: trimRightSpace.simps [of r])
    then have "r = (take (space_suffix r) r @ w) @ trimRightSpace r"
      by (metis append_assoc append_take_drop_id)
    then show ?thesis ..
  qed
qed

lemma set_trimLeft: "set (trimLeftSpace s) \<subseteq> set s"
proof (induction s rule: trimLeftSpace.induct)
  case (1 s)
  then show ?case using set_drop_subset [of "space_prefix s" s]
    by (auto simp: trimLeftSpace.simps [of s])
qed

lemma set_TrimSpace: "set (TrimSpace s) \<subseteq> set s"
  using set_trimLeft [of s] trimRight_suffix [of "rev (trimLeftSpace s)"]
  by (metis TrimSpace_def order_trans set_append set_rev sup_ge2)

lemma space_prefix_TrimSpace: "space_prefix (TrimSpace s) = 0"
proof (rule ccontr)
  assume nz: "space_prefix (TrimSpace s) \<noteq> 0"
  obtain w where "rev (trimLeftSpace s) = w @ trimRightSpace (rev (trimLeftSpace s))"
    using trimRight_suffix by blast
  then have "trimLeftSpace s = TrimSpace s @ rev w"
    unfolding TrimSpace_def by (metis rev_append rev_rev_ident)
  with nz have "space_prefix (trimLeftSpace s) \<noteq> 0"
    by (simp add: space_prefix_append)
  then show False by (simp add: space_prefix_trimLeft)
qed

lemma TrimSpace_idem [simp]: "TrimSpace (TrimSpace s) = TrimSpace s"
proof -
  have "trimLeftSpace (TrimSpace s) = TrimSpace s"
    by (rule trimLeft_id [OF space_prefix_TrimSpace])
  moreover have "trimRightSpace (rev (TrimSpace s)) = rev (TrimSpace s)"
    by (simp add: TrimSpace_def trimRight_id space_suffix_trimRight)
  ultimately show ?thesis by (simp add: TrimSpace_def)
qed

lemma TrimSpace_Nil [simp]: "TrimSpace [] = []"
  by (simp add: TrimSpace_def trimLeftSpace.simps trimRightSpace.simps)

end
