(* ===== verification/Base64.thy ===== *)
theory Base64
  imports Prelude
begin

text \<open>
  \<open>base64.RawURLEncoding\<close> of Go's standard library: the URL alphabet without padding. The relay
  encodes queue tags, credential ids and session tokens with it, and decodes credential ids and
  signatures.
\<close>

definition b64url_alphabet :: string where
  "b64url_alphabet = ''ABCDEFGHIJKLMNOPQRSTUVWXYZabcdefghijklmnopqrstuvwxyz0123456789-_''"

definition b64_char :: "nat \<Rightarrow> char" where
  "b64_char n = b64url_alphabet ! n"

text \<open>The position of a character in the alphabet, if it has one.\<close>

fun index_of :: "'a list \<Rightarrow> 'a \<Rightarrow> nat option" where
  "index_of [] x = None"
| "index_of (y # ys) x = (if x = y then Some 0 else map_option Suc (index_of ys x))"

definition b64_value :: "char \<Rightarrow> nat option" where
  "b64_value c = index_of b64url_alphabet c"

fun b64url_encode :: "string \<Rightarrow> string" where
  "b64url_encode [] = []"
| "b64url_encode [a] =
     (let v = of_char a * 65536 in [b64_char (v div 262144), b64_char (v div 4096 mod 64)])"
| "b64url_encode [a, b] =
     (let v = of_char a * 65536 + of_char b * 256 in
        [b64_char (v div 262144), b64_char (v div 4096 mod 64), b64_char (v div 64 mod 64)])"
| "b64url_encode (a # b # c # s) =
     (let v = of_char a * 65536 + of_char b * 256 + of_char c in
        [b64_char (v div 262144), b64_char (v div 4096 mod 64), b64_char (v div 64 mod 64),
         b64_char (v mod 64)] @ b64url_encode s)"

text \<open>
  Decoding skips carriage returns and line feeds, fails on any other character outside the
  alphabet and on a last group of one character, and ignores the unused low bits of a short last
  group.
\<close>

fun b64_decode_values :: "nat list \<Rightarrow> string option" where
  "b64_decode_values [] = Some []"
| "b64_decode_values [_] = None"
| "b64_decode_values [p, q] = Some [char_of ((p * 64 + q) div 16)]"
| "b64_decode_values [p, q, r] =
     (let v = (p * 64 + q) * 64 + r in Some [char_of (v div 1024), char_of (v div 4 mod 256)])"
| "b64_decode_values (p # q # r # t # vs) =
     (let v = ((p * 64 + q) * 64 + r) * 64 + t in
        map_option (\<lambda>s. char_of (v div 65536) # char_of (v div 256 mod 256) # char_of (v mod 256) # s)
          (b64_decode_values vs))"

fun b64_values :: "string \<Rightarrow> nat list option" where
  "b64_values [] = Some []"
| "b64_values (c # s) =
     (if c = CHR 0x0A \<or> c = CHR 0x0D then b64_values s
      else case b64_value c of
             None \<Rightarrow> None
           | Some v \<Rightarrow> map_option ((#) v) (b64_values s))"

definition b64url_decode :: "string \<Rightarrow> string option" where
  "b64url_decode s = Option.bind (b64_values s) b64_decode_values"

section \<open>Encoding round trip\<close>

lemma index_of_nth: "distinct xs \<Longrightarrow> n < length xs \<Longrightarrow> index_of xs (xs ! n) = Some n"
  by (induction xs arbitrary: n) (auto simp: nth_Cons split: nat.splits)

lemma index_of_Some: "index_of xs x = Some n \<Longrightarrow> n < length xs \<and> xs ! n = x"
  by (induction xs arbitrary: n) (auto split: if_splits)

lemma length_b64url_alphabet: "length b64url_alphabet = 64"
  by (simp add: b64url_alphabet_def)

lemma distinct_b64url_alphabet: "distinct b64url_alphabet"
  by (simp add: b64url_alphabet_def)

lemma b64_value_char: "n < 64 \<Longrightarrow> b64_value (b64_char n) = Some n"
  by (simp add: b64_value_def b64_char_def index_of_nth distinct_b64url_alphabet length_b64url_alphabet)

lemma no_newline_in_alphabet: "CHR 0x0A \<notin> set b64url_alphabet" "CHR 0x0D \<notin> set b64url_alphabet"
  by (simp_all add: b64url_alphabet_def)

lemma b64_char_not_newline:
  assumes "n < 64"
  shows "b64_char n \<noteq> CHR 0x0A" and "b64_char n \<noteq> CHR 0x0D"
proof -
  have "b64_char n \<in> set b64url_alphabet"
    unfolding b64_char_def using assms by (simp only: nth_mem length_b64url_alphabet)
  then show "b64_char n \<noteq> CHR 0x0A" and "b64_char n \<noteq> CHR 0x0D"
    using no_newline_in_alphabet by metis+
qed

lemma b64_values_char:
  "n < 64 \<Longrightarrow> b64_values (b64_char n # s) = map_option ((#) n) (b64_values s)"
  by (simp add: b64_value_char b64_char_not_newline)

lemma of_char_bound: "(of_char c :: nat) < 256"
  by simp

lemma bytes_of_group:
  fixes a b c :: nat
  assumes "a < 256" "b < 256" "c < 256"
  shows "(a * 65536 + b * 256 + c) div 65536 = a"
    and "(a * 65536 + b * 256 + c) div 256 mod 256 = b"
    and "(a * 65536 + b * 256 + c) mod 256 = c"
proof -
  let ?v = "(a * 256 + b) * 256 + c"
  have v: "a * 65536 + b * 256 + c = ?v" by simp
  have d: "?v div 256 = a * 256 + b" using assms by simp
  have "?v div 65536 = ?v div 256 div 256" by (simp add: div_mult2_eq [symmetric])
  then show "(a * 65536 + b * 256 + c) div 65536 = a"
    unfolding v d using assms by simp
  show "(a * 65536 + b * 256 + c) div 256 mod 256 = b"
    unfolding v d using assms by simp
  show "(a * 65536 + b * 256 + c) mod 256 = c"
    unfolding v using assms by (simp only: mod_mult_self3 mod_less)
qed

lemma sextets_of_group:
  fixes v :: nat
  shows "((v div 262144 * 64 + v div 4096 mod 64) * 64 + v div 64 mod 64) * 64 + v mod 64 = v"
    and "(v div 262144 * 64 + v div 4096 mod 64) * 64 + v div 64 mod 64 = v div 64"
    and "v div 262144 * 64 + v div 4096 mod 64 = v div 4096"
proof -
  have d2: "v div 4096 = v div 64 div 64" and d3: "v div 262144 = v div 64 div 64 div 64"
    by (simp_all add: div_mult2_eq [symmetric])
  show three: "v div 262144 * 64 + v div 4096 mod 64 = v div 4096"
    unfolding d2 d3 by (rule div_mult_mod_eq)
  show two: "(v div 262144 * 64 + v div 4096 mod 64) * 64 + v div 64 mod 64 = v div 64"
    unfolding three unfolding d2 by (rule div_mult_mod_eq)
  show "((v div 262144 * 64 + v div 4096 mod 64) * 64 + v div 64 mod 64) * 64 + v mod 64 = v"
    unfolding two by (rule div_mult_mod_eq)
qed

lemma group_bound:
  fixes a b c :: nat
  assumes "a < 256" "b < 256" "c < 256"
  shows "(a * 65536 + b * 256 + c) div 262144 < 64"
  using assms by (simp add: div_less_iff_less_mult)

lemma b64_values_encode_group:
  assumes "v div 262144 < 64"
  shows "b64_values ([b64_char (v div 262144), b64_char (v div 4096 mod 64),
           b64_char (v div 64 mod 64), b64_char (v mod 64)] @ s) =
         map_option (\<lambda>vs. v div 262144 # v div 4096 mod 64 # v div 64 mod 64 # v mod 64 # vs)
           (b64_values s)"
  using assms by (simp add: b64_values_char option.map_comp comp_def del: b64_values.simps)

lemma b64_decode_group:
  "b64_decode_values (v div 262144 # v div 4096 mod 64 # v div 64 mod 64 # v mod 64 # vs) =
     map_option (\<lambda>s. char_of (v div 65536) # char_of (v div 256 mod 256) # char_of (v mod 256) # s)
       (b64_decode_values vs)"
  by (simp only: b64_decode_values.simps Let_def sextets_of_group(1))

lemma b64_roundtrip_values:
  "Option.bind (b64_values (b64url_encode s)) b64_decode_values = Some s"
proof (induction s rule: b64url_encode.induct)
  case 1
  then show ?case by simp
next
  case (2 a)
  let ?v = "of_char a * 65536 + 0 * 256 + (0::nat)"
  have "?v div 4096 div 16 = of_char a"
    using bytes_of_group(1) [of "of_char a" 0 0] by (simp add: div_mult2_eq [symmetric])
  with sextets_of_group(3) [of ?v] group_bound [of "of_char a" 0 0] show ?case
    by (simp add: Let_def b64_values_char del: b64_values.simps(2))
next
  case (3 a b)
  let ?v = "of_char a * 65536 + of_char b * 256 + (0::nat)"
  have "?v div 64 div 1024 = of_char a" and "?v div 64 div 4 mod 256 = of_char b"
    using bytes_of_group(1,2) [of "of_char a" "of_char b" 0] by (simp_all add: div_mult2_eq [symmetric])
  moreover have "char_of (256 * of_char a + of_char b :: nat) = b"
    using char_of_mod_256 [of "256 * of_char a + of_char b :: nat"] by simp
  ultimately show ?case
    using sextets_of_group(2) [of ?v] group_bound [of "of_char a" "of_char b" 0]
    by (simp add: Let_def b64_values_char del: b64_values.simps(2))
next
  case (4 a b c s)
  let ?v = "of_char a * 65536 + of_char b * 256 + (of_char c :: nat)"
  obtain vs where vs: "b64_values (b64url_encode s) = Some vs" and "b64_decode_values vs = Some s"
    using 4 by (auto simp: bind_eq_Some_conv)
  moreover have "b64_values (b64url_encode (a # b # c # s)) =
      Some (?v div 262144 # ?v div 4096 mod 64 # ?v div 64 mod 64 # ?v mod 64 # vs)"
    using b64_values_encode_group [OF group_bound, of "of_char a" "of_char b" "of_char c" "b64url_encode s"]
    by (simp add: Let_def vs del: b64_values.simps(2))
  ultimately show ?case
    using bytes_of_group [of "of_char a" "of_char b" "of_char c"]
    by (simp only: bind.bind_lunit b64_decode_group option.map of_char_bound char_of_char)
qed

lemma length_b64url_encode: "length (b64url_encode s) = (length s * 4 + 2) div 3"
  by (induction s rule: b64url_encode.induct) (auto simp: Let_def)

lemma b64url_decode_encode: "b64url_decode (b64url_encode s) = Some s"
  by (simp add: b64url_decode_def b64_roundtrip_values)

lemma b64url_encode_inj: "b64url_encode s = b64url_encode t \<longleftrightarrow> s = t"
  by (metis b64url_decode_encode option.inject)

lemma b64_char_in: "n < 64 \<Longrightarrow> b64_char n \<in> set b64url_alphabet"
  unfolding b64_char_def by (simp only: nth_mem length_b64url_alphabet)

lemma b64url_encode_alphabet: "set (b64url_encode s) \<subseteq> set b64url_alphabet"
proof (induction s rule: b64url_encode.induct)
  case (2 a)
  with group_bound [of "of_char a" 0 0] show ?case by (simp add: Let_def b64_char_in)
next
  case (3 a b)
  with group_bound [of "of_char a" "of_char b" 0] show ?case by (simp add: Let_def b64_char_in)
next
  case (4 a b c s)
  with group_bound [of "of_char a" "of_char b" "of_char c"] show ?case by (simp add: Let_def b64_char_in)
qed simp

section \<open>Evaluation\<close>

text \<open>The same encoding written byte by byte, for evaluating concrete inputs.\<close>

lemma sextets_of_bytes:
  fixes a b c :: nat
  assumes "a < 256" "b < 256" "c < 256"
  defines "v \<equiv> a * 65536 + b * 256 + c"
  shows "v div 262144 = a div 4" "v div 4096 mod 64 = a mod 4 * 16 + b div 16"
    "v div 64 mod 64 = b mod 16 * 4 + c div 64" "v mod 64 = c mod 64"
proof -
  have v: "v = (a * 256 + b) * 256 + c" by (simp add: v_def)
  have v6: "v = c + ((a * 256 + b) * 4) * 64" by (simp add: v)
  have d6: "v div 64 = (a * 256 + b) * 4 + c div 64" unfolding v6 by (rule div_mult_self1) simp
  have d8: "v div 64 div 4 = a * 256 + b" unfolding d6 using assms(3) by simp
  have d12: "v div 4096 = a * 16 + b div 16"
  proof -
    have "v div 4096 = v div 64 div 4 div 16" by (simp add: div_mult2_eq [symmetric])
    also have "\<dots> = (b + (a * 16) * 16) div 16" unfolding d8 by simp
    also have "\<dots> = a * 16 + b div 16" by (rule div_mult_self1) simp
    finally show ?thesis .
  qed
  have "v div 262144 = v div 4096 div 16 div 4" by (simp add: div_mult2_eq [symmetric])
  then show "v div 262144 = a div 4" unfolding d12 using assms(2) by simp
  have "(a * 16 + b div 16) mod (16 * 4) = 16 * ((a * 16 + b div 16) div 16 mod 4) + (a * 16 + b div 16) mod 16"
    by (rule mod_mult2_eq)
  then show "v div 4096 mod 64 = a mod 4 * 16 + b div 16" unfolding d12 using assms(2) by simp
  have low: "(w * 4 + d) mod 64 = w mod 16 * 4 + d" if "d < 4" for w d :: nat
    using mod_mult2_eq [of "w * 4 + d" 4 16] that by simp
  have "(a * 256 + b) mod 16 = b mod 16" using mod_mult_self1 [of b "a * 16" 16] by (simp add: add.commute mult.commute)
  then show "v div 64 mod 64 = b mod 16 * 4 + c div 64"
    unfolding d6 using low [of "c div 64" "a * 256 + b"] assms(3) by simp
  show "v mod 64 = c mod 64" unfolding v6 by (rule mod_mult_self1)
qed

lemma sextets_of_two:
  fixes a b :: nat
  assumes "a < 256" "b < 256"
  shows "(a * 65536 + b * 256) div 262144 = a div 4"
    "(a * 65536 + b * 256) div 4096 mod 64 = a mod 4 * 16 + b div 16"
    "(a * 65536 + b * 256) div 64 mod 64 = b mod 16 * 4"
  using sextets_of_bytes [OF assms, of 0] by (simp_all only: add_0_right div_0 zero_less_numeral simp_thms)

lemma sextets_of_one:
  fixes a :: nat
  assumes "a < 256"
  shows "a * 65536 div 262144 = a div 4" "a * 65536 div 4096 mod 64 = a mod 4 * 16"
  using sextets_of_two [OF assms, of 0]
  by (simp_all only: add_0_right div_0 mult_zero_left zero_less_numeral simp_thms)

lemma b64url_encode_code [code]:
  "b64url_encode [] = []"
  "b64url_encode [a] = (let a = of_char a in [b64_char (a div 4), b64_char (a mod 4 * 16)])"
  "b64url_encode [a, b] = (let a = of_char a; b = of_char b in
     [b64_char (a div 4), b64_char (a mod 4 * 16 + b div 16), b64_char (b mod 16 * 4)])"
  "b64url_encode (a # b # c # s) = (let a = of_char a; b = of_char b; c = of_char c in
     [b64_char (a div 4), b64_char (a mod 4 * 16 + b div 16), b64_char (b mod 16 * 4 + c div 64), b64_char (c mod 64)]
     @ b64url_encode s)"
  unfolding b64url_encode.simps Let_def sextets_of_bytes [OF of_char_bound of_char_bound of_char_bound]
    sextets_of_two [OF of_char_bound of_char_bound] sextets_of_one [OF of_char_bound]
  by (rule refl)+

end
