(* ===== verification/Go_Maps.thy ===== *)
theory Go_Maps
  imports Prelude
begin

text \<open>
  Go maps as finite maps, and the three patterns the stores build on them: ranging over a map in
  an order the runtime picks, counting the records of a table under a key, and indexing the
  records of a table by a key. Each pattern is an interface (a locale) with the lemmas its clients
  need proved once.
\<close>

section \<open>Reading and sizing a map\<close>

text \<open>\<open>len(m)\<close>, \<open>m[k]\<close> of a map of integers (0 where absent), and \<open>m[k]++\<close>.\<close>

definition go_len :: "('k, 'v) gomap \<Rightarrow> int" where
  "go_len m = int (card (fmdom' m))"

definition go_int :: "('k, int) gomap \<Rightarrow> 'k \<Rightarrow> int" where
  "go_int m k = (case fmlookup m k of None \<Rightarrow> 0 | Some n \<Rightarrow> n)"

definition go_incr :: "('k, int) gomap \<Rightarrow> 'k \<Rightarrow> ('k, int) gomap" where
  "go_incr m k = fmupd k (go_int m k + 1) m"

definition go_string :: "('k, string) gomap \<Rightarrow> 'k \<Rightarrow> string" where
  "go_string m k = (case fmlookup m k of None \<Rightarrow> [] | Some v \<Rightarrow> v)"

lemma go_len_empty [simp]: "go_len fmempty = 0"
  by (simp add: go_len_def)

lemma go_len_nonneg [simp]: "0 \<le> go_len m"
  by (simp add: go_len_def)

lemma go_len_upd [gomap_simps]:
  "go_len (fmupd k v m) = (if fmlookup m k = None then go_len m + 1 else go_len m)"
  by (auto simp: go_len_def card_insert_if fmlookup_dom'_iff)

lemma go_len_drop [gomap_simps]:
  "go_len (fmdrop k m) = (if fmlookup m k = None then go_len m else go_len m - 1)"
proof (cases "k \<in> fmdom' m")
  case True
  then have "0 < card (fmdom' m)"
    by (metis card_gt_0_iff empty_iff finite_fmdom')
  with True show ?thesis
    by (auto simp: go_len_def fmlookup_dom'_iff of_nat_diff)
qed (auto simp: go_len_def fmlookup_dom'_iff)

lemma go_len_drop_le: "go_len (fmdrop k m) \<le> go_len m"
  by (simp add: go_len_drop)

lemma go_len_mono: "fmdom' m \<subseteq> fmdom' n \<Longrightarrow> go_len m \<le> go_len n"
  by (simp add: go_len_def card_mono)

lemma go_len_filter_le: "go_len (fmfilter P m) \<le> go_len m"
  by (rule go_len_mono) auto

lemma go_len_zero_iff: "go_len m = 0 \<longleftrightarrow> m = fmempty"
proof -
  have "fmdom' m = {} \<longleftrightarrow> m = fmempty"
    by (metis fmap_ext fmdom'_empty fmdom'_notD fmempty_lookup empty_iff)
  then show ?thesis by (simp add: go_len_def)
qed

section \<open>Ranging over a map\<close>

text \<open>
  \<open>for k := range m\<close> visits each key exactly once, in an order the language leaves open. The order
  is a parameter of the operations that range over a map: a function from the set of keys to a
  list of them.
\<close>

locale range_order =
  fixes rng :: "'k fset \<Rightarrow> 'k list"
  assumes rng_set: "set (rng A) = fset A"
    and rng_distinct: "distinct (rng A)"
begin

lemma rng_dom: "set (rng (fmdom m)) = fmdom' m"
  by (simp add: rng_set fmdom'_alt_def)

lemma length_rng_dom: "int (length (rng (fmdom m))) = go_len m"
  by (metis distinct_card go_len_def rng_distinct rng_dom)

end

lemma sorted_list_of_fset_code [code]:
  "sorted_list_of_fset A = sorted_list_of_set (fset A)"
  by (rule sorted_list_of_fset.rep_eq)

lemma sorted_list_of_fset_finsert [simp]:
  "sorted_list_of_fset (finsert x A) = insort x (remove1 x (sorted_list_of_fset A))"
  by (simp add: sorted_list_of_fset.rep_eq sorted_list_of_set_insert_remove
      sorted_list_of_set_remove del: sorted_list_of_set_insert)

lemma sorted_list_of_fset_empty [simp]: "sorted_list_of_fset {||} = []"
  by (simp add: sorted_list_of_fset.rep_eq)

text \<open>Visiting the keys in ascending order is one such order.\<close>

interpretation sorted_range: range_order "sorted_list_of_fset :: ('a :: linorder) fset \<Rightarrow> 'a list"
  by unfold_locales (simp_all add: sorted_list_of_fset.rep_eq)

section \<open>Sweeping a table\<close>

text \<open>
  The loop \<open>for k, v := range table { if dead(v) { delete k } }\<close>, where the deletion is an operation
  of the store the table is part of.
\<close>

definition sweep ::
  "('k fset \<Rightarrow> 'k list) \<Rightarrow> ('s \<Rightarrow> ('k, 'v) gomap) \<Rightarrow> ('v \<Rightarrow> bool) \<Rightarrow> ('k \<Rightarrow> 's \<Rightarrow> 's) \<Rightarrow> 's \<Rightarrow> 's" where
  "sweep rng table dead del s =
     fold (\<lambda>k s. case fmlookup (table s) k of
                    None \<Rightarrow> s
                  | Some v \<Rightarrow> if dead v then del k s else s)
       (rng (fmdom (table s))) s"

text \<open>The table without its dead records: what a sweep has to leave.\<close>

definition live_part :: "('v \<Rightarrow> bool) \<Rightarrow> ('k, 'v) gomap \<Rightarrow> ('k, 'v) gomap" where
  "live_part dead m = fmfilter (\<lambda>k. case fmlookup m k of None \<Rightarrow> False | Some v \<Rightarrow> \<not> dead v) m"

lemma lookup_live_part:
  "fmlookup (live_part dead m) k =
     (case fmlookup m k of None \<Rightarrow> None | Some v \<Rightarrow> if dead v then None else Some v)"
  by (auto simp: live_part_def split: option.splits)

lemma lookup_live_part_Some [simp]:
  "fmlookup (live_part dead m) k = Some v \<longleftrightarrow> fmlookup m k = Some v \<and> \<not> dead v"
  by (auto simp: lookup_live_part split: option.splits)

lemma live_part_idem [simp]: "live_part dead (live_part dead m) = live_part dead m"
  by (rule fmap_ext) (auto simp: lookup_live_part split: option.splits)

lemma live_part_empty [simp]: "live_part dead fmempty = fmempty"
  by (rule fmap_ext) (simp add: lookup_live_part)

lemma go_len_live_part_le: "go_len (live_part dead m) \<le> go_len m"
  unfolding live_part_def by (rule go_len_filter_le)

text \<open>A fold of guarded steps keeps whatever each step keeps.\<close>

lemma fold_invariant:
  assumes "P s" and "\<And>x s. x \<in> set xs \<Longrightarrow> P s \<Longrightarrow> P (f x s)"
  shows "P (fold f xs s)"
  using assms by (induction xs arbitrary: s) auto

lemma sweep_invariant:
  assumes "P s" and "\<And>k v s. P s \<Longrightarrow> fmlookup (table s) k = Some v \<Longrightarrow> dead v \<Longrightarrow> P (del k s)"
  shows "P (sweep rng table dead del s)"
  unfolding sweep_def
  by (rule fold_invariant) (use assms in \<open>auto split: option.splits\<close>)

text \<open>
  The read loops sweep and collect at once: a dead record is deleted, a live one the caller may
  have is appended to the result.
\<close>

definition collect ::
  "('s \<Rightarrow> ('k, 'v) gomap) \<Rightarrow> ('k \<Rightarrow> 's \<Rightarrow> 's) \<Rightarrow> ('v \<Rightarrow> bool) \<Rightarrow> ('v \<Rightarrow> bool) \<Rightarrow> 'k \<Rightarrow> 'v list \<times> 's \<Rightarrow> 'v list \<times> 's" where
  "collect table del dead ok k = (\<lambda>(out, s).
     case fmlookup (table s) k of
       None \<Rightarrow> (out, s)
     | Some v \<Rightarrow> if dead v then (out, del k s) else if ok v then (out @ [v], s) else (out, s))"

text \<open>The records a list of keys finds that are live and wanted.\<close>

definition picked :: "('k, 'v) gomap \<Rightarrow> ('v \<Rightarrow> bool) \<Rightarrow> 'k list \<Rightarrow> 'v list" where
  "picked m ok ks = concat (map (\<lambda>k. case fmlookup m k of None \<Rightarrow> [] | Some v \<Rightarrow> if ok v then [v] else []) ks)"

lemma picked_Nil [simp]: "picked m ok [] = []"
  by (simp add: picked_def)

lemma picked_Cons:
  "picked m ok (k # ks) = (case fmlookup m k of None \<Rightarrow> [] | Some v \<Rightarrow> if ok v then [v] else []) @ picked m ok ks"
  by (simp add: picked_def)

lemma picked_drop: "k \<notin> set ks \<Longrightarrow> picked (fmdrop k m) ok ks = picked m ok ks"
  unfolding picked_def by (intro arg_cong [where f = concat] map_cong) auto

lemma set_picked: "set (picked m ok ks) = {v. ok v \<and> (\<exists>k\<in>set ks. fmlookup m k = Some v)}"
  by (auto simp: picked_def split: option.splits if_splits)

lemma distinct_picked:
  assumes "distinct ks" and "\<And>k v. fmlookup m k = Some v \<Longrightarrow> key v = k"
  shows "distinct (picked m ok ks)"
  using assms(1)
proof (induction ks)
  case (Cons k ks)
  have "v \<notin> set (picked m ok ks)" if "fmlookup m k = Some v" for v
    using Cons.prems assms(2) [OF that] assms(2) by (auto simp: set_picked)
  with Cons show ?case by (auto simp: picked_Cons split: option.splits)
qed simp

lemma distinct_picked_keys:
  assumes "distinct ks" and "\<And>k v. fmlookup m k = Some v \<Longrightarrow> key v = k"
  shows "distinct (map key (picked m ok ks))"
  using assms(1)
proof (induction ks)
  case (Cons k ks)
  have "key v \<notin> key ` set (picked m ok ks)" if "fmlookup m k = Some v" for v
    using Cons.prems assms(2) [OF that] assms(2) by (auto simp: set_picked)
  with Cons show ?case by (auto simp: picked_Cons split: option.splits)
qed simp

lemma length_picked_le: "length (picked m ok ks) \<le> length ks"
  by (induction ks) (auto simp: picked_Cons split: option.split)

locale sweepable = range_order rng for rng :: "'k fset \<Rightarrow> 'k list" +
  fixes table :: "'s \<Rightarrow> ('k, 'v) gomap"
    and del :: "'k \<Rightarrow> 's \<Rightarrow> 's"
  assumes table_del: "table (del k s) = fmdrop k (table s)"
begin

lemma lookup_fold_sweep:
  "distinct ks \<Longrightarrow>
   fmlookup (table (fold (\<lambda>k s. case fmlookup (table s) k of
                              None \<Rightarrow> s | Some v \<Rightarrow> if dead v then del k s else s) ks s)) x =
     (if x \<in> set ks then fmlookup (live_part dead (table s)) x else fmlookup (table s) x)"
  by (induction ks arbitrary: s) (auto simp: table_del lookup_live_part split: option.splits)

lemma collect_out:
  "distinct ks \<Longrightarrow>
   fst (fold (collect table del dead ok) ks (out, s)) = out @ picked (table s) (\<lambda>v. \<not> dead v \<and> ok v) ks"
  by (induction ks arbitrary: out s)
     (auto simp: collect_def [of _ _ _ _ _] picked_Cons picked_drop table_del split: option.splits)

lemma collect_state:
  "snd (fold (collect table del dead ok) ks (out, s)) =
     fold (\<lambda>k s. case fmlookup (table s) k of
                    None \<Rightarrow> s | Some v \<Rightarrow> if dead v then del k s else s) ks s"
proof (induction ks arbitrary: out s)
  case (Cons k ks)
  then show ?case
    by (cases "fmlookup (table s) k") (simp_all add: collect_def [of _ _ _ _ k])
qed simp

text \<open>A read loop returns the live wanted records, each once, and leaves what a sweep leaves.\<close>

lemma collect_table:
  assumes "fold (collect table del dead ok) (rng (fmdom (table s))) ([], s) = (out, s')"
  shows "out = picked (table s) (\<lambda>v. \<not> dead v \<and> ok v) (rng (fmdom (table s)))"
    "s' = sweep rng table dead del s"
  using collect_out [OF rng_distinct, of dead ok "fmdom (table s)" "[]" s]
    collect_state [of dead ok "rng (fmdom (table s))" "[]" s] assms
  by (simp_all add: sweep_def)

lemma set_collect:
  "set (picked (table s) P (rng (fmdom (table s)))) = {v. P v \<and> (\<exists>k. fmlookup (table s) k = Some v)}"
  by (auto simp: set_picked rng_dom fmlookup_dom'_iff)

lemma table_sweep: "table (sweep rng table dead del s) = live_part dead (table s)"
proof (rule fmap_ext)
  fix x
  show "fmlookup (table (sweep rng table dead del s)) x = fmlookup (live_part dead (table s)) x"
    unfolding sweep_def
    by (subst lookup_fold_sweep)
       (auto simp: rng_distinct rng_dom lookup_live_part dest!: fmdom'_notD)
qed

end

section \<open>Counting records under a key\<close>

text \<open>The number of records of a table whose key is \<open>x\<close>.\<close>

definition count_with :: "('v \<Rightarrow> 'x) \<Rightarrow> ('k, 'v) gomap \<Rightarrow> 'x \<Rightarrow> nat" where
  "count_with f m x = card {k. \<exists>v. fmlookup m k = Some v \<and> f v = x}"

lemma finite_keys_with [simp]: "finite {k. \<exists>v. fmlookup m k = Some v \<and> P k v}"
  by (rule finite_subset [OF _ finite_fmdom' [of m]]) (auto simp: fmlookup_dom'_iff)

lemma finite_keys_with' [simp]: "finite {k. \<exists>v. fmlookup m k = Some v}"
  using finite_keys_with [of m "\<lambda>_ _. True"] by simp

lemma count_with_empty [simp]: "count_with f fmempty x = 0"
  by (simp add: count_with_def)

lemma count_with_upd_fresh:
  assumes "fmlookup m k = None"
  shows "count_with f (fmupd k v m) x = count_with f m x + (if f v = x then 1 else 0)"
proof -
  have "{k'. \<exists>v'. fmlookup (fmupd k v m) k' = Some v' \<and> f v' = x} =
        (if f v = x then insert k {k'. \<exists>v'. fmlookup m k' = Some v' \<and> f v' = x}
         else {k'. \<exists>v'. fmlookup m k' = Some v' \<and> f v' = x})"
    using assms by auto
  with assms show ?thesis by (simp add: count_with_def)
qed

lemma count_with_drop:
  assumes "fmlookup m k = Some v"
  shows "count_with f (fmdrop k m) x = count_with f m x - (if f v = x then 1 else 0)"
proof -
  have "{k'. \<exists>v'. fmlookup (fmdrop k m) k' = Some v' \<and> f v' = x} =
        {k'. \<exists>v'. fmlookup m k' = Some v' \<and> f v' = x} - {k}"
    by auto
  with assms show ?thesis by (auto simp: count_with_def card_Diff_singleton_if)
qed

lemma count_with_pos:
  assumes "fmlookup m k = Some v" and "f v = x"
  shows "0 < count_with f m x"
  unfolding count_with_def using assms by (subst card_gt_0_iff) auto

lemma count_with_le: "int (count_with f m x) \<le> go_len m"
  unfolding count_with_def go_len_def
  by (simp, rule card_mono) (auto simp: fmlookup_dom'_iff)

lemma count_with_zero: "count_with f m x = 0 \<longleftrightarrow> (\<forall>k v. fmlookup m k = Some v \<longrightarrow> f v \<noteq> x)"
  using finite_keys_with [of m "\<lambda>k v. f v = x"] by (auto simp: count_with_def)

text \<open>A counter agrees with a table when it holds exactly the non-zero counts.\<close>

definition agrees :: "('v \<Rightarrow> 'x) \<Rightarrow> ('k, 'v) gomap \<Rightarrow> ('x, int) gomap \<Rightarrow> bool" where
  "agrees f m c \<longleftrightarrow>
     (\<forall>x. fmlookup c x = (if count_with f m x = 0 then None else Some (int (count_with f m x))))"

lemma agrees_empty [simp]: "agrees f fmempty fmempty"
  by (simp add: agrees_def)

lemma agrees_go_int: "agrees f m c \<Longrightarrow> go_int c x = int (count_with f m x)"
  by (simp add: agrees_def go_int_def)

lemma agrees_unique: "agrees f m c \<Longrightarrow> agrees f m c' \<Longrightarrow> c = c'"
  by (rule fmap_ext) (simp add: agrees_def)

text \<open>
  The interface of a counter: an increment, and a decrement that deletes the entry with its last
  record so that the map of counts never outgrows the table.
\<close>

locale counter =
  fixes inc dec :: "('x, int) gomap \<Rightarrow> 'x \<Rightarrow> ('x, int) gomap"
  assumes lookup_inc: "fmlookup (inc c x) y = (if y = x then Some (go_int c x + 1) else fmlookup c y)"
    and lookup_dec: "fmlookup (dec c x) y =
      (if y = x then (if go_int c x \<le> 1 then None else Some (go_int c x - 1)) else fmlookup c y)"
begin

lemma agrees_add:
  assumes "agrees f m c" and "fmlookup m k = None"
  shows "agrees f (fmupd k v m) (inc c (f v))"
  unfolding agrees_def
proof
  fix x
  show "fmlookup (inc c (f v)) x =
    (if count_with f (fmupd k v m) x = 0 then None else Some (int (count_with f (fmupd k v m) x)))"
    using assms(1) unfolding agrees_def
    by (simp add: lookup_inc count_with_upd_fresh [OF assms(2)] agrees_go_int [OF assms(1)])
qed

lemma agrees_drop:
  assumes "agrees f m c" and "fmlookup m k = Some v"
  shows "agrees f (fmdrop k m) (dec c (f v))"
  unfolding agrees_def
proof
  fix x
  have "0 < count_with f m (f v)" by (rule count_with_pos [OF assms(2) refl])
  then show "fmlookup (dec c (f v)) x =
    (if count_with f (fmdrop k m) x = 0 then None else Some (int (count_with f (fmdrop k m) x)))"
    using assms(1) unfolding agrees_def
    by (simp add: lookup_dec count_with_drop [OF assms(2)] agrees_go_int [OF assms(1)])
qed

end

section \<open>Indexing records by a key\<close>

text \<open>
  An index maps a non-empty key to the set of ids of the records that carry it, and holds no key
  without a record.
\<close>

definition ids_with :: "('v \<Rightarrow> string) \<Rightarrow> (string, 'v) gomap \<Rightarrow> string \<Rightarrow> string set" where
  "ids_with f m x = {k. \<exists>v. fmlookup m k = Some v \<and> f v = x}"

definition indexes :: "('v \<Rightarrow> string) \<Rightarrow> (string, 'v) gomap \<Rightarrow> (string, string fset) gomap \<Rightarrow> bool" where
  "indexes f m i \<longleftrightarrow>
     (\<forall>x. map_option fset (fmlookup i x) =
          (if x = [] \<or> ids_with f m x = {} then None else Some (ids_with f m x)))"

lemma finite_ids_with [simp]: "finite (ids_with f m x)"
  by (simp add: ids_with_def)

lemma ids_with_upd_fresh:
  "fmlookup m k = None \<Longrightarrow> ids_with f (fmupd k v m) x = (if f v = x then insert k (ids_with f m x) else ids_with f m x)"
  by (auto simp: ids_with_def)

lemma ids_with_drop: "ids_with f (fmdrop k m) x = ids_with f m x - {k}"
  by (auto simp: ids_with_def)

lemma indexes_empty [simp]: "indexes f fmempty fmempty"
  by (simp add: indexes_def ids_with_def)

text \<open>The ids an index holds under a key, none for an absent key.\<close>

definition index_ids :: "(string, string fset) gomap \<Rightarrow> string \<Rightarrow> string fset" where
  "index_ids i x = (case fmlookup i x of None \<Rightarrow> {||} | Some ids \<Rightarrow> ids)"

lemma fset_index_ids:
  assumes "indexes f m i"
  shows "fset (index_ids i x) = (if x = [] then {} else ids_with f m x)"
proof -
  have "map_option fset (fmlookup i x) =
          (if x = [] \<or> ids_with f m x = {} then None else Some (ids_with f m x))"
    using assms by (simp add: indexes_def)
  then show ?thesis
    by (cases "fmlookup i x") (auto simp: index_ids_def split: if_splits)
qed

locale key_index =
  fixes add remove :: "(string, string fset) gomap \<Rightarrow> string \<Rightarrow> string \<Rightarrow> (string, string fset) gomap"
  assumes lookup_add: "map_option fset (fmlookup (add i x k) y) =
      (if y = x \<and> x \<noteq> [] \<and> k \<noteq> [] then Some (insert k (fset (index_ids i x)))
       else map_option fset (fmlookup i y))"
    and lookup_remove: "map_option fset (fmlookup (remove i x k) y) =
      (if y = x then (if fset (index_ids i x) - {k} = {} then None
                      else Some (fset (index_ids i x) - {k}))
       else map_option fset (fmlookup i y))"
begin

lemma indexes_add:
  assumes "indexes f m i" and "fmlookup m k = None" and "k \<noteq> []"
  shows "indexes f (fmupd k v m) (add i (f v) k)"
  using assms(1,3) unfolding indexes_def lookup_add fset_index_ids [OF assms(1)]
  by (auto simp: ids_with_upd_fresh [OF assms(2)])

lemma indexes_remove:
  assumes "indexes f m i" and "fmlookup m k = Some v"
  shows "indexes f (fmdrop k m) (remove i (f v) k)"
proof -
  have other: "k \<notin> ids_with f m x" if "x \<noteq> f v" for x
    using assms(2) that by (auto simp: ids_with_def)
  show ?thesis
    using assms(1) other unfolding indexes_def lookup_remove fset_index_ids [OF assms(1)]
    by (auto simp: ids_with_drop)
qed

end

end
