(* ===== verification/Model_Types.thy ===== *)
theory Model_Types
  imports Go_Maps
begin

text \<open>
  The wire and storage types of \<open>internal/model/model.go\<close>, one record per struct with the fields of
  the source in its order. Field names carry a prefix for their struct, because Go reuses names
  such as \<open>ID\<close> and \<open>ExpiresAt\<close> across structs.
\<close>

record MessageEnvelope =
  env_ID :: string
  env_Sender :: string
  env_Recipient :: string
  env_CreatedAt :: time
  env_ExpiresAt :: time
  env_EncryptedPayload :: string
  env_ContentType :: string
  env_KeyID :: string
  env_Signature :: string
  env_Metadata :: "(string, string) gomap"
  env_RecipientTag :: string
  env_SenderTag :: string

text \<open>\<open>AckType\<close> is a string type with six constants; any other string is an invalid type.\<close>

type_synonym AckType = string

definition AckNodeReceived :: AckType where
  "AckNodeReceived = ''node_received_ack''"
definition AckRecipientDeviceReceived :: AckType where
  "AckRecipientDeviceReceived = ''recipient_device_received_ack''"
definition AckRecipientRead :: AckType where
  "AckRecipientRead = ''recipient_read_ack''"
definition AckExpired :: AckType where
  "AckExpired = ''expired_ack''"
definition AckRejected :: AckType where
  "AckRejected = ''rejected_ack''"
definition AckRetractionApplied :: AckType where
  "AckRetractionApplied = ''retraction_applied_ack''"

lemmas AckType_defs = AckNodeReceived_def AckRecipientDeviceReceived_def AckRecipientRead_def
  AckExpired_def AckRejected_def AckRetractionApplied_def

record AckRecord =
  ack_ID :: string
  ack_MessageID :: string
  ack_Sender :: string
  ack_Recipient :: string
  ack_Type :: AckType
  ack_CreatedAt :: time
  ack_ExpiresAt :: time
  ack_NodeID :: string
  ack_Signature :: string
  ack_SenderTag :: string
  ack_RecipientTag :: string
  ack_Reason :: string

text \<open>The zero value \<open>model.AckRecord{}\<close> that accompanies an error.\<close>

definition zero_AckRecord :: AckRecord where
  "zero_AckRecord = \<lparr>ack_ID = [], ack_MessageID = [], ack_Sender = [], ack_Recipient = [],
     ack_Type = [], ack_CreatedAt = zero_time, ack_ExpiresAt = zero_time, ack_NodeID = [],
     ack_Signature = [], ack_SenderTag = [], ack_RecipientTag = [], ack_Reason = []\<rparr>"

record PurgeRecord =
  purge_PurgeHash :: string
  purge_ExpiresAt :: time

record PresenceHeartbeat =
  hb_OwnerHash :: string
  hb_GrantHash :: string
  hb_UpdatedAt :: time
  hb_ExpiresAt :: time

record PresenceStatus =
  st_GrantHash :: string
  st_Online :: bool
  st_LastSeen :: time

record PresenceRevocation =
  rev_OwnerHash :: string
  rev_UpdatedAt :: time
  rev_ExpiresAt :: time

record SyncPayload =
  sync_NodeID :: string
  sync_Epoch :: string
  sync_NextSeq :: uint64
  sync_More :: bool
  sync_Messages :: "MessageEnvelope list"
  sync_Acks :: "AckRecord list"
  sync_Presence :: "PresenceHeartbeat list"
  sync_PresenceRevocations :: "PresenceRevocation list"
  sync_Purges :: "PurgeRecord list"

record PrekeyEntry =
  pk_OpkID :: string
  pk_PublicKey :: string
  pk_Signature :: string
  pk_LastResort :: bool

definition zero_PrekeyEntry :: PrekeyEntry where
  "zero_PrekeyEntry = \<lparr>pk_OpkID = [], pk_PublicKey = [], pk_Signature = [], pk_LastResort = False\<rparr>"

record PrekeyPublish =
  pub_DeviceKey :: string
  pub_Entries :: "PrekeyEntry list"
  pub_LastResort :: "PrekeyEntry option"

end
