(* ===== verification/Capability.thy ===== *)
theory Capability
  imports Base64 Model_Types
begin

text \<open>
  \<open>internal/queue/capability.go\<close>: the tag a queue secret derives, the authorization a request
  presents, and whether it may touch a record that carries a tag. SHA-256 is a parameter, a
  function from byte strings to byte strings.
\<close>

definition tagDomain :: string where
  "tagDomain = ''deechat.queue-tag.v1|''"

definition maxCapabilities :: nat where
  "maxCapabilities = 4"

definition TagForSecret :: "(string \<Rightarrow> string) \<Rightarrow> string \<Rightarrow> string" where
  "TagForSecret sha256 secret =
     (if secret = [] then [] else b64url_encode (sha256 (tagDomain @ secret)))"

record Auth =
  auth_tags :: "string list"
  auth_allowUntagged :: bool
  auth_trusted :: bool

definition TrustedAuth :: Auth where
  "TrustedAuth = \<lparr>auth_tags = [], auth_allowUntagged = True, auth_trusted = True\<rparr>"

text \<open>The loop of \<open>NewAuth\<close> over the presented secrets, which stops at the fourth tag.\<close>

fun newAuth_tags :: "(string \<Rightarrow> string) \<Rightarrow> string list \<Rightarrow> string list \<Rightarrow> string list" where
  "newAuth_tags sha256 [] tags = tags"
| "newAuth_tags sha256 (secret # secrets) tags =
     (let secret = TrimSpace secret in
      if secret = [] then newAuth_tags sha256 secrets tags
      else let tags = tags @ [TagForSecret sha256 secret] in
           if length tags = maxCapabilities then tags else newAuth_tags sha256 secrets tags)"

definition NewAuth :: "(string \<Rightarrow> string) \<Rightarrow> string list \<Rightarrow> bool \<Rightarrow> Auth" where
  "NewAuth sha256 secrets allowUntagged =
     \<lparr>auth_tags = newAuth_tags sha256 secrets [], auth_allowUntagged = allowUntagged,
      auth_trusted = False\<rparr>"

definition AuthorizesUntagged :: "Auth \<Rightarrow> bool" where
  "AuthorizesUntagged a = auth_allowUntagged a"

definition Subject :: "Auth \<Rightarrow> string" where
  "Subject a = (case auth_tags a of [] \<Rightarrow> [] | t # _ \<Rightarrow> t)"

text \<open>\<open>ConstantTimeCompare\<close> is 1 exactly where the two byte strings are equal.\<close>

definition permits :: "Auth \<Rightarrow> string \<Rightarrow> bool" where
  "permits a tag \<longleftrightarrow>
     (if auth_trusted a then True
      else if tag = [] then auth_allowUntagged a
      else list_ex (\<lambda>candidate. candidate = tag) (auth_tags a))"

section \<open>What an authorization opens\<close>

text \<open>The secrets that count: trimmed, non-empty, and the first four of those.\<close>

definition counted_secrets :: "string list \<Rightarrow> string list" where
  "counted_secrets secrets =
     take maxCapabilities (filter (\<lambda>s. s \<noteq> []) (map TrimSpace secrets))"

lemma newAuth_tags_take:
  "length tags < maxCapabilities \<Longrightarrow>
   newAuth_tags sha256 secrets tags =
     tags @ map (TagForSecret sha256)
              (take (maxCapabilities - length tags) (filter (\<lambda>s. s \<noteq> []) (map TrimSpace secrets)))"
proof (induction secrets arbitrary: tags)
  case (Cons s secrets)
  show ?case
  proof (cases "TrimSpace s = []")
    case True
    then show ?thesis using Cons by (simp add: Let_def)
  next
    case False
    from Cons.prems have k: "maxCapabilities - length tags = Suc (maxCapabilities - Suc (length tags))"
      by simp
    show ?thesis
    proof (cases "Suc (length tags) = maxCapabilities")
      case True
      with False k show ?thesis by (simp add: Let_def)
    next
      case neq: False
      with Cons.prems have "length (tags @ [TagForSecret sha256 (TrimSpace s)]) < maxCapabilities"
        by simp
      from Cons.IH [OF this] False k neq show ?thesis by (simp add: Let_def)
    qed
  qed
qed simp

lemma auth_tags_NewAuth:
  "auth_tags (NewAuth sha256 secrets b) = map (TagForSecret sha256) (counted_secrets secrets)"
  by (simp add: NewAuth_def newAuth_tags_take counted_secrets_def maxCapabilities_def)

lemma counted_secrets_nonempty: "s \<in> set (counted_secrets secrets) \<Longrightarrow> s \<noteq> []"
  by (auto simp: counted_secrets_def dest: in_set_takeD)

lemma permits_tagged:
  "tag \<noteq> [] \<Longrightarrow> permits a tag \<longleftrightarrow> auth_trusted a \<or> tag \<in> set (auth_tags a)"
  by (auto simp: permits_def list_ex_iff)

lemma permits_untagged: "permits a [] \<longleftrightarrow> auth_trusted a \<or> auth_allowUntagged a"
  by (auto simp: permits_def)

lemma permits_NewAuth_tagged:
  "tag \<noteq> [] \<Longrightarrow>
   permits (NewAuth sha256 secrets b) tag \<longleftrightarrow>
     tag \<in> TagForSecret sha256 ` set (counted_secrets secrets)"
  using auth_tags_NewAuth [of sha256 secrets b]
  by (auto simp: permits_tagged NewAuth_def)

end
