(* ===== verification/Queue_Store.thy ===== *)
theory Queue_Store
  imports Capability
begin

text \<open>
  The state of \<open>internal/queue/store.go\<close> and the helpers that run with the store's lock held: the
  single insertion and deletion points of the message and ack tables with the bookkeeping maps
  they keep in lock-step. Every exported operation of the store runs under one mutex, so an
  operation is a function from the store to the store; the clock and the order in which the
  runtime ranges over a map are arguments.
\<close>

section \<open>Errors, grants and caps\<close>

datatype queue_error =
    ErrDuplicate
  | ErrExpired
  | ErrQueueFull
  | ErrPairQuotaFull
  | ErrSlotsFull
  | ErrPayloadTooLarge
  | ErrInvalid
  | ErrNotOwned

record Grant =
  grant_Credential :: uint32
  grant_Slots :: int
  grant_MaxPerPair :: int
  grant_Retention :: duration

definition zero_Grant :: Grant where
  "zero_Grant = \<lparr>grant_Credential = 0, grant_Slots = 0, grant_MaxPerPair = 0, grant_Retention = 0\<rparr>"

definition lowerOf :: "int \<Rightarrow> int \<Rightarrow> int" where
  "lowerOf box credential = (if credential \<le> 0 \<or> credential > box then box else credential)"

definition lowerOfDuration :: "duration \<Rightarrow> duration \<Rightarrow> duration" where
  "lowerOfDuration box credential = (if credential \<le> 0 \<or> credential > box then box else credential)"

section \<open>The store\<close>

record StoreConfig =
  cfg_MaxMessages :: int
  cfg_MaxAcks :: int
  cfg_MaxPurges :: int
  cfg_MaxPerPair :: int
  cfg_MaxPayloadBytes :: int
  cfg_MaxTTL :: duration
  cfg_DefaultTTL :: duration

record Stats =
  stats_Messages :: int
  stats_Acks :: int
  stats_Purges :: int

record ImportResult =
  AcceptedMessages :: int
  DuplicateMessages :: int
  AcceptedAcks :: int
  DuplicateAcks :: int
  Rejected :: int

record tagBinding =
  bind_tag :: string
  bind_records :: int

record Store =
  maxMessages :: int
  maxAcks :: int
  maxPurges :: int
  maxPerPair :: int
  maxPayloadBytes :: int
  maxTTL :: duration
  defaultTTL :: duration
  messages :: "(string, MessageEnvelope) gomap"
  acks :: "(string, AckRecord) gomap"
  purges :: "(string, PurgeRecord) gomap"
  pairCounts :: "(string, int) gomap"
  credentialCounts :: "(uint32, int) gomap"
  messageCredential :: "(string, uint32) gomap"
  seq :: uint64
  messageSeq :: "(string, uint64) gomap"
  ackSeq :: "(string, uint64) gomap"
  messageTags :: "(string, tagBinding) gomap"
  messagesByPurge :: "(string, string fset) gomap"
  acksByMessage :: "(string, string fset) gomap"
  epoch :: string

text \<open>
  \<open>NewStore\<close>, with the epoch \<open>newEpoch\<close> drew as an argument. The doubled ack cap is computed in
  64-bit arithmetic.
\<close>

definition NewStore :: "string \<Rightarrow> StoreConfig \<Rightarrow> Store" where
  "NewStore newEpoch cfg =
     (let maxMessages' = (if cfg_MaxMessages cfg \<le> 0 then 1000 else cfg_MaxMessages cfg);
          maxAcks' = (if cfg_MaxAcks cfg \<le> maxMessages' then wrap64 (2 * maxMessages') else cfg_MaxAcks cfg);
          maxPurges' = (if cfg_MaxPurges cfg \<le> 0 then 1000 else cfg_MaxPurges cfg);
          maxPerPair' = (if cfg_MaxPerPair cfg \<le> 0 then 10 else cfg_MaxPerPair cfg);
          maxPayloadBytes' = (if cfg_MaxPayloadBytes cfg \<le> 0 then 8192 else cfg_MaxPayloadBytes cfg);
          maxTTL' = (if cfg_MaxTTL cfg \<le> 0 then 72 * Hour else cfg_MaxTTL cfg);
          defaultTTL' = (if cfg_DefaultTTL cfg \<le> 0 then 24 * Hour else cfg_DefaultTTL cfg)
      in \<lparr>maxMessages = maxMessages', maxAcks = maxAcks', maxPurges = maxPurges',
          maxPerPair = maxPerPair', maxPayloadBytes = maxPayloadBytes', maxTTL = maxTTL',
          defaultTTL = defaultTTL', messages = fmempty, acks = fmempty, purges = fmempty,
          pairCounts = fmempty, credentialCounts = fmempty, messageCredential = fmempty,
          seq = 0, messageSeq = fmempty, ackSeq = fmempty, messageTags = fmempty,
          messagesByPurge = fmempty, acksByMessage = fmempty, epoch = newEpoch\<rparr>)"

section \<open>Ack types and small helpers\<close>

definition validAckType :: "AckType \<Rightarrow> bool" where
  "validAckType t \<longleftrightarrow>
     t \<in> {AckNodeReceived, AckRecipientDeviceReceived, AckRecipientRead, AckExpired, AckRejected,
           AckRetractionApplied}"

definition deletesQueuedMessage :: "AckType \<Rightarrow> bool" where
  "deletesQueuedMessage t \<longleftrightarrow>
     t \<in> {AckRecipientDeviceReceived, AckRecipientRead, AckExpired, AckRejected, AckRetractionApplied}"

definition MaxAckReasonBytes :: nat where
  "MaxAckReasonBytes = 64"

definition boundedAckReason :: "string \<Rightarrow> string" where
  "boundedAckReason reason =
     (let reason = TrimSpace reason in if length reason > MaxAckReasonBytes then [] else reason)"

text \<open>\<open>envelope.Metadata["purgeHash"]\<close>, empty where the key is absent.\<close>

definition envelope_purgeHash :: "MessageEnvelope \<Rightarrow> string" where
  "envelope_purgeHash envelope = go_string (env_Metadata envelope) ''purgeHash''"

definition pairKey :: "string \<Rightarrow> string \<Rightarrow> string" where
  "pairKey sender recipient = sender @ [CHR 0x00] @ recipient"

definition env_pair :: "MessageEnvelope \<Rightarrow> string" where
  "env_pair envelope = pairKey (env_Sender envelope) (env_Recipient envelope)"

definition nodeReceivedAck :: "MessageEnvelope \<Rightarrow> string \<Rightarrow> time \<Rightarrow> AckRecord" where
  "nodeReceivedAck envelope nodeID now =
     \<lparr>ack_ID = env_ID envelope @ '':node_received'', ack_MessageID = env_ID envelope,
      ack_Sender = env_Sender envelope, ack_Recipient = env_Recipient envelope,
      ack_Type = AckNodeReceived, ack_CreatedAt = now, ack_ExpiresAt = env_ExpiresAt envelope,
      ack_NodeID = nodeID, ack_Signature = [], ack_SenderTag = env_SenderTag envelope,
      ack_RecipientTag = env_RecipientTag envelope, ack_Reason = []\<rparr>"

definition statsLocked :: "Store \<Rightarrow> Stats" where
  "statsLocked s = \<lparr>stats_Messages = go_len (messages s), stats_Acks = go_len (acks s),
                    stats_Purges = go_len (purges s)\<rparr>"

definition Occupancy :: "uint32 \<Rightarrow> Store \<Rightarrow> int" where
  "Occupancy credential s = go_int (credentialCounts s) credential"

definition externalAckCapacity :: "Store \<Rightarrow> int" where
  "externalAckCapacity s = maxAcks s - maxMessages s"

section \<open>Key indexes\<close>

definition indexAddLocked ::
  "(string, string fset) gomap \<Rightarrow> string \<Rightarrow> string \<Rightarrow> (string, string fset) gomap" where
  "indexAddLocked index key rid =
     (if key = [] \<or> rid = [] then index
      else fmupd key (finsert rid (index_ids index key)) index)"

definition indexRemoveLocked ::
  "(string, string fset) gomap \<Rightarrow> string \<Rightarrow> string \<Rightarrow> (string, string fset) gomap" where
  "indexRemoveLocked index key rid =
     (case fmlookup index key of
        None \<Rightarrow> index
      | Some ids \<Rightarrow>
          (let ids = ids |-| {|rid|} in
           if ids = {||} then fmdrop key index else fmupd key ids index))"

section \<open>Tag bindings\<close>

definition bindMessageTagLocked :: "string \<Rightarrow> string \<Rightarrow> Store \<Rightarrow> Store" where
  "bindMessageTagLocked messageID tag s =
     (if messageID = [] then s
      else let binding = (case fmlookup (messageTags s) messageID of
                            None \<Rightarrow> \<lparr>bind_tag = [], bind_records = 0\<rparr> | Some b \<Rightarrow> b);
               binding = binding\<lparr>bind_records := bind_records binding + 1\<rparr>;
               binding = (if bind_tag binding = [] then binding\<lparr>bind_tag := tag\<rparr> else binding)
           in s\<lparr>messageTags := fmupd messageID binding (messageTags s)\<rparr>)"

definition releaseMessageTagLocked :: "string \<Rightarrow> Store \<Rightarrow> Store" where
  "releaseMessageTagLocked messageID s =
     (case fmlookup (messageTags s) messageID of
        None \<Rightarrow> s
      | Some binding \<Rightarrow>
          if bind_records binding \<le> 1 then s\<lparr>messageTags := fmdrop messageID (messageTags s)\<rparr>
          else s\<lparr>messageTags := fmupd messageID
                   (binding\<lparr>bind_records := bind_records binding - 1\<rparr>) (messageTags s)\<rparr>)"

definition recipientTagForMessageLocked :: "string \<Rightarrow> Store \<Rightarrow> string option" where
  "recipientTagForMessageLocked messageID s = map_option bind_tag (fmlookup (messageTags s) messageID)"

section \<open>The insertion and deletion points\<close>

text \<open>
  The decrement both counters of the message table use: the entry goes with its last record.
\<close>

definition countRelease :: "('x, int) gomap \<Rightarrow> 'x \<Rightarrow> ('x, int) gomap" where
  "countRelease counts key =
     (if go_int counts key \<le> 1 then fmdrop key counts
      else fmupd key (go_int counts key - 1) counts)"

definition addMessageLocked :: "MessageEnvelope \<Rightarrow> uint32 \<Rightarrow> Store \<Rightarrow> Store" where
  "addMessageLocked envelope credential s =
     (let s = s\<lparr>messages := fmupd (env_ID envelope) envelope (messages s)\<rparr>;
          s = s\<lparr>pairCounts := go_incr (pairCounts s) (env_pair envelope)\<rparr>;
          s = (if credential \<noteq> 0
               then s\<lparr>credentialCounts := go_incr (credentialCounts s) credential,
                       messageCredential := fmupd (env_ID envelope) credential (messageCredential s)\<rparr>
               else s);
          s = s\<lparr>seq := seq s + 1\<rparr>;
          s = s\<lparr>messageSeq := fmupd (env_ID envelope) (seq s) (messageSeq s)\<rparr>;
          s = bindMessageTagLocked (env_ID envelope) (env_RecipientTag envelope) s
      in s\<lparr>messagesByPurge :=
             indexAddLocked (messagesByPurge s) (envelope_purgeHash envelope) (env_ID envelope)\<rparr>)"

definition deleteMessageLocked :: "string \<Rightarrow> Store \<Rightarrow> Store" where
  "deleteMessageLocked rid s =
     (case fmlookup (messages s) rid of
        None \<Rightarrow> s
      | Some envelope \<Rightarrow>
          (let s = s\<lparr>messages := fmdrop rid (messages s)\<rparr>;
               s = s\<lparr>messageSeq := fmdrop rid (messageSeq s)\<rparr>;
               s = releaseMessageTagLocked rid s;
               s = s\<lparr>messagesByPurge :=
                       indexRemoveLocked (messagesByPurge s) (envelope_purgeHash envelope) rid\<rparr>;
               s = s\<lparr>pairCounts := countRelease (pairCounts s) (env_pair envelope)\<rparr>
           in case fmlookup (messageCredential s) rid of
                None \<Rightarrow> s
              | Some credential \<Rightarrow>
                  s\<lparr>messageCredential := fmdrop rid (messageCredential s),
                    credentialCounts := countRelease (credentialCounts s) credential\<rparr>))"

definition addAckWithinLocked :: "AckRecord \<Rightarrow> time \<Rightarrow> int \<Rightarrow> Store \<Rightarrow> queue_error option \<times> Store" where
  "addAckWithinLocked ack now capacity s =
     (if fmlookup (acks s) (ack_ID ack) \<noteq> None then (Some ErrDuplicate, s)
      else if go_len (acks s) \<ge> capacity then (Some ErrQueueFull, s)
      else
        let ack = (if IsZero (ack_ExpiresAt ack) then ack\<lparr>ack_ExpiresAt := now + defaultTTL s\<rparr> else ack)
        in if \<not> After (ack_ExpiresAt ack) now then (Some ErrExpired, s)
           else
             let s = s\<lparr>acks := fmupd (ack_ID ack) ack (acks s)\<rparr>;
                 s = s\<lparr>seq := seq s + 1\<rparr>;
                 s = s\<lparr>ackSeq := fmupd (ack_ID ack) (seq s) (ackSeq s)\<rparr>;
                 s = bindMessageTagLocked (ack_MessageID ack) (ack_RecipientTag ack) s
             in (None, s\<lparr>acksByMessage :=
                           indexAddLocked (acksByMessage s) (ack_MessageID ack) (ack_ID ack)\<rparr>))"

definition addAckLocked :: "AckRecord \<Rightarrow> time \<Rightarrow> Store \<Rightarrow> queue_error option \<times> Store" where
  "addAckLocked ack now s = addAckWithinLocked ack now (maxAcks s) s"

definition addExternalAckLocked :: "AckRecord \<Rightarrow> time \<Rightarrow> Store \<Rightarrow> queue_error option \<times> Store" where
  "addExternalAckLocked ack now s = addAckWithinLocked ack now (externalAckCapacity s) s"

definition deleteAckLocked :: "string \<Rightarrow> Store \<Rightarrow> Store" where
  "deleteAckLocked rid s =
     (case fmlookup (acks s) rid of
        None \<Rightarrow> s
      | Some ack \<Rightarrow>
          (let s = s\<lparr>acks := fmdrop rid (acks s)\<rparr>;
               s = s\<lparr>ackSeq := fmdrop rid (ackSeq s)\<rparr>;
               s = releaseMessageTagLocked (ack_MessageID ack) s
           in s\<lparr>acksByMessage := indexRemoveLocked (acksByMessage s) (ack_MessageID ack) rid\<rparr>))"

definition hasTerminalAckLocked :: "string \<Rightarrow> Store \<Rightarrow> bool" where
  "hasTerminalAckLocked messageID s \<longleftrightarrow>
     fBex (index_ids (acksByMessage s) messageID)
       (\<lambda>rid. deletesQueuedMessage (case fmlookup (acks s) rid of None \<Rightarrow> [] | Some ack \<Rightarrow> ack_Type ack))"

definition storePurgeLocked :: "PurgeRecord \<Rightarrow> Store \<Rightarrow> Store" where
  "storePurgeLocked purge s =
     (if fmlookup (purges s) (purge_PurgeHash purge) = None \<and> go_len (purges s) \<ge> maxPurges s then s
      else s\<lparr>purges := fmupd (purge_PurgeHash purge) purge (purges s)\<rparr>)"

definition ackIDsForMessageLocked :: "(string fset \<Rightarrow> string list) \<Rightarrow> string \<Rightarrow> Store \<Rightarrow> string list" where
  "ackIDsForMessageLocked rng messageID s = rng (index_ids (acksByMessage s) messageID)"

text \<open>
  \<open>purgeOwnerLocked\<close>: the owner's ids are copied out of the index first, then each message is
  deleted, and after it every ack that names it. The result counts both.
\<close>

definition purgeMessageLocked ::
  "(string fset \<Rightarrow> string list) \<Rightarrow> string \<Rightarrow> int \<times> int \<times> Store \<Rightarrow> int \<times> int \<times> Store" where
  "purgeMessageLocked rng rid = (\<lambda>(msgs, as, s).
     let s = deleteMessageLocked rid s;
         ids = ackIDsForMessageLocked rng rid s
     in (msgs + 1, as + int (length ids), fold deleteAckLocked ids s))"

definition purgeOwnerLocked ::
  "(string fset \<Rightarrow> string list) \<Rightarrow> string \<Rightarrow> Store \<Rightarrow> int \<times> int \<times> Store" where
  "purgeOwnerLocked rng purgeHash s =
     (let owned = index_ids (messagesByPurge s) purgeHash in
      if owned = {||} then (0, 0, s)
      else fold (purgeMessageLocked rng) (rng owned) (0, 0, s))"

section \<open>The counters and indexes meet their interfaces\<close>

interpretation pair_counter: counter go_incr "countRelease :: (string, int) gomap \<Rightarrow> _"
  by unfold_locales (auto simp: go_incr_def countRelease_def)

interpretation credential_counter: counter go_incr "countRelease :: (uint32, int) gomap \<Rightarrow> _"
  by unfold_locales (auto simp: go_incr_def countRelease_def)

interpretation record_index: key_index indexAddLocked indexRemoveLocked
proof unfold_locales
  fix i :: "(string, string fset) gomap" and x k y
  show "map_option fset (fmlookup (indexAddLocked i x k) y) =
      (if y = x \<and> x \<noteq> [] \<and> k \<noteq> [] then Some (insert k (fset (index_ids i x)))
       else map_option fset (fmlookup i y))"
    by (auto simp: indexAddLocked_def)
  show "map_option fset (fmlookup (indexRemoveLocked i x k) y) =
      (if y = x then (if fset (index_ids i x) - {k} = {} then None
                      else Some (fset (index_ids i x) - {k}))
       else map_option fset (fmlookup i y))"
    by (auto simp: indexRemoveLocked_def index_ids_def Let_def split: option.splits)
qed

end
