(* ===== verification/Queue_Ops.thy ===== *)
theory Queue_Ops
  imports Queue_Store
begin

text \<open>
  The exported operations of \<open>internal/queue/store.go\<close>, the import path of replication, and the
  machine they form: a datatype of requests and the step each one makes.
\<close>

section \<open>Writing a message\<close>

text \<open>
  The part of \<open>AddMessageWithGrant\<close> that runs before the lock is taken: trimming, validation, the
  default expiry and the clamp to the node's and the credential's retention ceiling.
\<close>

definition checkEnvelope :: "time \<Rightarrow> Grant \<Rightarrow> Store \<Rightarrow> MessageEnvelope \<Rightarrow> queue_error + MessageEnvelope" where
  "checkEnvelope now grant s envelope =
     (let envelope = envelope\<lparr>env_ID := TrimSpace (env_ID envelope),
            env_Sender := TrimSpace (env_Sender envelope),
            env_Recipient := TrimSpace (env_Recipient envelope),
            env_EncryptedPayload := TrimSpace (env_EncryptedPayload envelope),
            env_RecipientTag := TrimSpace (env_RecipientTag envelope),
            env_SenderTag := TrimSpace (env_SenderTag envelope)\<rparr>
      in if env_ID envelope = [] \<or> env_Sender envelope = [] \<or> env_Recipient envelope = []
            \<or> env_EncryptedPayload envelope = [] then Inl ErrInvalid
         else if int (length (env_EncryptedPayload envelope)) > maxPayloadBytes s then Inl ErrPayloadTooLarge
         else
           let envelope = (if IsZero (env_CreatedAt envelope)
                           then envelope\<lparr>env_CreatedAt := now\<rparr> else envelope);
               envelope = (if IsZero (env_ExpiresAt envelope)
                           then envelope\<lparr>env_ExpiresAt := now + defaultTTL s\<rparr> else envelope);
               maxExpiry = now + lowerOfDuration (maxTTL s) (grant_Retention grant);
               envelope = (if After (env_ExpiresAt envelope) maxExpiry
                           then envelope\<lparr>env_ExpiresAt := maxExpiry\<rparr> else envelope)
           in if \<not> After (env_ExpiresAt envelope) now then Inl ErrExpired else Inr envelope)"

text \<open>A live tombstone for the envelope's purge hash.\<close>

definition purgedLocked :: "time \<Rightarrow> MessageEnvelope \<Rightarrow> Store \<Rightarrow> bool" where
  "purgedLocked now envelope s \<longleftrightarrow>
     envelope_purgeHash envelope \<noteq> [] \<and>
     (case fmlookup (purges s) (envelope_purgeHash envelope) of
        None \<Rightarrow> False | Some purge \<Rightarrow> After (purge_ExpiresAt purge) now)"

definition AddMessageWithGrant ::
  "time \<Rightarrow> MessageEnvelope \<Rightarrow> string \<Rightarrow> Grant \<Rightarrow> Store \<Rightarrow> AckRecord \<times> queue_error option \<times> Store" where
  "AddMessageWithGrant now envelope nodeID grant s =
     (case checkEnvelope now grant s envelope of
        Inl err \<Rightarrow> (zero_AckRecord, Some err, s)
      | Inr envelope \<Rightarrow>
          if fmlookup (messages s) (env_ID envelope) \<noteq> None
          then (nodeReceivedAck envelope nodeID now, Some ErrDuplicate, s)
          else if purgedLocked now envelope s then (zero_AckRecord, Some ErrDuplicate, s)
          else if go_int (pairCounts s) (env_pair envelope) \<ge> lowerOf (maxPerPair s) (grant_MaxPerPair grant)
          then (zero_AckRecord, Some ErrPairQuotaFull, s)
          else if grant_Credential grant \<noteq> 0 \<and>
                  go_int (credentialCounts s) (grant_Credential grant)
                    \<ge> lowerOf (maxMessages s) (grant_Slots grant)
          then (zero_AckRecord, Some ErrSlotsFull, s)
          else if go_len (messages s) \<ge> maxMessages s then (zero_AckRecord, Some ErrQueueFull, s)
          else
            let ack = nodeReceivedAck envelope nodeID now in
            (case addAckLocked ack now s of
               (Some err, s) \<Rightarrow> (zero_AckRecord, Some err, s)
             | (None, s) \<Rightarrow> (ack, None, addMessageLocked envelope (grant_Credential grant) s)))"

definition AddMessage ::
  "time \<Rightarrow> MessageEnvelope \<Rightarrow> string \<Rightarrow> Store \<Rightarrow> AckRecord \<times> queue_error option \<times> Store" where
  "AddMessage now envelope nodeID s = AddMessageWithGrant now envelope nodeID zero_Grant s"

section \<open>Writing an ack\<close>

definition checkAck :: "time \<Rightarrow> string \<Rightarrow> Grant \<Rightarrow> Store \<Rightarrow> AckRecord \<Rightarrow> queue_error + AckRecord" where
  "checkAck now nodeID grant s ack =
     (let ack = ack\<lparr>ack_ID := TrimSpace (ack_ID ack),
            ack_MessageID := TrimSpace (ack_MessageID ack),
            ack_Sender := TrimSpace (ack_Sender ack),
            ack_Recipient := TrimSpace (ack_Recipient ack),
            ack_SenderTag := TrimSpace (ack_SenderTag ack),
            ack_Reason := boundedAckReason (ack_Reason ack)\<rparr>
      in if ack_ID ack = [] \<or> ack_MessageID ack = [] \<or> ack_Sender ack = [] \<or> ack_Recipient ack = []
            \<or> \<not> validAckType (ack_Type ack) then Inl ErrInvalid
         else
           let ack = (if IsZero (ack_CreatedAt ack) then ack\<lparr>ack_CreatedAt := now\<rparr> else ack);
               ack = (if IsZero (ack_ExpiresAt ack) then ack\<lparr>ack_ExpiresAt := now + defaultTTL s\<rparr> else ack);
               maxExpiry = now + lowerOfDuration (maxTTL s) (grant_Retention grant);
               ack = (if After (ack_ExpiresAt ack) maxExpiry then ack\<lparr>ack_ExpiresAt := maxExpiry\<rparr> else ack);
               ack = (if ack_NodeID ack = [] then ack\<lparr>ack_NodeID := nodeID\<rparr> else ack)
           in if \<not> After (ack_ExpiresAt ack) now then Inl ErrExpired else Inr ack)"

text \<open>
  With the lock held, the caller is authorized against the binding of the acked message before
  anything else is looked at; the tag the caller sent is discarded.
\<close>

definition AddAckWithGrant ::
  "time \<Rightarrow> AckRecord \<Rightarrow> string \<Rightarrow> Grant \<Rightarrow> Auth \<Rightarrow> Store \<Rightarrow> queue_error option \<times> Store" where
  "AddAckWithGrant now ack nodeID grant auth s =
     (case checkAck now nodeID grant s ack of
        Inl err \<Rightarrow> (Some err, s)
      | Inr ack \<Rightarrow>
          let tag = recipientTagForMessageLocked (ack_MessageID ack) s;
              ack = ack\<lparr>ack_RecipientTag := (case tag of None \<Rightarrow> [] | Some t \<Rightarrow> t)\<rparr>
          in if (case tag of None \<Rightarrow> False | Some t \<Rightarrow> \<not> permits auth t) then (Some ErrNotOwned, s)
             else if fmlookup (acks s) (ack_ID ack) \<noteq> None then (Some ErrDuplicate, s)
             else case addExternalAckLocked ack now s of
                    (Some err, s) \<Rightarrow> (Some err, s)
                  | (None, s) \<Rightarrow>
                      (None, if deletesQueuedMessage (ack_Type ack)
                             then deleteMessageLocked (ack_MessageID ack) s else s))"

definition AddAck :: "time \<Rightarrow> AckRecord \<Rightarrow> string \<Rightarrow> Store \<Rightarrow> queue_error option \<times> Store" where
  "AddAck now ack nodeID s = AddAckWithGrant now ack nodeID zero_Grant TrustedAuth s"

section \<open>Reading\<close>

text \<open>
  The read loops sweep expired records of the whole table while they collect the caller's, then
  sort by creation time and cut at the limit. \<open>sort.Slice\<close> is not stable, but it is applied to
  records in the order the runtime ranged over the map: a stable sort over an arbitrary order has
  the same possible results.
\<close>

definition readLimit :: "int \<Rightarrow> nat" where
  "readLimit limit = (if limit \<le> 0 then 100 else nat limit)"

definition messagesLoop ::
  "time \<Rightarrow> string \<Rightarrow> Auth \<Rightarrow> string \<Rightarrow> MessageEnvelope list \<times> Store \<Rightarrow> MessageEnvelope list \<times> Store" where
  "messagesLoop now recipient auth rid = (\<lambda>(out, s).
     case fmlookup (messages s) rid of
       None \<Rightarrow> (out, s)
     | Some envelope \<Rightarrow>
         if \<not> After (env_ExpiresAt envelope) now then (out, deleteMessageLocked rid s)
         else if env_Recipient envelope = recipient \<and> permits auth (env_RecipientTag envelope)
         then (out @ [envelope], s) else (out, s))"

definition MessagesForRecipient ::
  "(string fset \<Rightarrow> string list) \<Rightarrow> time \<Rightarrow> string \<Rightarrow> int \<Rightarrow> Auth \<Rightarrow> Store \<Rightarrow> MessageEnvelope list \<times> Store" where
  "MessagesForRecipient rng now recipient limit auth s =
     (let recipient = TrimSpace recipient in
      if recipient = [] then ([], s)
      else let (out, s) = fold (messagesLoop now recipient auth) (rng (fmdom (messages s))) ([], s)
           in (take (readLimit limit) (sort_key env_CreatedAt out), s))"

definition acksLoop ::
  "time \<Rightarrow> string \<Rightarrow> Auth \<Rightarrow> string \<Rightarrow> AckRecord list \<times> Store \<Rightarrow> AckRecord list \<times> Store" where
  "acksLoop now sender auth rid = (\<lambda>(out, s).
     case fmlookup (acks s) rid of
       None \<Rightarrow> (out, s)
     | Some ack \<Rightarrow>
         if \<not> After (ack_ExpiresAt ack) now then (out, deleteAckLocked rid s)
         else if ack_Sender ack = sender \<and> permits auth (ack_SenderTag ack)
         then (out @ [ack], s) else (out, s))"

definition AcksForSender ::
  "(string fset \<Rightarrow> string list) \<Rightarrow> time \<Rightarrow> string \<Rightarrow> int \<Rightarrow> Auth \<Rightarrow> Store \<Rightarrow> AckRecord list \<times> Store" where
  "AcksForSender rng now sender limit auth s =
     (let sender = TrimSpace sender in
      if sender = [] then ([], s)
      else let (out, s) = fold (acksLoop now sender auth) (rng (fmdom (acks s))) ([], s)
           in (take (readLimit limit) (sort_key ack_CreatedAt out), s))"

section \<open>Expiry\<close>

definition message_dead :: "time \<Rightarrow> MessageEnvelope \<Rightarrow> bool" where
  "message_dead now envelope \<longleftrightarrow> \<not> After (env_ExpiresAt envelope) now"

definition ack_dead :: "time \<Rightarrow> AckRecord \<Rightarrow> bool" where
  "ack_dead now ack \<longleftrightarrow> \<not> After (ack_ExpiresAt ack) now"

definition purge_dead :: "time \<Rightarrow> PurgeRecord \<Rightarrow> bool" where
  "purge_dead now purge \<longleftrightarrow> \<not> After (purge_ExpiresAt purge) now"

definition deletePurge :: "string \<Rightarrow> Store \<Rightarrow> Store" where
  "deletePurge hash s = s\<lparr>purges := fmdrop hash (purges s)\<rparr>"

text \<open>The three expiry loops, shared word for word by \<open>PruneExpired\<close> and \<open>SnapshotSince\<close>.\<close>

definition expireLocked :: "(string fset \<Rightarrow> string list) \<Rightarrow> time \<Rightarrow> Store \<Rightarrow> Store" where
  "expireLocked rng now s =
     sweep rng purges (purge_dead now) deletePurge
       (sweep rng acks (ack_dead now) deleteAckLocked
          (sweep rng messages (message_dead now) deleteMessageLocked s))"

definition PruneExpired :: "(string fset \<Rightarrow> string list) \<Rightarrow> time \<Rightarrow> Store \<Rightarrow> Stats \<times> Store" where
  "PruneExpired rng now s = (let s = expireLocked rng now s in (statsLocked s, s))"

section \<open>Purging an owner\<close>

definition PurgeOwner ::
  "(string fset \<Rightarrow> string list) \<Rightarrow> time \<Rightarrow> string \<Rightarrow> Store \<Rightarrow> int \<times> int \<times> Store" where
  "PurgeOwner rng now purgeHash s =
     (let purgeHash = TrimSpace purgeHash;
          s = storePurgeLocked \<lparr>purge_PurgeHash = purgeHash, purge_ExpiresAt = now + defaultTTL s\<rparr> s
      in purgeOwnerLocked rng purgeHash s)"

section \<open>Serving a snapshot page\<close>

record snapshot_ref =
  ref_seq :: uint64
  ref_id :: string
  ref_isAck :: bool

definition pendingRefs ::
  "(string fset \<Rightarrow> string list) \<Rightarrow> uint64 \<Rightarrow> bool \<Rightarrow> (string, uint64) gomap \<Rightarrow> snapshot_ref list" where
  "pendingRefs rng since isAck seqs =
     concat (map (\<lambda>rid. case fmlookup seqs rid of
                          None \<Rightarrow> []
                        | Some n \<Rightarrow> if n > since then [\<lparr>ref_seq = n, ref_id = rid, ref_isAck = isAck\<rparr>]
                                   else [])
              (rng (fmdom seqs)))"

definition zero_MessageEnvelope :: MessageEnvelope where
  "zero_MessageEnvelope = \<lparr>env_ID = [], env_Sender = [], env_Recipient = [], env_CreatedAt = zero_time,
     env_ExpiresAt = zero_time, env_EncryptedPayload = [], env_ContentType = [], env_KeyID = [],
     env_Signature = [], env_Metadata = fmempty, env_RecipientTag = [], env_SenderTag = []\<rparr>"

definition appendRef :: "Store \<Rightarrow> snapshot_ref \<Rightarrow> SyncPayload \<Rightarrow> SyncPayload" where
  "appendRef s item payload =
     (let payload =
        (if ref_isAck item
         then payload\<lparr>sync_Acks := sync_Acks payload @
                [case fmlookup (acks s) (ref_id item) of None \<Rightarrow> zero_AckRecord | Some a \<Rightarrow> a]\<rparr>
         else payload\<lparr>sync_Messages := sync_Messages payload @
                [case fmlookup (messages s) (ref_id item) of None \<Rightarrow> zero_MessageEnvelope | Some e \<Rightarrow> e]\<rparr>)
      in payload\<lparr>sync_NextSeq := ref_seq item\<rparr>)"

definition SnapshotSince ::
  "(string fset \<Rightarrow> string list) \<Rightarrow> time \<Rightarrow> uint64 \<Rightarrow> int \<Rightarrow> Store \<Rightarrow> SyncPayload \<times> Store" where
  "SnapshotSince rng now since limit s =
     (let limit = (if limit \<le> 0 then 500 else limit);
          s = expireLocked rng now s;
          pending = sort_key ref_seq
            (pendingRefs rng since False (messageSeq s) @ pendingRefs rng since True (ackSeq s));
          more = int (length pending) > limit;
          pending = (if more then take (nat limit) pending else pending);
          payload = \<lparr>sync_NodeID = [], sync_Epoch = epoch s, sync_NextSeq = since, sync_More = more,
                     sync_Messages = [], sync_Acks = [], sync_Presence = [],
                     sync_PresenceRevocations = [], sync_Purges = []\<rparr>;
          payload = fold (appendRef s) pending payload;
          payload = payload\<lparr>sync_Purges :=
            concat (map (\<lambda>h. case fmlookup (purges s) h of None \<Rightarrow> [] | Some p \<Rightarrow> [p])
                      (rng (fmdom (purges s))))\<rparr>
      in (payload, s))"

definition Snapshot ::
  "(string fset \<Rightarrow> string list) \<Rightarrow> time \<Rightarrow> int \<Rightarrow> Store \<Rightarrow> SyncPayload \<times> Store" where
  "Snapshot rng now limit s = SnapshotSince rng now 0 limit s"

section \<open>Importing a peer's page\<close>

definition checkImportedEnvelope :: "time \<Rightarrow> Store \<Rightarrow> MessageEnvelope \<Rightarrow> queue_error + MessageEnvelope" where
  "checkImportedEnvelope now s envelope =
     (let envelope = envelope\<lparr>env_ID := TrimSpace (env_ID envelope),
            env_Sender := TrimSpace (env_Sender envelope),
            env_Recipient := TrimSpace (env_Recipient envelope),
            env_EncryptedPayload := TrimSpace (env_EncryptedPayload envelope)\<rparr>
      in if env_ID envelope = [] \<or> env_Sender envelope = [] \<or> env_Recipient envelope = []
            \<or> env_EncryptedPayload envelope = [] then Inl ErrInvalid
         else if int (length (env_EncryptedPayload envelope)) > maxPayloadBytes s then Inl ErrPayloadTooLarge
         else
           let envelope = (if IsZero (env_CreatedAt envelope)
                           then envelope\<lparr>env_CreatedAt := now\<rparr> else envelope);
               envelope = (if IsZero (env_ExpiresAt envelope)
                           then envelope\<lparr>env_ExpiresAt := now + defaultTTL s\<rparr> else envelope);
               maxExpiry = now + maxTTL s;
               envelope = (if After (env_ExpiresAt envelope) maxExpiry
                           then envelope\<lparr>env_ExpiresAt := maxExpiry\<rparr> else envelope)
           in if \<not> After (env_ExpiresAt envelope) now then Inl ErrExpired else Inr envelope)"

definition importMessageLocked ::
  "MessageEnvelope \<Rightarrow> time \<Rightarrow> Store \<Rightarrow> queue_error option \<times> Store" where
  "importMessageLocked envelope now s =
     (case checkImportedEnvelope now s envelope of
        Inl err \<Rightarrow> (Some err, s)
      | Inr envelope \<Rightarrow>
          if fmlookup (messages s) (env_ID envelope) \<noteq> None then (Some ErrDuplicate, s)
          else if purgedLocked now envelope s then (Some ErrDuplicate, s)
          else if hasTerminalAckLocked (env_ID envelope) s then (Some ErrDuplicate, s)
          else if go_len (messages s) \<ge> maxMessages s then (Some ErrQueueFull, s)
          else (None, addMessageLocked envelope 0 s))"

definition checkImportedAck :: "time \<Rightarrow> Store \<Rightarrow> AckRecord \<Rightarrow> queue_error + AckRecord" where
  "checkImportedAck now s ack =
     (let ack = ack\<lparr>ack_ID := TrimSpace (ack_ID ack),
            ack_MessageID := TrimSpace (ack_MessageID ack),
            ack_Sender := TrimSpace (ack_Sender ack),
            ack_Recipient := TrimSpace (ack_Recipient ack),
            ack_Reason := boundedAckReason (ack_Reason ack)\<rparr>
      in if ack_ID ack = [] \<or> ack_MessageID ack = [] \<or> ack_Sender ack = [] \<or> ack_Recipient ack = []
            \<or> \<not> validAckType (ack_Type ack) then Inl ErrInvalid
         else
           let ack = (if IsZero (ack_CreatedAt ack) then ack\<lparr>ack_CreatedAt := now\<rparr> else ack);
               ack = (if IsZero (ack_ExpiresAt ack) then ack\<lparr>ack_ExpiresAt := now + defaultTTL s\<rparr> else ack);
               maxExpiry = now + maxTTL s;
               ack = (if After (ack_ExpiresAt ack) maxExpiry then ack\<lparr>ack_ExpiresAt := maxExpiry\<rparr> else ack)
           in if \<not> After (ack_ExpiresAt ack) now then Inl ErrExpired else Inr ack)"

definition importAckLocked :: "AckRecord \<Rightarrow> time \<Rightarrow> Store \<Rightarrow> queue_error option \<times> Store" where
  "importAckLocked ack now s =
     (case checkImportedAck now s ack of
        Inl err \<Rightarrow> (Some err, s)
      | Inr ack \<Rightarrow>
          if fmlookup (acks s) (ack_ID ack) \<noteq> None then (Some ErrDuplicate, s)
          else case addExternalAckLocked ack now s of
                 (Some err, s) \<Rightarrow> (Some err, s)
               | (None, s) \<Rightarrow>
                   (None, if deletesQueuedMessage (ack_Type ack)
                          then deleteMessageLocked (ack_MessageID ack) s else s))"

definition importPurgeStep ::
  "(string fset \<Rightarrow> string list) \<Rightarrow> time \<Rightarrow> PurgeRecord \<Rightarrow> ImportResult \<times> Store \<Rightarrow> ImportResult \<times> Store" where
  "importPurgeStep rng now purge = (\<lambda>(result, s).
     if purge_PurgeHash purge = [] \<or> \<not> After (purge_ExpiresAt purge) now
     then (result\<lparr>Rejected := Rejected result + 1\<rparr>, s)
     else (result, snd (snd (purgeOwnerLocked rng (purge_PurgeHash purge) (storePurgeLocked purge s)))))"

definition importMessageStep ::
  "time \<Rightarrow> MessageEnvelope \<Rightarrow> ImportResult \<times> Store \<Rightarrow> ImportResult \<times> Store" where
  "importMessageStep now envelope = (\<lambda>(result, s).
     case importMessageLocked envelope now s of
       (None, s) \<Rightarrow> (result\<lparr>AcceptedMessages := AcceptedMessages result + 1\<rparr>, s)
     | (Some err, s) \<Rightarrow>
         (if err = ErrDuplicate then result\<lparr>DuplicateMessages := DuplicateMessages result + 1\<rparr>
          else result\<lparr>Rejected := Rejected result + 1\<rparr>, s))"

definition importAckStep :: "time \<Rightarrow> AckRecord \<Rightarrow> ImportResult \<times> Store \<Rightarrow> ImportResult \<times> Store" where
  "importAckStep now ack = (\<lambda>(result, s).
     case importAckLocked ack now s of
       (None, s) \<Rightarrow> (result\<lparr>AcceptedAcks := AcceptedAcks result + 1\<rparr>, s)
     | (Some err, s) \<Rightarrow>
         (if err = ErrDuplicate then result\<lparr>DuplicateAcks := DuplicateAcks result + 1\<rparr>
          else result\<lparr>Rejected := Rejected result + 1\<rparr>, s))"

definition ImportSnapshot ::
  "(string fset \<Rightarrow> string list) \<Rightarrow> time \<Rightarrow> SyncPayload \<Rightarrow> Store \<Rightarrow> ImportResult \<times> Store" where
  "ImportSnapshot rng now payload s =
     (let result = \<lparr>AcceptedMessages = 0, DuplicateMessages = 0, AcceptedAcks = 0, DuplicateAcks = 0,
                    Rejected = 0\<rparr>
      in fold (importAckStep now) (sync_Acks payload)
           (fold (importMessageStep now) (sync_Messages payload)
              (fold (importPurgeStep rng now) (sync_Purges payload) (result, s))))"

section \<open>The store as a machine\<close>

text \<open>
  One request to the store, with the instant its handler read from the clock. Requests are handled
  one at a time under the lock, so a history of the store is a list of requests; their instants
  need not be ordered, because a handler reads the clock before it waits for the lock.
\<close>

datatype store_request =
    PostMessage time MessageEnvelope string Grant
  | GetMessages time string int Auth
  | PostAck time AckRecord string Grant Auth
  | GetAcks time string int Auth
  | ServeSnapshot time uint64 int
  | Import time SyncPayload
  | Prune time
  | Purge time string

fun store_step :: "(string fset \<Rightarrow> string list) \<Rightarrow> store_request \<Rightarrow> Store \<Rightarrow> Store" where
  "store_step rng (PostMessage now envelope nodeID grant) s =
     snd (snd (AddMessageWithGrant now envelope nodeID grant s))"
| "store_step rng (GetMessages now recipient limit auth) s =
     snd (MessagesForRecipient rng now recipient limit auth s)"
| "store_step rng (PostAck now ack nodeID grant auth) s =
     snd (AddAckWithGrant now ack nodeID grant auth s)"
| "store_step rng (GetAcks now sender limit auth) s = snd (AcksForSender rng now sender limit auth s)"
| "store_step rng (ServeSnapshot now since limit) s = snd (SnapshotSince rng now since limit s)"
| "store_step rng (Import now payload) s = snd (ImportSnapshot rng now payload s)"
| "store_step rng (Prune now) s = snd (PruneExpired rng now s)"
| "store_step rng (Purge now hash) s = snd (snd (PurgeOwner rng now hash s))"

fun request_time :: "store_request \<Rightarrow> time" where
  "request_time (PostMessage now _ _ _) = now"
| "request_time (GetMessages now _ _ _) = now"
| "request_time (PostAck now _ _ _ _) = now"
| "request_time (GetAcks now _ _ _) = now"
| "request_time (ServeSnapshot now _ _) = now"
| "request_time (Import now _) = now"
| "request_time (Prune now) = now"
| "request_time (Purge now _) = now"

fun store_run :: "(string fset \<Rightarrow> string list) \<Rightarrow> store_request list \<Rightarrow> Store \<Rightarrow> Store" where
  "store_run rng [] s = s"
| "store_run rng (r # rs) s = store_run rng rs (store_step rng r s)"

text \<open>
  The number of records a request may insert, and the clock hypothesis on a history: no instant
  before the zero time of \<open>time.Time\<close> and none after \<open>T\<close>.
\<close>

fun request_weight :: "store_request \<Rightarrow> nat" where
  "request_weight (PostMessage _ _ _ _) = 2"
| "request_weight (PostAck _ _ _ _ _) = 1"
| "request_weight (Import _ payload) = length (sync_Messages payload) + length (sync_Acks payload)"
| "request_weight _ = 0"

definition clocked :: "time \<Rightarrow> store_request list \<Rightarrow> bool" where
  "clocked T rs \<longleftrightarrow> list_all (\<lambda>r. zero_time \<le> request_time r \<and> request_time r \<le> T) rs"

end
