(* ===== verification/Queue_Frame.thy ===== *)
theory Queue_Frame
  imports Queue_Ops
begin

text \<open>
  The frame of the message store: the effect of the four insertion and deletion points on each
  table, what the validation stages establish, and each write operation as one equation over them.
\<close>

section \<open>What the insertion and deletion points change\<close>

text \<open>The insertion part of \<open>addAckWithinLocked\<close>, once its guards have passed.\<close>

definition storeAck :: "AckRecord \<Rightarrow> Store \<Rightarrow> Store" where
  "storeAck ack s =
     (let s = s\<lparr>acks := fmupd (ack_ID ack) ack (acks s)\<rparr>;
          s = s\<lparr>seq := seq s + 1\<rparr>;
          s = s\<lparr>ackSeq := fmupd (ack_ID ack) (seq s) (ackSeq s)\<rparr>;
          s = bindMessageTagLocked (ack_MessageID ack) (ack_RecipientTag ack) s
      in s\<lparr>acksByMessage := indexAddLocked (acksByMessage s) (ack_MessageID ack) (ack_ID ack)\<rparr>)"

lemma bindMessageTagLocked_frame:
  "bindMessageTagLocked m t s = s\<lparr>messageTags := messageTags (bindMessageTagLocked m t s)\<rparr>"
  by (simp add: bindMessageTagLocked_def Let_def)

lemma releaseMessageTagLocked_frame:
  "releaseMessageTagLocked m s = s\<lparr>messageTags := messageTags (releaseMessageTagLocked m s)\<rparr>"
  by (auto simp: releaseMessageTagLocked_def split: option.splits)

lemma bindMessageTagLocked_fields [frame_simps]:
  "messages (bindMessageTagLocked m t s) = messages s"
  "acks (bindMessageTagLocked m t s) = acks s"
  "purges (bindMessageTagLocked m t s) = purges s"
  "pairCounts (bindMessageTagLocked m t s) = pairCounts s"
  "credentialCounts (bindMessageTagLocked m t s) = credentialCounts s"
  "messageCredential (bindMessageTagLocked m t s) = messageCredential s"
  "seq (bindMessageTagLocked m t s) = seq s"
  "messageSeq (bindMessageTagLocked m t s) = messageSeq s"
  "ackSeq (bindMessageTagLocked m t s) = ackSeq s"
  "messagesByPurge (bindMessageTagLocked m t s) = messagesByPurge s"
  "acksByMessage (bindMessageTagLocked m t s) = acksByMessage s"
  by (subst bindMessageTagLocked_frame, simp)+

lemma releaseMessageTagLocked_fields [frame_simps]:
  "messages (releaseMessageTagLocked m s) = messages s"
  "acks (releaseMessageTagLocked m s) = acks s"
  "purges (releaseMessageTagLocked m s) = purges s"
  "pairCounts (releaseMessageTagLocked m s) = pairCounts s"
  "credentialCounts (releaseMessageTagLocked m s) = credentialCounts s"
  "messageCredential (releaseMessageTagLocked m s) = messageCredential s"
  "seq (releaseMessageTagLocked m s) = seq s"
  "messageSeq (releaseMessageTagLocked m s) = messageSeq s"
  "ackSeq (releaseMessageTagLocked m s) = ackSeq s"
  "messagesByPurge (releaseMessageTagLocked m s) = messagesByPurge s"
  "acksByMessage (releaseMessageTagLocked m s) = acksByMessage s"
  by (subst releaseMessageTagLocked_frame, simp)+

text \<open>The configuration of a store never changes; it is compared as one value.\<close>

definition caps :: "Store \<Rightarrow> int \<times> int \<times> int \<times> int \<times> int \<times> duration \<times> duration \<times> string" where
  "caps s = (maxMessages s, maxAcks s, maxPurges s, maxPerPair s, maxPayloadBytes s, maxTTL s,
             defaultTTL s, epoch s)"

lemma caps_eqD:
  assumes "caps s = caps t"
  shows "maxMessages s = maxMessages t" "maxAcks s = maxAcks t" "maxPurges s = maxPurges t"
    "maxPerPair s = maxPerPair t" "maxPayloadBytes s = maxPayloadBytes t" "maxTTL s = maxTTL t"
    "defaultTTL s = defaultTTL t" "epoch s = epoch t"
    "externalAckCapacity s = externalAckCapacity t"
  using assms by (simp_all add: caps_def externalAckCapacity_def)

lemma caps_update [simp]:
  "caps (s\<lparr>messages := m\<rparr>) = caps s" "caps (s\<lparr>acks := a\<rparr>) = caps s"
  "caps (s\<lparr>purges := p\<rparr>) = caps s" "caps (s\<lparr>pairCounts := pc\<rparr>) = caps s"
  "caps (s\<lparr>credentialCounts := cc\<rparr>) = caps s" "caps (s\<lparr>messageCredential := mc\<rparr>) = caps s"
  "caps (s\<lparr>seq := n\<rparr>) = caps s" "caps (s\<lparr>messageSeq := ms\<rparr>) = caps s"
  "caps (s\<lparr>ackSeq := as\<rparr>) = caps s" "caps (s\<lparr>messageTags := mt\<rparr>) = caps s"
  "caps (s\<lparr>messagesByPurge := mp\<rparr>) = caps s" "caps (s\<lparr>acksByMessage := am\<rparr>) = caps s"
  by (simp_all add: caps_def)

lemma caps_tags [frame_simps]:
  "caps (bindMessageTagLocked m t s) = caps s"
  "caps (releaseMessageTagLocked m s) = caps s"
  by (subst bindMessageTagLocked_frame, simp) (subst releaseMessageTagLocked_frame, simp)

text \<open>Field by field, the four points.\<close>

lemma storeAck_fields [frame_simps]:
  "messages (storeAck a s) = messages s"
  "acks (storeAck a s) = fmupd (ack_ID a) a (acks s)"
  "purges (storeAck a s) = purges s"
  "pairCounts (storeAck a s) = pairCounts s"
  "credentialCounts (storeAck a s) = credentialCounts s"
  "messageCredential (storeAck a s) = messageCredential s"
  "seq (storeAck a s) = seq s + 1"
  "messageSeq (storeAck a s) = messageSeq s"
  "ackSeq (storeAck a s) = fmupd (ack_ID a) (seq s + 1) (ackSeq s)"
  "messagesByPurge (storeAck a s) = messagesByPurge s"
  "acksByMessage (storeAck a s) = indexAddLocked (acksByMessage s) (ack_MessageID a) (ack_ID a)"
  "caps (storeAck a s) = caps s"
  by (simp_all add: storeAck_def Let_def frame_simps)

lemma addMessageLocked_fields [frame_simps]:
  "messages (addMessageLocked e c s) = fmupd (env_ID e) e (messages s)"
  "acks (addMessageLocked e c s) = acks s"
  "purges (addMessageLocked e c s) = purges s"
  "pairCounts (addMessageLocked e c s) = go_incr (pairCounts s) (env_pair e)"
  "credentialCounts (addMessageLocked e c s) =
     (if c = 0 then credentialCounts s else go_incr (credentialCounts s) c)"
  "messageCredential (addMessageLocked e c s) =
     (if c = 0 then messageCredential s else fmupd (env_ID e) c (messageCredential s))"
  "seq (addMessageLocked e c s) = seq s + 1"
  "messageSeq (addMessageLocked e c s) = fmupd (env_ID e) (seq s + 1) (messageSeq s)"
  "ackSeq (addMessageLocked e c s) = ackSeq s"
  "messagesByPurge (addMessageLocked e c s) =
     indexAddLocked (messagesByPurge s) (envelope_purgeHash e) (env_ID e)"
  "acksByMessage (addMessageLocked e c s) = acksByMessage s"
  "caps (addMessageLocked e c s) = caps s"
  by (simp_all add: addMessageLocked_def Let_def frame_simps)

lemma deleteMessageLocked_fields [frame_simps]:
  "messages (deleteMessageLocked k s) = fmdrop k (messages s)"
  "acks (deleteMessageLocked k s) = acks s"
  "purges (deleteMessageLocked k s) = purges s"
  "seq (deleteMessageLocked k s) = seq s"
  "ackSeq (deleteMessageLocked k s) = ackSeq s"
  "acksByMessage (deleteMessageLocked k s) = acksByMessage s"
  "caps (deleteMessageLocked k s) = caps s"
  by (auto simp: deleteMessageLocked_def Let_def frame_simps fmdrop_idle fmlookup_dom_iff split: option.splits)

lemma deleteMessageLocked_absent [simp]: "fmlookup (messages s) k = None \<Longrightarrow> deleteMessageLocked k s = s"
  by (simp add: deleteMessageLocked_def)

lemma deleteMessageLocked_held:
  assumes "fmlookup (messages s) k = Some e"
  shows "pairCounts (deleteMessageLocked k s) = countRelease (pairCounts s) (env_pair e)"
    "credentialCounts (deleteMessageLocked k s) =
       (case fmlookup (messageCredential s) k of
          None \<Rightarrow> credentialCounts s | Some c \<Rightarrow> countRelease (credentialCounts s) c)"
    "messageCredential (deleteMessageLocked k s) = fmdrop k (messageCredential s)"
    "messageSeq (deleteMessageLocked k s) = fmdrop k (messageSeq s)"
    "messagesByPurge (deleteMessageLocked k s) =
       indexRemoveLocked (messagesByPurge s) (envelope_purgeHash e) k"
    "messageTags (deleteMessageLocked k s) = messageTags (releaseMessageTagLocked k s)"
  using assms
  by (auto simp: deleteMessageLocked_def Let_def frame_simps releaseMessageTagLocked_def fmdrop_idle
      fmlookup_dom_iff split: option.splits)

lemma deleteAckLocked_fields [frame_simps]:
  "messages (deleteAckLocked k s) = messages s"
  "acks (deleteAckLocked k s) = fmdrop k (acks s)"
  "purges (deleteAckLocked k s) = purges s"
  "pairCounts (deleteAckLocked k s) = pairCounts s"
  "credentialCounts (deleteAckLocked k s) = credentialCounts s"
  "messageCredential (deleteAckLocked k s) = messageCredential s"
  "seq (deleteAckLocked k s) = seq s"
  "messageSeq (deleteAckLocked k s) = messageSeq s"
  "messagesByPurge (deleteAckLocked k s) = messagesByPurge s"
  "caps (deleteAckLocked k s) = caps s"
  by (auto simp: deleteAckLocked_def Let_def frame_simps fmdrop_idle fmlookup_dom_iff split: option.splits)

lemma deleteAckLocked_absent [simp]: "fmlookup (acks s) k = None \<Longrightarrow> deleteAckLocked k s = s"
  by (simp add: deleteAckLocked_def)

lemma deleteAckLocked_held:
  assumes "fmlookup (acks s) k = Some a"
  shows "ackSeq (deleteAckLocked k s) = fmdrop k (ackSeq s)"
    "acksByMessage (deleteAckLocked k s) = indexRemoveLocked (acksByMessage s) (ack_MessageID a) k"
    "messageTags (deleteAckLocked k s) = messageTags (releaseMessageTagLocked (ack_MessageID a) s)"
  using assms
  by (auto simp: deleteAckLocked_def Let_def frame_simps releaseMessageTagLocked_def split: option.splits)

lemma storePurgeLocked_frame:
  "storePurgeLocked p s = s\<lparr>purges := purges (storePurgeLocked p s)\<rparr>"
  by (simp add: storePurgeLocked_def)

lemma deletePurge_frame: "deletePurge h s = s\<lparr>purges := fmdrop h (purges s)\<rparr>"
  by (simp add: deletePurge_def)

lemma addAckWithinLocked_eq:
  "addAckWithinLocked a now cap s =
     (if fmlookup (acks s) (ack_ID a) \<noteq> None then (Some ErrDuplicate, s)
      else if go_len (acks s) \<ge> cap then (Some ErrQueueFull, s)
      else let a = (if IsZero (ack_ExpiresAt a) then a\<lparr>ack_ExpiresAt := now + defaultTTL s\<rparr> else a)
           in if \<not> After (ack_ExpiresAt a) now then (Some ErrExpired, s) else (None, storeAck a s))"
  unfolding addAckWithinLocked_def storeAck_def Let_def by (rule refl)

section \<open>What the validation stages establish\<close>

lemma lowerOf_le: "lowerOf box credential \<le> box"
  by (simp add: lowerOf_def)

lemma lowerOfDuration_le: "lowerOfDuration box credential \<le> box"
  by (simp add: lowerOfDuration_def)

definition envelope_ok :: "time \<Rightarrow> Store \<Rightarrow> MessageEnvelope \<Rightarrow> bool" where
  "envelope_ok now s e \<longleftrightarrow>
     env_ID e \<noteq> [] \<and> env_Sender e \<noteq> [] \<and> env_Recipient e \<noteq> [] \<and> env_EncryptedPayload e \<noteq> [] \<and>
     int (length (env_EncryptedPayload e)) \<le> maxPayloadBytes s \<and>
     now < env_ExpiresAt e \<and> env_ExpiresAt e \<le> now + maxTTL s"

definition record_ok :: "time \<Rightarrow> Store \<Rightarrow> AckRecord \<Rightarrow> bool" where
  "record_ok now s a \<longleftrightarrow>
     ack_ID a \<noteq> [] \<and> ack_MessageID a \<noteq> [] \<and> ack_Sender a \<noteq> [] \<and> ack_Recipient a \<noteq> [] \<and>
     validAckType (ack_Type a) \<and> now < ack_ExpiresAt a \<and> ack_ExpiresAt a \<le> now + maxTTL s"

lemma checkEnvelope_Inr: "checkEnvelope now grant s e = Inr e' \<Longrightarrow> envelope_ok now s e'"
  using lowerOfDuration_le [of "maxTTL s" "grant_Retention grant"]
  by (auto simp: checkEnvelope_def envelope_ok_def Let_def not_less split: if_splits)

lemma checkImportedEnvelope_Inr: "checkImportedEnvelope now s e = Inr e' \<Longrightarrow> envelope_ok now s e'"
  by (auto simp: checkImportedEnvelope_def envelope_ok_def Let_def not_less split: if_splits)

lemma checkAck_Inr: "checkAck now nodeID grant s a = Inr a' \<Longrightarrow> record_ok now s a'"
  using lowerOfDuration_le [of "maxTTL s" "grant_Retention grant"]
  by (auto simp: checkAck_def record_ok_def Let_def not_less split: if_splits)

lemma checkImportedAck_Inr: "checkImportedAck now s a = Inr a' \<Longrightarrow> record_ok now s a'"
  by (auto simp: checkImportedAck_def record_ok_def Let_def not_less split: if_splits)

text \<open>An envelope may enter a store that has room for it, does not hold its id and has no live tombstone for it.\<close>

definition insertable :: "time \<Rightarrow> Store \<Rightarrow> MessageEnvelope \<Rightarrow> bool" where
  "insertable now s e \<longleftrightarrow>
     envelope_ok now s e \<and> fmlookup (messages s) (env_ID e) = None \<and> \<not> purgedLocked now e s \<and>
     go_len (messages s) < maxMessages s"

lemma nodeReceivedAck_fields [simp]:
  "ack_ID (nodeReceivedAck e nid now) = env_ID e @ '':node_received''"
  "ack_MessageID (nodeReceivedAck e nid now) = env_ID e"
  "ack_Sender (nodeReceivedAck e nid now) = env_Sender e"
  "ack_Recipient (nodeReceivedAck e nid now) = env_Recipient e"
  "ack_Type (nodeReceivedAck e nid now) = AckNodeReceived"
  "ack_ExpiresAt (nodeReceivedAck e nid now) = env_ExpiresAt e"
  "ack_SenderTag (nodeReceivedAck e nid now) = env_SenderTag e"
  "ack_RecipientTag (nodeReceivedAck e nid now) = env_RecipientTag e"
  by (simp_all add: nodeReceivedAck_def)

text \<open>
  The three shapes of insertion. A post inserts the coupled ack and the envelope together; the
  other two insert one record each. The clock never reads an instant before the zero time.
\<close>

lemma addAckLocked_node:
  assumes "envelope_ok now s e" and "0 \<le> now"
  shows "addAckLocked (nodeReceivedAck e nid now) now s =
     (if fmlookup (acks s) (env_ID e @ '':node_received'') \<noteq> None then (Some ErrDuplicate, s)
      else if maxAcks s \<le> go_len (acks s) then (Some ErrQueueFull, s)
      else (None, storeAck (nodeReceivedAck e nid now) s))"
  using assms by (simp add: addAckLocked_def addAckWithinLocked_eq envelope_ok_def Let_def)

lemma addExternalAckLocked_ok:
  assumes "record_ok now s a" and "0 \<le> now"
  shows "addExternalAckLocked a now s =
     (if fmlookup (acks s) (ack_ID a) \<noteq> None then (Some ErrDuplicate, s)
      else if externalAckCapacity s \<le> go_len (acks s) then (Some ErrQueueFull, s)
      else (None, storeAck a s))"
  using assms by (simp add: addExternalAckLocked_def addAckWithinLocked_eq record_ok_def Let_def)

lemma AddMessageWithGrant_Inr:
  assumes "checkEnvelope now g s e = Inr e'" and "0 \<le> now"
  shows "AddMessageWithGrant now e nid g s =
     (if fmlookup (messages s) (env_ID e') \<noteq> None then (nodeReceivedAck e' nid now, Some ErrDuplicate, s)
      else if purgedLocked now e' s then (zero_AckRecord, Some ErrDuplicate, s)
      else if lowerOf (maxPerPair s) (grant_MaxPerPair g) \<le> go_int (pairCounts s) (env_pair e')
      then (zero_AckRecord, Some ErrPairQuotaFull, s)
      else if grant_Credential g \<noteq> 0 \<and>
              lowerOf (maxMessages s) (grant_Slots g) \<le> go_int (credentialCounts s) (grant_Credential g)
      then (zero_AckRecord, Some ErrSlotsFull, s)
      else if maxMessages s \<le> go_len (messages s) then (zero_AckRecord, Some ErrQueueFull, s)
      else if fmlookup (acks s) (env_ID e' @ '':node_received'') \<noteq> None
      then (zero_AckRecord, Some ErrDuplicate, s)
      else if maxAcks s \<le> go_len (acks s) then (zero_AckRecord, Some ErrQueueFull, s)
      else (nodeReceivedAck e' nid now, None,
            addMessageLocked e' (grant_Credential g) (storeAck (nodeReceivedAck e' nid now) s)))"
  unfolding AddMessageWithGrant_def assms(1) sum.case Let_def
    addAckLocked_node [OF checkEnvelope_Inr [OF assms(1)] assms(2)]
  by simp

lemma AddMessageWithGrant_refused:
  assumes "0 \<le> now" and "AddMessageWithGrant now e nid g s = (r, Some err, s')"
  shows "s' = s"
proof (cases "checkEnvelope now g s e")
  case (Inl err)
  with assms(2) show ?thesis by (simp add: AddMessageWithGrant_def)
next
  case (Inr e')
  from assms(2) show ?thesis
    by (auto simp: AddMessageWithGrant_Inr [OF Inr assms(1)] split: if_splits)
qed

lemma AddMessageWithGrant_stored:
  assumes "0 \<le> now" and "AddMessageWithGrant now e nid g s = (r, None, s')"
  obtains e' where "checkEnvelope now g s e = Inr e'" "insertable now s e'"
    "go_int (pairCounts s) (env_pair e') < lowerOf (maxPerPair s) (grant_MaxPerPair g)"
    "grant_Credential g = 0 \<or>
       go_int (credentialCounts s) (grant_Credential g) < lowerOf (maxMessages s) (grant_Slots g)"
    "fmlookup (acks s) (env_ID e' @ '':node_received'') = None" "go_len (acks s) < maxAcks s"
    "r = nodeReceivedAck e' nid now"
    "s' = addMessageLocked e' (grant_Credential g) (storeAck (nodeReceivedAck e' nid now) s)"
proof (cases "checkEnvelope now g s e")
  case (Inl err)
  with assms(2) show ?thesis by (simp add: AddMessageWithGrant_def)
next
  case (Inr e')
  have "insertable now s e' \<and>
      go_int (pairCounts s) (env_pair e') < lowerOf (maxPerPair s) (grant_MaxPerPair g) \<and>
      (grant_Credential g = 0 \<or>
         go_int (credentialCounts s) (grant_Credential g) < lowerOf (maxMessages s) (grant_Slots g)) \<and>
      fmlookup (acks s) (env_ID e' @ '':node_received'') = None \<and> go_len (acks s) < maxAcks s \<and>
      r = nodeReceivedAck e' nid now \<and>
      s' = addMessageLocked e' (grant_Credential g) (storeAck (nodeReceivedAck e' nid now) s)"
    using assms(2) checkEnvelope_Inr [OF Inr]
    unfolding AddMessageWithGrant_Inr [OF Inr assms(1)] insertable_def
    by (auto simp: not_le split: if_splits)
  then show ?thesis by (elim conjE) (rule that [OF Inr])
qed

text \<open>A caller-posted ack: refused, or stored and then acted on.\<close>

definition landAck :: "AckRecord \<Rightarrow> Store \<Rightarrow> Store" where
  "landAck a s =
     (if deletesQueuedMessage (ack_Type a) then deleteMessageLocked (ack_MessageID a) (storeAck a s)
      else storeAck a s)"

text \<open>The tag a caller-posted ack is stored with: what the store holds for the message.\<close>

definition bound_tag :: "string \<Rightarrow> Store \<Rightarrow> string" where
  "bound_tag m s = (case recipientTagForMessageLocked m s of None \<Rightarrow> [] | Some t \<Rightarrow> t)"

lemma AddAckWithGrant_Inr:
  assumes "checkAck now nid g s a = Inr a'" and "0 \<le> now"
  shows "AddAckWithGrant now a nid g auth s =
     (if \<exists>t. recipientTagForMessageLocked (ack_MessageID a') s = Some t \<and> \<not> permits auth t
      then (Some ErrNotOwned, s)
      else if fmlookup (acks s) (ack_ID a') \<noteq> None then (Some ErrDuplicate, s)
      else if externalAckCapacity s \<le> go_len (acks s) then (Some ErrQueueFull, s)
      else (None, landAck (a'\<lparr>ack_RecipientTag := bound_tag (ack_MessageID a') s\<rparr>) s))"
proof -
  have "record_ok now s (a'\<lparr>ack_RecipientTag := t\<rparr>)" for t
    using checkAck_Inr [OF assms(1)] by (simp add: record_ok_def)
  from addExternalAckLocked_ok [OF this assms(2)] show ?thesis
    by (auto simp: AddAckWithGrant_def assms(1) Let_def landAck_def bound_tag_def split: option.splits)
qed

lemma importAckLocked_Inr:
  assumes "checkImportedAck now s a = Inr a'" and "0 \<le> now"
  shows "importAckLocked a now s =
     (if fmlookup (acks s) (ack_ID a') \<noteq> None then (Some ErrDuplicate, s)
      else if externalAckCapacity s \<le> go_len (acks s) then (Some ErrQueueFull, s)
      else (None, landAck a' s))"
  by (simp add: importAckLocked_def assms(1) landAck_def
      addExternalAckLocked_ok [OF checkImportedAck_Inr [OF assms(1)] assms(2)])

end
