(* ===== verification/Queue_Inv.thy ===== *)
theory Queue_Inv
  imports Queue_Frame
begin

text \<open>
  Invariants of the message store. An invariant is a predicate that the elementary moves of the
  store keep; the interface \<open>store_invariant\<close> lists the moves, and its lemmas carry such a predicate
  through every operation and every history. The bookkeeping invariant (counters, indexes, tag
  bindings and cursor maps agree with the two record tables) is its first instance.
\<close>

section \<open>The interface\<close>

text \<open>
  The predicate may depend on the number of insertions made so far and on a bound \<open>T\<close> on the
  instants read from the clock. A purge is one move, because an owner's tombstone and the removal
  of the owner's records belong together.
\<close>

locale store_invariant = range_order rng for rng :: "string fset \<Rightarrow> string list" +
  fixes T :: time
    and P :: "nat \<Rightarrow> Store \<Rightarrow> bool"
  assumes more: "P n s \<Longrightarrow> n \<le> m \<Longrightarrow> P m s"
    and post: "P n s \<Longrightarrow> insertable now s e \<Longrightarrow> now \<le> T \<Longrightarrow>
      fmlookup (acks s) (env_ID e @ '':node_received'') = None \<Longrightarrow> go_len (acks s) < maxAcks s \<Longrightarrow>
      P (n + 2) (addMessageLocked e c (storeAck (nodeReceivedAck e nid now) s))"
    and imported: "P n s \<Longrightarrow> insertable now s e \<Longrightarrow> now \<le> T \<Longrightarrow> \<not> hasTerminalAckLocked (env_ID e) s \<Longrightarrow>
      P (n + 1) (addMessageLocked e 0 s)"
    and landed: "P n s \<Longrightarrow> record_ok now s a \<Longrightarrow> now \<le> T \<Longrightarrow> fmlookup (acks s) (ack_ID a) = None \<Longrightarrow>
      go_len (acks s) < externalAckCapacity s \<Longrightarrow> P (n + 1) (landAck a s)"
    and message_expired: "P n s \<Longrightarrow> fmlookup (messages s) k = Some e \<Longrightarrow> env_ExpiresAt e \<le> T \<Longrightarrow>
      P n (deleteMessageLocked k s)"
    and ack_expired: "P n s \<Longrightarrow> fmlookup (acks s) k = Some a \<Longrightarrow> ack_ExpiresAt a \<le> T \<Longrightarrow>
      P n (deleteAckLocked k s)"
    and purge_expired: "P n s \<Longrightarrow> P n (deletePurge h s)"
    and purged: "P n s \<Longrightarrow> P n (snd (snd (purgeOwnerLocked rng (purge_PurgeHash p) (storePurgeLocked p s))))"
begin

lemma keeps_post:
  assumes "P n s" "0 \<le> now" "now \<le> T"
  shows "P (n + 2) (snd (snd (AddMessageWithGrant now e nid g s)))"
proof (cases "AddMessageWithGrant now e nid g s")
  case (fields r err s')
  show ?thesis
  proof (cases err)
    case None
    from assms(2) fields [unfolded None] obtain e' where "insertable now s e'"
      and "fmlookup (acks s) (env_ID e' @ '':node_received'') = None" and "go_len (acks s) < maxAcks s"
      and "s' = addMessageLocked e' (grant_Credential g) (storeAck (nodeReceivedAck e' nid now) s)"
      by (rule AddMessageWithGrant_stored)
    then show ?thesis using post [OF assms(1) _ assms(3)] fields by simp
  next
    case Some
    with AddMessageWithGrant_refused [OF assms(2)] fields have "s' = s" by blast
    with more [OF assms(1), of "n + 2"] fields show ?thesis by simp
  qed
qed

lemma keeps_ack:
  assumes "P n s" "0 \<le> now" "now \<le> T"
  shows "P (n + 1) (snd (AddAckWithGrant now a nid g auth s))"
proof (cases "checkAck now nid g s a")
  case (Inl err)
  with more [OF assms(1), of "n + 1"] show ?thesis by (simp add: AddAckWithGrant_def)
next
  case (Inr a')
  then have "record_ok now s (a'\<lparr>ack_RecipientTag := t\<rparr>)" for t
    using checkAck_Inr [OF Inr] by (simp add: record_ok_def)
  from landed [OF assms(1) this assms(3)] more [OF assms(1), of "n + 1"] show ?thesis
    by (simp add: AddAckWithGrant_Inr [OF Inr assms(2)] not_le)
qed

lemma keeps_import_ack:
  assumes "P n s" "0 \<le> now" "now \<le> T"
  shows "P (n + 1) (snd (importAckLocked a now s))"
proof (cases "checkImportedAck now s a")
  case (Inl err)
  with more [OF assms(1), of "n + 1"] show ?thesis by (simp add: importAckLocked_def)
next
  case (Inr a')
  from landed [OF assms(1) checkImportedAck_Inr [OF Inr] assms(3)] more [OF assms(1), of "n + 1"]
  show ?thesis by (simp add: importAckLocked_Inr [OF Inr assms(2)] not_le)
qed

lemma keeps_import_message:
  assumes "P n s" "now \<le> T"
  shows "P (n + 1) (snd (importMessageLocked e now s))"
  using imported [OF assms(1) _ assms(2)] more [OF assms(1), of "n + 1"]
  by (auto simp: importMessageLocked_def insertable_def not_le checkImportedEnvelope_Inr
      split: sum.splits)

lemma keeps_import:
  assumes "P n s" "0 \<le> now" "now \<le> T"
  shows "P (n + length (sync_Messages p) + length (sync_Acks p)) (snd (ImportSnapshot rng now p s))"
proof -
  have purges: "P n (snd (fold (importPurgeStep rng now) ps rs))" if "P n (snd rs)" for ps rs
    using that
    by (induction ps arbitrary: rs) (auto simp: importPurgeStep_def purged split: prod.splits)
  have messages: "P (n + length es) (snd (fold (importMessageStep now) es rs))" if "P n (snd rs)" for n es rs
    using that
  proof (induction es arbitrary: n rs)
    case (Cons e es)
    have "P (n + 1) (snd (importMessageStep now e rs))"
      using keeps_import_message [OF Cons.prems assms(3), of e]
      by (auto simp: importMessageStep_def split: prod.splits option.splits)
    from Cons.IH [OF this] show ?case by simp
  qed simp
  have acks: "P (n + length as) (snd (fold (importAckStep now) as rs))" if "P n (snd rs)" for n as rs
    using that
  proof (induction as arbitrary: n rs)
    case (Cons a as)
    have "P (n + 1) (snd (importAckStep now a rs))"
      using keeps_import_ack [OF Cons.prems assms(2,3), of a]
      by (auto simp: importAckStep_def split: prod.splits option.splits)
    from Cons.IH [OF this] show ?case by simp
  qed simp
  show ?thesis
    unfolding ImportSnapshot_def Let_def by (intro acks messages purges) (simp add: assms(1))
qed

lemma message_expired_at:
  "P n s \<Longrightarrow> now \<le> T \<Longrightarrow> fmlookup (messages s) k = Some e \<Longrightarrow> \<not> now < env_ExpiresAt e \<Longrightarrow>
   P n (deleteMessageLocked k s)"
  by (rule message_expired) auto

lemma ack_expired_at:
  "P n s \<Longrightarrow> now \<le> T \<Longrightarrow> fmlookup (acks s) k = Some a \<Longrightarrow> \<not> now < ack_ExpiresAt a \<Longrightarrow>
   P n (deleteAckLocked k s)"
  by (rule ack_expired) auto

lemma keeps_expire:
  assumes "P n s" "now \<le> T"
  shows "P n (expireLocked rng now s)"
  unfolding expireLocked_def
  by (intro sweep_invariant [where P = "P n"])
     (use assms in \<open>auto simp: message_dead_def ack_dead_def purge_expired
        intro: message_expired_at ack_expired_at\<close>)

lemma keeps_get_messages:
  assumes "P n s" "now \<le> T"
  shows "P n (snd (MessagesForRecipient rng now r limit auth s))"
proof -
  have "P n (snd (fold (messagesLoop now r auth) ks os))" if "P n (snd os)" for r ks os
    by (rule fold_invariant [where P = "\<lambda>os. P n (snd os)"])
       (use that assms(2) in \<open>auto simp: messagesLoop_def intro: message_expired_at split: option.splits\<close>)
  then have "P n (snd (fold (messagesLoop now (TrimSpace r) auth) (rng (fmdom (messages s))) ([], s)))"
    using assms(1) by simp
  then show ?thesis
    using assms(1) by (auto simp only: MessagesForRecipient_def Let_def snd_conv split: prod.splits if_splits)
qed

lemma keeps_get_acks:
  assumes "P n s" "now \<le> T"
  shows "P n (snd (AcksForSender rng now r limit auth s))"
proof -
  have "P n (snd (fold (acksLoop now r auth) ks os))" if "P n (snd os)" for r ks os
    by (rule fold_invariant [where P = "\<lambda>os. P n (snd os)"])
       (use that assms(2) in \<open>auto simp: acksLoop_def intro: ack_expired_at split: option.splits\<close>)
  then have "P n (snd (fold (acksLoop now (TrimSpace r) auth) (rng (fmdom (acks s))) ([], s)))"
    using assms(1) by simp
  then show ?thesis
    using assms(1) by (auto simp only: AcksForSender_def Let_def snd_conv split: prod.splits if_splits)
qed

lemma keeps_purge: "P n s \<Longrightarrow> P n (snd (snd (PurgeOwner rng now h s)))"
  using purged [of n s "\<lparr>purge_PurgeHash = TrimSpace h, purge_ExpiresAt = now + defaultTTL s\<rparr>"]
  by (simp add: PurgeOwner_def Let_def)

lemma keeps_step:
  assumes "P n s" "0 \<le> request_time r" "request_time r \<le> T"
  shows "P (n + request_weight r) (store_step rng r s)"
proof (cases r)
  case (Import now p)
  with keeps_import [OF assms(1), of now p] assms show ?thesis by (simp add: add.assoc)
qed (use assms in \<open>simp_all add: keeps_post [simplified] keeps_ack [simplified] keeps_expire keeps_get_messages
       keeps_get_acks keeps_purge PruneExpired_def SnapshotSince_def Let_def\<close>)

lemma keeps_run:
  assumes "P n s" "clocked T rs"
  shows "P (n + sum_list (map request_weight rs)) (store_run rng rs s)"
  using assms
proof (induction rs arbitrary: n s)
  case (Cons r rs)
  from Cons.prems have "P (n + request_weight r) (store_step rng r s)"
    by (intro keeps_step) (simp_all add: clocked_def)
  from Cons.IH [OF this] Cons.prems show ?case by (simp add: clocked_def add.assoc)
qed simp

end

text \<open>
  A predicate that each insertion and deletion point keeps on its own keeps all the moves.
\<close>

locale point_invariant = range_order rng for rng :: "string fset \<Rightarrow> string list" +
  fixes T :: time
    and P :: "nat \<Rightarrow> Store \<Rightarrow> bool"
  assumes point_more: "P n s \<Longrightarrow> n \<le> m \<Longrightarrow> P m s"
    and point_message: "P n s \<Longrightarrow> insertable now s e \<Longrightarrow> now \<le> T \<Longrightarrow> P (n + 1) (addMessageLocked e c s)"
    and point_ack: "P n s \<Longrightarrow> record_ok now s a \<Longrightarrow> now \<le> T \<Longrightarrow> fmlookup (acks s) (ack_ID a) = None \<Longrightarrow>
      go_len (acks s) < maxAcks s \<Longrightarrow> P (n + 1) (storeAck a s)"
    and point_delete_message: "P n s \<Longrightarrow> fmlookup (messages s) k = Some e \<Longrightarrow> P n (deleteMessageLocked k s)"
    and point_delete_ack: "P n s \<Longrightarrow> fmlookup (acks s) k = Some a \<Longrightarrow> P n (deleteAckLocked k s)"
    and point_purges: "P n s \<Longrightarrow> go_len pm \<le> go_len (purges s) \<or> go_len pm \<le> maxPurges s \<Longrightarrow>
      P n (s\<lparr>purges := pm\<rparr>)"
    and point_caps: "P n s \<Longrightarrow> 0 \<le> maxMessages s"
begin

lemma point_delete_message': "P n s \<Longrightarrow> P n (deleteMessageLocked k s)"
  by (cases "fmlookup (messages s) k") (simp_all add: point_delete_message)

lemma point_delete_ack': "P n s \<Longrightarrow> P n (deleteAckLocked k s)"
  by (cases "fmlookup (acks s) k") (simp_all add: point_delete_ack)

lemma point_storePurge: "P n s \<Longrightarrow> P n (storePurgeLocked p s)"
  by (auto simp: storePurgeLocked_def go_len_upd intro!: point_purges split: if_splits)

lemma point_purgeMessage:
  "P n (snd (snd x)) \<Longrightarrow> P n (snd (snd (purgeMessageLocked rng k x)))"
  by (auto simp: purgeMessageLocked_def Let_def
      intro!: fold_invariant [where P = "P n"] point_delete_ack' point_delete_message' split: prod.splits)

lemma point_purgeOwner: "P n s \<Longrightarrow> P n (snd (snd (purgeOwnerLocked rng h s)))"
  by (auto simp: purgeOwnerLocked_def Let_def point_purgeMessage
      intro!: fold_invariant [where P = "\<lambda>x. P n (snd (snd x))"])

end

sublocale point_invariant \<subseteq> store_invariant rng T P
proof unfold_locales
  show "P m s" if "P n s" "n \<le> m" for n m s using that by (rule point_more)
  show "P (n + 2) (addMessageLocked e c (storeAck (nodeReceivedAck e nid now) s))"
    if "P n s" "insertable now s e" "now \<le> T" "fmlookup (acks s) (env_ID e @ '':node_received'') = None"
      "go_len (acks s) < maxAcks s" for n s now e c nid
  proof -
    have "record_ok now s (nodeReceivedAck e nid now)"
      using that(2) by (simp add: insertable_def envelope_ok_def record_ok_def validAckType_def)
    then have "P (n + 1) (storeAck (nodeReceivedAck e nid now) s)"
      using that by (intro point_ack) simp_all
    from point_message [OF this _ that(3), of e c] that(2) show ?thesis
      by (simp add: insertable_def envelope_ok_def purgedLocked_def frame_simps
          caps_eqD [OF storeAck_fields(12)])
  qed
  show "P (n + 1) (addMessageLocked e 0 s)" if "P n s" "insertable now s e" "now \<le> T" for n s now e
    using that by (rule point_message)
  show "P (n + 1) (landAck a s)"
    if "P n s" "record_ok now s a" "now \<le> T" "fmlookup (acks s) (ack_ID a) = None"
      "go_len (acks s) < externalAckCapacity s" for n s now a
  proof -
    have "P (n + 1) (storeAck a s)"
      using that point_caps [OF that(1)] by (intro point_ack) (simp_all add: externalAckCapacity_def)
    then show ?thesis using point_delete_message' [of "n + 1"] by (simp add: landAck_def)
  qed
  show "P n (deletePurge h s)" if "P n s" for n s h
    using that by (simp add: deletePurge_def point_purges go_len_drop)
qed (simp_all add: point_delete_message point_delete_ack point_purgeOwner point_storePurge)

end
