(* ===== verification/Queue_Wf.thy ===== *)
theory Queue_Wf
  imports Queue_Inv
begin

text \<open>
  The bookkeeping invariant of the message store: every derived map agrees with the message and
  ack tables, and every table stays within its cap.
\<close>

section \<open>The invariant\<close>

definition keys_ok :: "Store \<Rightarrow> bool" where
  "keys_ok s \<longleftrightarrow>
     (\<forall>k e. fmlookup (messages s) k = Some e \<longrightarrow>
        env_ID e = k \<and> k \<noteq> [] \<and> env_Sender e \<noteq> [] \<and> env_Recipient e \<noteq> [] \<and> env_EncryptedPayload e \<noteq> [] \<and>
        int (length (env_EncryptedPayload e)) \<le> maxPayloadBytes s) \<and>
     (\<forall>k a. fmlookup (acks s) k = Some a \<longrightarrow>
        ack_ID a = k \<and> k \<noteq> [] \<and> ack_MessageID a \<noteq> [] \<and> validAckType (ack_Type a))"

definition seqs_ok :: "Store \<Rightarrow> bool" where
  "seqs_ok s \<longleftrightarrow> fmdom (messageSeq s) = fmdom (messages s) \<and> fmdom (ackSeq s) = fmdom (acks s)"

text \<open>The slots charged to a credential are the held messages it posted.\<close>

definition credentials_ok :: "Store \<Rightarrow> bool" where
  "credentials_ok s \<longleftrightarrow>
     agrees (\<lambda>c. c) (messageCredential s) (credentialCounts s) \<and>
     fmdom (messageCredential s) |\<subseteq>| fmdom (messages s) \<and>
     fmlookup (credentialCounts s) 0 = None"

text \<open>A binding exists exactly while some record names the message, and counts those records.\<close>

definition record_count :: "string \<Rightarrow> Store \<Rightarrow> nat" where
  "record_count m s =
     (if fmlookup (messages s) m = None then 0 else 1) + count_with ack_MessageID (acks s) m"

definition tags_ok :: "Store \<Rightarrow> bool" where
  "tags_ok s \<longleftrightarrow>
     (\<forall>m. map_option bind_records (fmlookup (messageTags s) m) =
        (if record_count m s = 0 then None else Some (int (record_count m s))))"

definition sizes_ok :: "Store \<Rightarrow> bool" where
  "sizes_ok s \<longleftrightarrow> go_len (messages s) \<le> maxMessages s \<and> go_len (acks s) \<le> maxAcks s \<and>
     go_len (purges s) \<le> maxPurges s"

definition store_wf :: "Store \<Rightarrow> bool" where
  "store_wf s \<longleftrightarrow> keys_ok s \<and> seqs_ok s \<and> sizes_ok s \<and> tags_ok s \<and> credentials_ok s \<and>
     agrees env_pair (messages s) (pairCounts s) \<and>
     indexes envelope_purgeHash (messages s) (messagesByPurge s) \<and>
     indexes ack_MessageID (acks s) (acksByMessage s)"

section \<open>Each point keeps it\<close>

lemma messageTags_bind:
  "m \<noteq> [] \<Longrightarrow> map_option bind_records (fmlookup (messageTags (bindMessageTagLocked m t s)) x) =
     (if x = m then Some (1 + (case fmlookup (messageTags s) m of None \<Rightarrow> 0 | Some b \<Rightarrow> bind_records b))
      else map_option bind_records (fmlookup (messageTags s) x))"
  by (auto simp: bindMessageTagLocked_def Let_def split: option.splits)

lemma messageTags_release:
  "map_option bind_records (fmlookup (messageTags (releaseMessageTagLocked m s)) x) =
     (if x = m then (case fmlookup (messageTags s) m of
                       None \<Rightarrow> None
                     | Some b \<Rightarrow> if bind_records b \<le> 1 then None else Some (bind_records b - 1))
      else map_option bind_records (fmlookup (messageTags s) x))"
  by (auto simp: releaseMessageTagLocked_def split: option.splits)

text \<open>Binding counts one more record of a message and releasing one less, whatever the record was.\<close>

lemma tags_ok_bind:
  assumes "tags_ok s" "m \<noteq> []" "messageTags s' = messageTags (bindMessageTagLocked m t s)"
    and "\<And>x. record_count x s' = record_count x s + (if x = m then 1 else 0)"
  shows "tags_ok s'"
  unfolding tags_ok_def
proof
  fix x
  have "map_option bind_records (fmlookup (messageTags s) m) =
          (if record_count m s = 0 then None else Some (int (record_count m s)))"
    "map_option bind_records (fmlookup (messageTags s) x) =
          (if record_count x s = 0 then None else Some (int (record_count x s)))"
    using assms(1) by (simp_all add: tags_ok_def)
  then show "map_option bind_records (fmlookup (messageTags s') x) =
          (if record_count x s' = 0 then None else Some (int (record_count x s')))"
    unfolding assms(3) messageTags_bind [OF assms(2)] assms(4)
    by (auto split: option.splits if_splits)
qed

lemma tags_ok_release:
  assumes "tags_ok s" "messageTags s' = messageTags (releaseMessageTagLocked m s)"
    and "\<And>x. record_count x s = record_count x s' + (if x = m then 1 else 0)"
  shows "tags_ok s'"
  unfolding tags_ok_def
proof
  fix x
  have "map_option bind_records (fmlookup (messageTags s) m) =
          (if record_count m s = 0 then None else Some (int (record_count m s)))"
    "map_option bind_records (fmlookup (messageTags s) x) =
          (if record_count x s = 0 then None else Some (int (record_count x s)))"
    using assms(1) by (simp_all add: tags_ok_def)
  then show "map_option bind_records (fmlookup (messageTags s') x) =
          (if record_count x s' = 0 then None else Some (int (record_count x s')))"
    unfolding assms(2) messageTags_release using assms(3)
    by (auto split: option.splits if_splits)
qed

lemma messageTags_addMessageLocked:
  "messageTags (addMessageLocked e c s) = messageTags (bindMessageTagLocked (env_ID e) (env_RecipientTag e) s)"
  by (simp add: addMessageLocked_def Let_def bindMessageTagLocked_def)

lemma messageTags_storeAck:
  "messageTags (storeAck a s) = messageTags (bindMessageTagLocked (ack_MessageID a) (ack_RecipientTag a) s)"
  by (simp add: storeAck_def Let_def bindMessageTagLocked_def)

lemma store_wf_addMessageLocked:
  assumes wf: "store_wf s" and e: "insertable now s e"
  shows "store_wf (addMessageLocked e c s)"
proof -
  have fresh: "fmlookup (messages s) (env_ID e) = None" and ne: "env_ID e \<noteq> []"
    using e by (simp_all add: insertable_def envelope_ok_def)
  have "tags_ok (addMessageLocked e c s)"
    using wf fresh
    by (intro tags_ok_bind [OF _ ne messageTags_addMessageLocked])
       (auto simp: store_wf_def record_count_def frame_simps)
  moreover have "credentials_ok (addMessageLocked e c s)"
  proof -
    have cred: "agrees (\<lambda>c. c) (messageCredential s) (credentialCounts s)"
      "fmdom (messageCredential s) |\<subseteq>| fmdom (messages s)" "fmlookup (credentialCounts s) 0 = None"
      using wf by (auto simp: store_wf_def credentials_ok_def)
    from cred(2) fresh have "fmlookup (messageCredential s) (env_ID e) = None"
      by (metis fmdom_notD fmdom_notI fsubsetD)
    from credential_counter.agrees_add [OF cred(1) this, of c] cred show ?thesis
      by (auto simp: credentials_ok_def frame_simps go_incr_def)
  qed
  moreover have "agrees env_pair (fmupd (env_ID e) e (messages s)) (go_incr (pairCounts s) (env_pair e))"
    "indexes envelope_purgeHash (fmupd (env_ID e) e (messages s))
       (indexAddLocked (messagesByPurge s) (envelope_purgeHash e) (env_ID e))"
    using wf fresh ne
    by (auto simp: store_wf_def intro: pair_counter.agrees_add record_index.indexes_add)
  ultimately show ?thesis
    using wf e
    by (auto simp: store_wf_def keys_ok_def seqs_ok_def sizes_ok_def frame_simps gomap_simps
        insertable_def envelope_ok_def caps_eqD [OF addMessageLocked_fields(12)] split: if_splits)
qed

lemma store_wf_storeAck:
  assumes wf: "store_wf s" and a: "record_ok now s a" and fresh: "fmlookup (acks s) (ack_ID a) = None"
    and "go_len (acks s) < maxAcks s"
  shows "store_wf (storeAck a s)"
proof -
  have ne: "ack_MessageID a \<noteq> []" "ack_ID a \<noteq> []" using a by (simp_all add: record_ok_def)
  have "tags_ok (storeAck a s)"
    using wf
    by (intro tags_ok_bind [OF _ ne(1) messageTags_storeAck])
       (auto simp: store_wf_def record_count_def frame_simps count_with_upd_fresh [OF fresh])
  moreover have "indexes ack_MessageID (fmupd (ack_ID a) a (acks s))
       (indexAddLocked (acksByMessage s) (ack_MessageID a) (ack_ID a))"
    using wf fresh ne(2) by (auto simp: store_wf_def intro: record_index.indexes_add)
  ultimately show ?thesis
    using wf a assms(4)
    by (auto simp: store_wf_def keys_ok_def seqs_ok_def sizes_ok_def credentials_ok_def frame_simps
        gomap_simps record_ok_def caps_eqD [OF storeAck_fields(12)] split: if_splits)
qed

lemma store_wf_deleteMessageLocked:
  assumes wf: "store_wf s" and held: "fmlookup (messages s) k = Some e"
  shows "store_wf (deleteMessageLocked k s)"
proof -
  note del = deleteMessageLocked_held [OF held]
  have "tags_ok (deleteMessageLocked k s)"
    using wf held
    by (intro tags_ok_release [OF _ del(6)]) (auto simp: store_wf_def record_count_def frame_simps)
  moreover have "credentials_ok (deleteMessageLocked k s)"
  proof -
    have cred: "agrees (\<lambda>c. c) (messageCredential s) (credentialCounts s)"
      "fmdom (messageCredential s) |\<subseteq>| fmdom (messages s)" "fmlookup (credentialCounts s) 0 = None"
      using wf by (auto simp: store_wf_def credentials_ok_def)
    show ?thesis
    proof (cases "fmlookup (messageCredential s) k")
      case None
      then have "fmdrop k (messageCredential s) = messageCredential s"
        by (simp add: fmdrop_idle fmdom_notI)
      with None cred show ?thesis
        unfolding credentials_ok_def del frame_simps by auto
    next
      case (Some c)
      from credential_counter.agrees_drop [OF cred(1) Some] cred(2,3) Some show ?thesis
        unfolding credentials_ok_def del frame_simps
        by (auto simp: countRelease_def go_int_def)
    qed
  qed
  moreover have "agrees env_pair (fmdrop k (messages s)) (countRelease (pairCounts s) (env_pair e))"
    "indexes envelope_purgeHash (fmdrop k (messages s))
       (indexRemoveLocked (messagesByPurge s) (envelope_purgeHash e) k)"
    using wf held
    by (auto simp: store_wf_def intro: pair_counter.agrees_drop record_index.indexes_remove)
  ultimately show ?thesis
    using wf
    by (auto simp: store_wf_def keys_ok_def seqs_ok_def sizes_ok_def frame_simps gomap_simps del
        caps_eqD [OF deleteMessageLocked_fields(7)])
qed

lemma store_wf_deleteAckLocked:
  assumes wf: "store_wf s" and held: "fmlookup (acks s) k = Some a"
  shows "store_wf (deleteAckLocked k s)"
proof -
  note del = deleteAckLocked_held [OF held]
  have pos: "0 < count_with ack_MessageID (acks s) (ack_MessageID a)"
    by (rule count_with_pos [OF held refl])
  have "tags_ok (deleteAckLocked k s)"
    using wf pos
    by (intro tags_ok_release [OF _ del(3)])
       (auto simp: store_wf_def record_count_def frame_simps count_with_drop [OF held])
  moreover have "indexes ack_MessageID (fmdrop k (acks s))
       (indexRemoveLocked (acksByMessage s) (ack_MessageID a) k)"
    using wf held by (auto simp: store_wf_def intro: record_index.indexes_remove)
  ultimately show ?thesis
    using wf
    by (auto simp: store_wf_def keys_ok_def seqs_ok_def sizes_ok_def credentials_ok_def frame_simps
        gomap_simps del caps_eqD [OF deleteAckLocked_fields(10)])
qed

lemma store_wf_purges:
  assumes "store_wf s" "go_len m \<le> go_len (purges s) \<or> go_len m \<le> maxPurges s"
  shows "store_wf (s\<lparr>purges := m\<rparr>)"
  using assms
  by (auto simp: store_wf_def keys_ok_def seqs_ok_def sizes_ok_def credentials_ok_def tags_ok_def
      record_count_def)

lemma store_wf_caps: "store_wf s \<Longrightarrow> 0 \<le> maxMessages s"
  using go_len_nonneg [of "messages s"] unfolding store_wf_def sizes_ok_def by linarith

section \<open>Every history keeps it\<close>

text \<open>The store under any order of ranging over a map keyed by strings.\<close>

locale store_order = range_order rng for rng :: "string fset \<Rightarrow> string list"

interpretation sorted_store: store_order sorted_list_of_fset ..

sublocale store_order \<subseteq> wf: point_invariant rng T "\<lambda>_. store_wf" for T
  by unfold_locales
     (simp_all add: store_wf_addMessageLocked store_wf_storeAck store_wf_deleteMessageLocked
       store_wf_deleteAckLocked store_wf_purges store_wf_caps)

text \<open>The configuration is the one the store was built with.\<close>

sublocale store_order \<subseteq> config: point_invariant rng T "\<lambda>_ s. store_wf s \<and> caps s = c" for T c
  by unfold_locales
     (auto simp: store_wf_addMessageLocked store_wf_storeAck store_wf_deleteMessageLocked
       store_wf_deleteAckLocked store_wf_purges store_wf_caps frame_simps)

context store_order
begin

lemma caps_run: "store_wf s \<Longrightarrow> clocked T rs \<Longrightarrow> caps (store_run rng rs s) = caps s"
  using config.keeps_run [of s "caps s" T rs] by simp

lemma wf_step: "store_wf s \<Longrightarrow> 0 \<le> request_time r \<Longrightarrow> store_wf (store_step rng r s)"
  by (rule wf.keeps_step [of _ _ "request_time r"]) simp_all

lemma wf_run: "store_wf s \<Longrightarrow> clocked T rs \<Longrightarrow> store_wf (store_run rng rs s)"
  by (rule wf.keeps_run [of _ T])

lemma wf_expire: "store_wf s \<Longrightarrow> store_wf (expireLocked rng now s)"
  by (rule wf.keeps_expire [of _ _ now]) simp_all

end

lemma NewStore_caps:
  "0 < maxMessages (NewStore ep cfg)" "0 < maxPurges (NewStore ep cfg)" "0 < maxPerPair (NewStore ep cfg)"
  "0 < maxPayloadBytes (NewStore ep cfg)" "0 < maxTTL (NewStore ep cfg)" "0 < defaultTTL (NewStore ep cfg)"
  by (simp_all add: NewStore_def Let_def Hour_def Minute_def Second_def)

lemma NewStore_tables [simp]:
  "messages (NewStore ep cfg) = fmempty" "acks (NewStore ep cfg) = fmempty" "purges (NewStore ep cfg) = fmempty"
  "pairCounts (NewStore ep cfg) = fmempty" "credentialCounts (NewStore ep cfg) = fmempty"
  "messageCredential (NewStore ep cfg) = fmempty" "seq (NewStore ep cfg) = 0"
  "messageSeq (NewStore ep cfg) = fmempty" "ackSeq (NewStore ep cfg) = fmempty"
  "messageTags (NewStore ep cfg) = fmempty" "messagesByPurge (NewStore ep cfg) = fmempty"
  "acksByMessage (NewStore ep cfg) = fmempty"
  by (simp_all add: NewStore_def Let_def)

text \<open>
  The ack lane exceeds the message lane, provided doubling the message cap stays within 64 bits.
\<close>

definition config_fits :: "StoreConfig \<Rightarrow> bool" where
  "config_fits cfg \<longleftrightarrow> cfg_MaxMessages cfg < 2 ^ 62"

lemma NewStore_maxAcks: "config_fits cfg \<Longrightarrow> maxMessages (NewStore ep cfg) < maxAcks (NewStore ep cfg)"
  by (auto simp: NewStore_def Let_def config_fits_def wrap64_id)

lemma store_wf_NewStore:
  assumes "config_fits cfg"
  shows "store_wf (NewStore ep cfg)"
  using NewStore_caps [of ep cfg] NewStore_maxAcks [OF assms, of ep]
  by (auto simp: store_wf_def keys_ok_def seqs_ok_def sizes_ok_def tags_ok_def credentials_ok_def
      record_count_def)

lemma store_wf_run:
  assumes "range_order rng" "config_fits cfg" "clocked T rs"
  shows "store_wf (store_run rng rs (NewStore ep cfg))"
  using store_order.wf_run [OF _ store_wf_NewStore [OF assms(2)] assms(3)] assms(1)
  by (simp add: store_order_def)

end
