(* ===== verification/Queue_Purge.thy ===== *)
theory Queue_Purge
  imports Queue_Wf
begin

text \<open>
  An owner purge through the two indexes removes what a walk over the two tables would: the
  owner's messages and every ack naming one of them, and it counts them.
\<close>

section \<open>Deleting a list of acks\<close>

lemma fold_deleteAck_fields:
  "messages (fold deleteAckLocked ids s) = messages s"
  "purges (fold deleteAckLocked ids s) = purges s"
  "caps (fold deleteAckLocked ids s) = caps s"
  "seq (fold deleteAckLocked ids s) = seq s"
  "messageSeq (fold deleteAckLocked ids s) = messageSeq s"
  "fmlookup (acks (fold deleteAckLocked ids s)) x =
     (if x \<in> set ids then None else fmlookup (acks s) x)"
  by (induction ids arbitrary: s) (auto simp: frame_simps)

section \<open>One message and its acks\<close>

definition drop_named :: "string set \<Rightarrow> (string, AckRecord) gomap \<Rightarrow> (string, AckRecord) gomap" where
  "drop_named ms m = live_part (\<lambda>a. ack_MessageID a \<in> ms) m"

lemma lookup_drop_named:
  "fmlookup (drop_named ms m) x =
     (case fmlookup m x of None \<Rightarrow> None | Some a \<Rightarrow> if ack_MessageID a \<in> ms then None else Some a)"
  by (simp add: drop_named_def lookup_live_part)

lemma drop_named_empty [simp]: "drop_named {} m = m"
  by (rule fmap_ext) (simp add: lookup_drop_named split: option.splits)

lemma drop_named_insert: "drop_named ms (drop_named {k} m) = drop_named (insert k ms) m"
  by (rule fmap_ext) (auto simp: lookup_drop_named split: option.splits)

context store_order
begin

lemma ackIDs_set:
  assumes "store_wf s" "k \<noteq> []"
  shows "set (ackIDsForMessageLocked rng k s) = ids_with ack_MessageID (acks s) k"
  using assms fset_index_ids [of ack_MessageID "acks s" "acksByMessage s" k]
  by (simp add: ackIDsForMessageLocked_def rng_set store_wf_def)

lemma ackIDs_length:
  assumes "store_wf s" "k \<noteq> []"
  shows "length (ackIDsForMessageLocked rng k s) = count_with ack_MessageID (acks s) k"
proof -
  have "distinct (ackIDsForMessageLocked rng k s)"
    by (simp add: ackIDsForMessageLocked_def rng_distinct)
  from distinct_card [OF this] show ?thesis
    by (simp only: ackIDs_set [OF assms] count_with_def ids_with_def)
qed

lemma purgeMessage_tables:
  assumes wf: "store_wf s" and held: "fmlookup (messages s) k \<noteq> None"
    and step: "purgeMessageLocked rng k (m, a, s) = (m', a', s')"
  shows "store_wf s'" "messages s' = fmdrop k (messages s)" "acks s' = drop_named {k} (acks s)"
    "purges s' = purges s" "caps s' = caps s"
    "m' = m + 1" "a' = a + int (count_with ack_MessageID (acks s) k)"
proof -
  let ?s = "deleteMessageLocked k s"
  from held obtain e where e: "fmlookup (messages s) k = Some e" by auto
  then have ne: "k \<noteq> []" using wf by (auto simp: store_wf_def keys_ok_def)
  have wf1: "store_wf ?s" by (rule store_wf_deleteMessageLocked [OF wf e])
  let ?ids = "ackIDsForMessageLocked rng k ?s"
  have eq: "m' = m + 1" "a' = a + int (length ?ids)" "s' = fold deleteAckLocked ?ids ?s"
    using step by (simp_all add: purgeMessageLocked_def Let_def)
  show "store_wf s'"
    unfolding eq by (intro fold_invariant [where P = store_wf] wf.point_delete_ack' wf1)
  show "messages s' = fmdrop k (messages s)" "purges s' = purges s" "caps s' = caps s"
    unfolding eq by (simp_all add: fold_deleteAck_fields frame_simps)
  show "acks s' = drop_named {k} (acks s)"
    unfolding eq
    by (rule fmap_ext)
       (auto simp: fold_deleteAck_fields ackIDs_set [OF wf1 ne] ids_with_def frame_simps
         lookup_drop_named split: option.splits)
  show "m' = m + 1" "a' = a + int (count_with ack_MessageID (acks s) k)"
    unfolding eq by (simp_all add: ackIDs_length [OF wf1 ne] frame_simps)
qed

lemma purgeMessages_tables:
  assumes "store_wf s" "distinct ks" "set ks \<subseteq> fmdom' (messages s)"
    and "fold (purgeMessageLocked rng) ks (m, a, s) = (m', a', s')"
  shows "store_wf s' \<and> messages s' = fmfilter (\<lambda>k. k \<notin> set ks) (messages s) \<and>
    acks s' = drop_named (set ks) (acks s) \<and> purges s' = purges s \<and> caps s' = caps s \<and>
    m' = m + int (length ks) \<and>
    a' = a + (\<Sum>k\<leftarrow>ks. int (count_with ack_MessageID (acks s) k))"
  using assms
proof (induction ks arbitrary: m a s)
  case Nil
  then show ?case by (auto intro!: fmap_ext)
next
  case (Cons k ks)
  obtain m1 a1 s1 where step: "purgeMessageLocked rng k (m, a, s) = (m1, a1, s1)"
    by (cases "purgeMessageLocked rng k (m, a, s)")
  have held: "fmlookup (messages s) k \<noteq> None"
    using Cons.prems(3) by (auto simp: fmlookup_dom'_iff)
  note one = purgeMessage_tables [OF Cons.prems(1) held step]
  have sub: "set ks \<subseteq> fmdom' (messages s1)"
    using Cons.prems(2,3) by (auto simp: one)
  have cnt: "count_with ack_MessageID (acks s1) x = count_with ack_MessageID (acks s) x" if "x \<in> set ks" for x
  proof -
    have "x \<noteq> k" using that Cons.prems(2) by auto
    then show ?thesis
      by (auto simp: count_with_def one lookup_drop_named split: option.splits if_splits
          intro!: arg_cong [where f = card])
  qed
  have sums: "(\<Sum>k\<leftarrow>ks. int (count_with ack_MessageID (acks s1) k)) =
      (\<Sum>k\<leftarrow>ks. int (count_with ack_MessageID (acks s) k))"
    using cnt by (intro arg_cong [where f = sum_list] map_cong) simp_all
  have "fmfilter (\<lambda>x. x \<notin> set ks) (messages s1) = fmfilter (\<lambda>x. x \<notin> set (k # ks)) (messages s)"
    unfolding one by (rule fmap_ext) auto
  with Cons.IH [OF one(1) _ sub, of m1 a1] Cons.prems(2,4) step sums show ?case
    by (simp add: one drop_named_insert)
qed

end

section \<open>The purge against a walk of the tables\<close>

text \<open>The reference: the messages stamped with the hash, and the acks naming one of them.\<close>

definition purge_owned :: "string \<Rightarrow> Store \<Rightarrow> string set" where
  "purge_owned h s = (if h = [] then {} else ids_with envelope_purgeHash (messages s) h)"

definition acks_naming :: "string set \<Rightarrow> Store \<Rightarrow> string set" where
  "acks_naming ms s = {k. \<exists>a. fmlookup (acks s) k = Some a \<and> ack_MessageID a \<in> ms}"

lemma card_acks_naming:
  assumes "distinct ks"
  shows "int (card (acks_naming (set ks) s)) = (\<Sum>k\<leftarrow>ks. int (count_with ack_MessageID (acks s) k))"
  using assms
proof (induction ks)
  case (Cons k ks)
  have "acks_naming (set (k # ks)) s =
      {x. \<exists>a. fmlookup (acks s) x = Some a \<and> ack_MessageID a = k} \<union> acks_naming (set ks) s"
    by (auto simp: acks_naming_def)
  moreover have "{x. \<exists>a. fmlookup (acks s) x = Some a \<and> ack_MessageID a = k} \<inter> acks_naming (set ks) s = {}"
    using Cons.prems by (auto simp: acks_naming_def)
  ultimately have "card (acks_naming (set (k # ks)) s) =
      count_with ack_MessageID (acks s) k + card (acks_naming (set ks) s)"
    unfolding count_with_def by (simp add: card_Un_disjoint acks_naming_def)
  with Cons show ?case by simp
qed (simp add: acks_naming_def)

context store_order
begin

lemma purgeOwner_tables:
  assumes wf: "store_wf s" and run: "purgeOwnerLocked rng h s = (m, a, s')"
  shows "store_wf s'" "messages s' = fmfilter (\<lambda>k. k \<notin> purge_owned h s) (messages s)"
    "acks s' = drop_named (purge_owned h s) (acks s)" "purges s' = purges s" "caps s' = caps s"
    "m = int (card (purge_owned h s))" "a = int (card (acks_naming (purge_owned h s) s))"
proof -
  let ?ks = "rng (index_ids (messagesByPurge s) h)"
  have ks: "set ?ks = purge_owned h s"
    using wf fset_index_ids [of envelope_purgeHash "messages s" "messagesByPurge s" h]
    by (simp add: rng_set purge_owned_def store_wf_def)
  have len: "int (length ?ks) = int (card (purge_owned h s))"
    using distinct_card [OF rng_distinct] by (simp only: ks [symmetric])
  have fold: "fold (purgeMessageLocked rng) ?ks (0, 0, s) = (m, a, s')"
  proof (cases "index_ids (messagesByPurge s) h = {||}")
    case True
    then have "?ks = []" using rng_set [of "{||}"] by simp
    with True run show ?thesis by (simp add: purgeOwnerLocked_def Let_def)
  next
    case False
    with run show ?thesis by (simp add: purgeOwnerLocked_def Let_def)
  qed
  have "set ?ks \<subseteq> fmdom' (messages s)"
    unfolding ks by (auto simp: purge_owned_def ids_with_def fmlookup_dom'_iff split: if_splits)
  from purgeMessages_tables [OF wf rng_distinct this fold]
  show "store_wf s'" "messages s' = fmfilter (\<lambda>k. k \<notin> purge_owned h s) (messages s)"
    "acks s' = drop_named (purge_owned h s) (acks s)" "purges s' = purges s" "caps s' = caps s"
    "m = int (card (purge_owned h s))" "a = int (card (acks_naming (purge_owned h s) s))"
    using card_acks_naming [OF rng_distinct, of "index_ids (messagesByPurge s) h" s] len
    by (simp_all add: ks)
qed

end

end
