(* ===== verification/Queue_Expiry.thy ===== *)
theory Queue_Expiry
  imports Queue_Purge
begin

text \<open>
  Expiry and the two lanes. What a sweep leaves, the ceiling on the life of a record, the reserve
  of the ack lane for the node's own acks, and tombstones.
\<close>

section \<open>What a sweep leaves\<close>

sublocale store_order \<subseteq> message_sweep: sweepable rng messages deleteMessageLocked
  by unfold_locales (simp add: frame_simps)

sublocale store_order \<subseteq> ack_sweep: sweepable rng acks deleteAckLocked
  by unfold_locales (simp add: frame_simps)

sublocale store_order \<subseteq> purge_sweep: sweepable rng purges deletePurge
  by unfold_locales (simp add: deletePurge_def)

lemma sweep_messages_frame:
  "acks (sweep rng messages dead deleteMessageLocked s) = acks s"
  "purges (sweep rng messages dead deleteMessageLocked s) = purges s"
  "caps (sweep rng messages dead deleteMessageLocked s) = caps s"
  "seq (sweep rng messages dead deleteMessageLocked s) = seq s"
  by (rule sweep_invariant; simp add: frame_simps)+

lemma sweep_acks_frame:
  "messages (sweep rng acks dead deleteAckLocked s) = messages s"
  "purges (sweep rng acks dead deleteAckLocked s) = purges s"
  "caps (sweep rng acks dead deleteAckLocked s) = caps s"
  "seq (sweep rng acks dead deleteAckLocked s) = seq s"
  by (rule sweep_invariant; simp add: frame_simps)+

lemma sweep_purges_frame:
  "messages (sweep rng purges dead deletePurge s) = messages s"
  "acks (sweep rng purges dead deletePurge s) = acks s"
  "caps (sweep rng purges dead deletePurge s) = caps s"
  "seq (sweep rng purges dead deletePurge s) = seq s"
  "messageSeq (sweep rng purges dead deletePurge s) = messageSeq s"
  "ackSeq (sweep rng purges dead deletePurge s) = ackSeq s"
  by (rule sweep_invariant; simp add: deletePurge_def)+

lemmas sweep_frames = sweep_messages_frame sweep_acks_frame sweep_purges_frame

context store_order
begin

lemma expire_tables:
  "messages (expireLocked rng now s) = live_part (message_dead now) (messages s)"
  "acks (expireLocked rng now s) = live_part (ack_dead now) (acks s)"
  "purges (expireLocked rng now s) = live_part (purge_dead now) (purges s)"
  "caps (expireLocked rng now s) = caps s"
  "seq (expireLocked rng now s) = seq s"
  by (simp_all add: expireLocked_def sweep_frames message_sweep.table_sweep ack_sweep.table_sweep
      purge_sweep.table_sweep)

end

section \<open>No record outlives the ceiling\<close>

definition expiries_ok :: "time \<Rightarrow> Store \<Rightarrow> bool" where
  "expiries_ok T s \<longleftrightarrow>
     (\<forall>k e. fmlookup (messages s) k = Some e \<longrightarrow> env_ExpiresAt e \<le> T + maxTTL s) \<and>
     (\<forall>k a. fmlookup (acks s) k = Some a \<longrightarrow> ack_ExpiresAt a \<le> T + maxTTL s)"

sublocale store_order \<subseteq> expiry: point_invariant rng T "\<lambda>_ s. store_wf s \<and> expiries_ok T s" for T
proof unfold_locales
  fix n :: nat and s now e c
  assume "store_wf s \<and> expiries_ok T s" "insertable now s e" "now \<le> T"
  then show "store_wf (addMessageLocked e c s) \<and> expiries_ok T (addMessageLocked e c s)"
    by (auto simp: expiries_ok_def store_wf_addMessageLocked frame_simps insertable_def envelope_ok_def
        caps_eqD [OF addMessageLocked_fields(12)])
next
  fix n :: nat and s now a
  assume "store_wf s \<and> expiries_ok T s" "record_ok now s a" "now \<le> T"
    "fmlookup (acks s) (ack_ID a) = None" "go_len (acks s) < maxAcks s"
  then show "store_wf (storeAck a s) \<and> expiries_ok T (storeAck a s)"
    by (auto simp: expiries_ok_def store_wf_storeAck frame_simps record_ok_def
        caps_eqD [OF storeAck_fields(12)])
qed (auto simp: expiries_ok_def store_wf_deleteMessageLocked store_wf_deleteAckLocked store_wf_purges
      store_wf_caps frame_simps caps_eqD [OF deleteMessageLocked_fields(7)]
      caps_eqD [OF deleteAckLocked_fields(10)])

section \<open>The reserve of the ack lane\<close>

text \<open>
  An ack is coupled while the message it was minted for is held and it does not outlive it. The
  loose acks that live past \<open>T\<close> fit into the part of the lane callers may write to.
\<close>

definition coupled :: "Store \<Rightarrow> AckRecord \<Rightarrow> bool" where
  "coupled s a \<longleftrightarrow>
     ack_ID a = ack_MessageID a @ '':node_received'' \<and>
     (case fmlookup (messages s) (ack_MessageID a) of
        None \<Rightarrow> False | Some e \<Rightarrow> ack_ExpiresAt a \<le> env_ExpiresAt e)"

definition loose_acks :: "time \<Rightarrow> Store \<Rightarrow> string set" where
  "loose_acks T s = {k. \<exists>a. fmlookup (acks s) k = Some a \<and> T < ack_ExpiresAt a \<and> \<not> coupled s a}"

definition reserve_ok :: "time \<Rightarrow> Store \<Rightarrow> bool" where
  "reserve_ok T s \<longleftrightarrow> int (card (loose_acks T s)) \<le> externalAckCapacity s"

lemma finite_loose_acks [simp]: "finite (loose_acks T s)"
  by (simp add: loose_acks_def)

lemma card_loose_acks_le: "int (card (loose_acks T s)) \<le> go_len (acks s)"
  unfolding loose_acks_def go_len_def
  by (simp, rule card_mono) (auto simp: fmlookup_dom'_iff)

lemma reserve_ok_subset:
  assumes "reserve_ok T s" "loose_acks T s' \<subseteq> loose_acks T s" "caps s' = caps s"
  shows "reserve_ok T s'"
  using card_mono [OF finite_loose_acks assms(2)] assms(1) caps_eqD(9) [OF assms(3)]
  by (simp add: reserve_ok_def)

lemma reserve_ok_landAck:
  assumes "go_len (acks s) < externalAckCapacity s" "fmlookup (acks s) (ack_ID a) = None"
  shows "reserve_ok T (landAck a s)"
proof -
  have "go_len (acks (landAck a s)) = go_len (acks s) + 1" "caps (landAck a s) = caps s"
    using assms(2) by (simp_all add: landAck_def frame_simps gomap_simps)
  with card_loose_acks_le [of T "landAck a s"] assms(1) caps_eqD(9) [of "landAck a s" s] show ?thesis
    by (simp add: reserve_ok_def)
qed

lemma loose_acks_post:
  assumes "fmlookup (messages s) (env_ID e) = None"
  shows "loose_acks T (addMessageLocked e c (storeAck (nodeReceivedAck e nid now) s)) \<subseteq> loose_acks T s"
    "loose_acks T (addMessageLocked e c s) \<subseteq> loose_acks T s"
  using assms
  by (auto simp: loose_acks_def coupled_def frame_simps split: if_splits option.splits)

lemma loose_acks_expired:
  assumes "fmlookup (messages s) k = Some e" "env_ExpiresAt e \<le> T"
  shows "loose_acks T (deleteMessageLocked k s) \<subseteq> loose_acks T s"
  using assms by (auto simp: loose_acks_def coupled_def frame_simps split: if_splits option.splits)

lemma loose_acks_purged:
  assumes "acks s' = drop_named O' (acks s)" "messages s' = fmfilter (\<lambda>k. k \<notin> O') (messages s)"
  shows "loose_acks T s' \<subseteq> loose_acks T s"
  using assms
  by (auto simp: loose_acks_def coupled_def lookup_drop_named split: if_splits option.splits)

lemma storePurge_fields:
  "messages (storePurgeLocked p s) = messages s" "acks (storePurgeLocked p s) = acks s"
  "caps (storePurgeLocked p s) = caps s"
  by (simp_all add: storePurgeLocked_def)

context store_order
begin

lemma purge_move:
  fixes p
  assumes "store_wf s"
  defines "s' \<equiv> snd (snd (purgeOwnerLocked rng (purge_PurgeHash p) (storePurgeLocked p s)))"
  shows "store_wf s'" "messages s' = fmfilter (\<lambda>k. k \<notin> purge_owned (purge_PurgeHash p) s) (messages s)"
    "acks s' = drop_named (purge_owned (purge_PurgeHash p) s) (acks s)"
    "purges s' = purges (storePurgeLocked p s)" "caps s' = caps s"
proof -
  have wf: "store_wf (storePurgeLocked p s)" by (rule wf.point_storePurge [OF assms(1)])
  have owned: "purge_owned h (storePurgeLocked p s) = purge_owned h s" for h
    by (simp add: purge_owned_def storePurge_fields)
  obtain m a where "purgeOwnerLocked rng (purge_PurgeHash p) (storePurgeLocked p s) = (m, a, s')"
    unfolding s'_def by (metis prod.collapse)
  from purgeOwner_tables [OF wf this, unfolded owned storePurge_fields]
  show "store_wf s'" "messages s' = fmfilter (\<lambda>k. k \<notin> purge_owned (purge_PurgeHash p) s) (messages s)"
    "acks s' = drop_named (purge_owned (purge_PurgeHash p) s) (acks s)"
    "purges s' = purges (storePurgeLocked p s)" "caps s' = caps s"
    by - assumption+
qed

end

sublocale store_order \<subseteq> reserve: store_invariant rng T "\<lambda>_ s. store_wf s \<and> reserve_ok T s" for T
proof unfold_locales
  fix n :: nat and s now e c nid
  assume A: "store_wf s \<and> reserve_ok T s" "insertable now s e" "now \<le> T"
    "fmlookup (acks s) (env_ID e @ '':node_received'') = None" "go_len (acks s) < maxAcks s"
  let ?s' = "addMessageLocked e c (storeAck (nodeReceivedAck e nid now) s)"
  have "store_wf ?s'" using wf.post [of s now e now] A by blast
  moreover have "reserve_ok T ?s'"
    using A by (intro reserve_ok_subset [OF _ loose_acks_post(1)]) (simp_all add: insertable_def frame_simps)
  ultimately show "store_wf ?s' \<and> reserve_ok T ?s'" ..
next
  fix n :: nat and s now e
  assume A: "store_wf s \<and> reserve_ok T s" "insertable now s e"
  then show "store_wf (addMessageLocked e 0 s) \<and> reserve_ok T (addMessageLocked e 0 s)"
    using reserve_ok_subset [OF _ loose_acks_post(2) addMessageLocked_fields(12)]
    by (auto simp: insertable_def intro: store_wf_addMessageLocked)
next
  fix n :: nat and s now a
  assume "store_wf s \<and> reserve_ok T s" "record_ok now s a" "now \<le> T"
    "fmlookup (acks s) (ack_ID a) = None" "go_len (acks s) < externalAckCapacity s"
  then show "store_wf (landAck a s) \<and> reserve_ok T (landAck a s)"
    using wf.landed [of s now a now] reserve_ok_landAck by blast
next
  fix n :: nat and s k e
  assume "store_wf s \<and> reserve_ok T s" "fmlookup (messages s) k = Some e" "env_ExpiresAt e \<le> T"
  then show "store_wf (deleteMessageLocked k s) \<and> reserve_ok T (deleteMessageLocked k s)"
    using reserve_ok_subset [OF _ loose_acks_expired deleteMessageLocked_fields(7)]
    by (auto intro: store_wf_deleteMessageLocked)
next
  fix n :: nat and s k a
  assume A: "store_wf s \<and> reserve_ok T s" "fmlookup (acks s) k = Some a"
  have "loose_acks T (deleteAckLocked k s) \<subseteq> loose_acks T s"
    by (auto simp: loose_acks_def coupled_def frame_simps split: if_splits)
  with A show "store_wf (deleteAckLocked k s) \<and> reserve_ok T (deleteAckLocked k s)"
    using reserve_ok_subset [OF _ _ deleteAckLocked_fields(10)] store_wf_deleteAckLocked by blast
next
  fix n :: nat and s h
  assume "store_wf s \<and> reserve_ok T s"
  then show "store_wf (deletePurge h s) \<and> reserve_ok T (deletePurge h s)"
    using wf.purge_expired
    by (auto simp: reserve_ok_def loose_acks_def coupled_def deletePurge_def externalAckCapacity_def)
next
  fix n :: nat and s p
  assume A: "store_wf s \<and> reserve_ok T s"
  let ?s' = "snd (snd (purgeOwnerLocked rng (purge_PurgeHash p) (storePurgeLocked p s)))"
  from A have wf: "store_wf s" by simp
  note move = purge_move [OF wf, where p = p]
  from A move(1) reserve_ok_subset [OF _ loose_acks_purged [OF move(3,2)] move(5)]
  show "store_wf ?s' \<and> reserve_ok T ?s'" by blast
qed

section \<open>Tombstones\<close>

definition tombs_ok :: "time \<Rightarrow> Store \<Rightarrow> bool" where
  "tombs_ok T s \<longleftrightarrow> (\<forall>k e. fmlookup (messages s) k = Some e \<longrightarrow> \<not> purgedLocked T e s)"

lemma purgedLocked_later: "purgedLocked T e s \<Longrightarrow> now \<le> T \<Longrightarrow> purgedLocked now e s"
  by (auto simp: purgedLocked_def split: option.splits)

lemma purgedLocked_cong: "purges s' = purges s \<Longrightarrow> purgedLocked now e s' = purgedLocked now e s"
  by (simp add: purgedLocked_def)

lemma tombs_ok_add:
  assumes "tombs_ok T s" "insertable now s e" "now \<le> T" "purges s' = purges s"
    and "messages s' = fmupd (env_ID e) e (messages s)"
  shows "tombs_ok T s'"
  using assms purgedLocked_later [of T e s now]
  by (auto simp: tombs_ok_def insertable_def purgedLocked_cong [of s' s])

lemma tombs_ok_less:
  assumes "tombs_ok T s" "purges s' = purges s"
    and "\<And>k e. fmlookup (messages s') k = Some e \<Longrightarrow> fmlookup (messages s) k = Some e"
  shows "tombs_ok T s'"
  using assms by (auto simp: tombs_ok_def purgedLocked_cong [of s' s])

sublocale store_order \<subseteq> tombs: store_invariant rng T "\<lambda>_ s. store_wf s \<and> tombs_ok T s" for T
proof unfold_locales
  fix n :: nat and s now e c nid
  assume A: "store_wf s \<and> tombs_ok T s" "insertable now s e" "now \<le> T"
    "fmlookup (acks s) (env_ID e @ '':node_received'') = None" "go_len (acks s) < maxAcks s"
  let ?s' = "addMessageLocked e c (storeAck (nodeReceivedAck e nid now) s)"
  have "store_wf ?s'" using wf.post [of s now e now] A by blast
  moreover have "tombs_ok T ?s'"
    by (rule tombs_ok_add [OF conjunct2 [OF A(1)] A(2,3)]) (simp_all add: frame_simps)
  ultimately show "store_wf ?s' \<and> tombs_ok T ?s'" ..
next
  fix n :: nat and s now e
  assume "store_wf s \<and> tombs_ok T s" "insertable now s e" "now \<le> T"
  then show "store_wf (addMessageLocked e 0 s) \<and> tombs_ok T (addMessageLocked e 0 s)"
    using tombs_ok_add [of T s now e "addMessageLocked e 0 s"] store_wf_addMessageLocked
    by (simp add: frame_simps)
next
  fix n :: nat and s now a
  assume "store_wf s \<and> tombs_ok T s" "record_ok now s a" "now \<le> T"
    "fmlookup (acks s) (ack_ID a) = None" "go_len (acks s) < externalAckCapacity s"
  then show "store_wf (landAck a s) \<and> tombs_ok T (landAck a s)"
    using wf.landed [of s now a now]
    by (auto simp: landAck_def frame_simps split: if_splits elim!: tombs_ok_less)
next
  fix n :: nat and s k e
  assume "store_wf s \<and> tombs_ok T s" "fmlookup (messages s) k = Some e"
  then show "store_wf (deleteMessageLocked k s) \<and> tombs_ok T (deleteMessageLocked k s)"
    by (auto simp: frame_simps store_wf_deleteMessageLocked split: if_splits elim!: tombs_ok_less)
next
  fix n :: nat and s k a
  assume "store_wf s \<and> tombs_ok T s" "fmlookup (acks s) k = Some a"
  then show "store_wf (deleteAckLocked k s) \<and> tombs_ok T (deleteAckLocked k s)"
    by (auto simp: frame_simps store_wf_deleteAckLocked elim!: tombs_ok_less)
next
  fix n :: nat and s h
  assume "store_wf s \<and> tombs_ok T s"
  then show "store_wf (deletePurge h s) \<and> tombs_ok T (deletePurge h s)"
    using wf.purge_expired
    by (auto simp: tombs_ok_def deletePurge_def purgedLocked_def split: option.splits)
next
  fix n :: nat and s and p :: PurgeRecord
  assume A: "store_wf s \<and> tombs_ok T s"
  let ?h = "purge_PurgeHash p"
  let ?s' = "snd (snd (purgeOwnerLocked rng ?h (storePurgeLocked p s)))"
  from A have wf: "store_wf s" by simp
  note move = purge_move [OF wf, where p = p]
  have "\<not> purgedLocked T e ?s'" if held: "fmlookup (messages ?s') k = Some e" for k e
  proof -
    have e: "fmlookup (messages s) k = Some e" "k \<notin> purge_owned ?h s"
      using held by (auto simp: move(2) split: if_splits)
    have "envelope_purgeHash e = [] \<or> envelope_purgeHash e \<noteq> ?h"
      using e by (auto simp: purge_owned_def ids_with_def split: if_splits)
    moreover have "\<not> purgedLocked T e s" using A e(1) by (auto simp: tombs_ok_def)
    ultimately show ?thesis
      unfolding purgedLocked_def move(4)
      by (auto simp: storePurgeLocked_def split: option.splits if_splits)
  qed
  with move(1) show "store_wf ?s' \<and> tombs_ok T ?s'" by (simp add: tombs_ok_def)
qed simp_all

section \<open>Along every history\<close>

lemma expiries_ok_NewStore: "expiries_ok T (NewStore ep cfg)"
  by (simp add: expiries_ok_def)

lemma reserve_ok_NewStore: "config_fits cfg \<Longrightarrow> reserve_ok T (NewStore ep cfg)"
  using NewStore_maxAcks [of cfg ep]
  by (simp add: reserve_ok_def loose_acks_def externalAckCapacity_def)

lemma tombs_ok_NewStore: "tombs_ok T (NewStore ep cfg)"
  by (simp add: tombs_ok_def)

context store_order
begin

lemma expiries_run: "store_wf s \<Longrightarrow> expiries_ok T s \<Longrightarrow> clocked T rs \<Longrightarrow> expiries_ok T (store_run rng rs s)"
  using expiry.keeps_run [of s T rs] by blast

lemma reserve_run: "store_wf s \<Longrightarrow> reserve_ok T s \<Longrightarrow> clocked T rs \<Longrightarrow> reserve_ok T (store_run rng rs s)"
  using reserve.keeps_run [of s T rs] by blast

lemma tombs_run: "store_wf s \<Longrightarrow> tombs_ok T s \<Longrightarrow> clocked T rs \<Longrightarrow> tombs_ok T (store_run rng rs s)"
  using tombs.keeps_run [of s T rs] by blast

text \<open>
  After a prune at \<open>now\<close> every remaining ack either is coupled to a held message or is loose, so a
  store with a free message slot has room for the ack of one more message.
\<close>

lemma reserve_room:
  assumes "store_wf s" "reserve_ok T s" "T \<le> now" and free: "go_len (messages s') < maxMessages s"
    and s': "s' = expireLocked rng now s"
  shows "go_len (acks s') < maxAcks s"
proof -
  let ?C = "{k. \<exists>a. fmlookup (acks s') k = Some a \<and> coupled s a}"
  note tables = expire_tables [of now s, folded s']
  have finC: "finite ?C" by simp
  have keys: "ack_ID a = k" if "fmlookup (acks s') k = Some a" for k a
    using that assms(1) by (auto simp: tables store_wf_def keys_ok_def)
  have alive: "now < ack_ExpiresAt a" if "fmlookup (acks s') k = Some a" for k a
    using that by (simp add: tables ack_dead_def)
  have "fmdom' (acks s') \<subseteq> loose_acks T s \<union> ?C"
    using assms(3) by (auto simp: tables loose_acks_def ack_dead_def fmlookup_dom'_iff)
  from card_mono [OF _ this] finC have "card (fmdom' (acks s')) \<le> card (loose_acks T s \<union> ?C)"
    by simp
  then have "card (fmdom' (acks s')) \<le> card (loose_acks T s) + card ?C"
    using card_Un_le [of "loose_acks T s" ?C] by linarith
  moreover have "card ?C \<le> card (fmdom' (messages s'))"
  proof (rule card_inj_on_le [where f = "\<lambda>k. ack_MessageID (the (fmlookup (acks s') k))"])
    have "k = ack_MessageID (the (fmlookup (acks s') k)) @ '':node_received''" if "k \<in> ?C" for k
      using that keys by (auto simp: coupled_def)
    then show "inj_on (\<lambda>k. ack_MessageID (the (fmlookup (acks s') k))) ?C"
      by (intro inj_on_inverseI [where g = "\<lambda>m. m @ '':node_received''"]) (rule sym)
    show "(\<lambda>k. ack_MessageID (the (fmlookup (acks s') k))) ` ?C \<subseteq> fmdom' (messages s')"
      by (auto simp: coupled_def tables(1) message_dead_def fmlookup_dom'_iff
          split: option.splits intro: less_le_trans [OF alive])
  qed simp
  ultimately show ?thesis
    using assms(2) free by (simp add: reserve_ok_def go_len_def externalAckCapacity_def)
qed

end

end
