(* ===== verification/Queue_Auth.thy ===== *)
theory Queue_Auth
  imports Queue_Expiry
begin

text \<open>
  Write authorization. Every record that names a message holds the tag the message is bound to;
  an ack is proved against that binding, and no request other than a peer's page can replace a
  binding that carries a tag.
\<close>

section \<open>The bound tag\<close>

lemma recipientTag_bind:
  "recipientTagForMessageLocked x (bindMessageTagLocked m t s) =
     (if x = m \<and> m \<noteq> [] then Some (if bound_tag m s = [] then t else bound_tag m s)
      else recipientTagForMessageLocked x s)"
  by (auto simp: recipientTagForMessageLocked_def bindMessageTagLocked_def bound_tag_def Let_def
      split: option.splits)

lemma recipientTag_release:
  "recipientTagForMessageLocked x (releaseMessageTagLocked m s) =
     (if x = m \<and> (\<forall>b. fmlookup (messageTags s) m = Some b \<longrightarrow> bind_records b \<le> 1) then None
      else recipientTagForMessageLocked x s)"
  by (auto simp: recipientTagForMessageLocked_def releaseMessageTagLocked_def split: option.splits)

lemma recipientTag_cong:
  "messageTags s' = messageTags s \<Longrightarrow> recipientTagForMessageLocked x s' = recipientTagForMessageLocked x s"
  by (simp add: recipientTagForMessageLocked_def)

lemma recipientTag_points:
  "recipientTagForMessageLocked x (addMessageLocked e c s) =
     recipientTagForMessageLocked x (bindMessageTagLocked (env_ID e) (env_RecipientTag e) s)"
  "recipientTagForMessageLocked x (storeAck a s) =
     recipientTagForMessageLocked x (bindMessageTagLocked (ack_MessageID a) (ack_RecipientTag a) s)"
  "fmlookup (messages s) k = Some e' \<Longrightarrow>
     recipientTagForMessageLocked x (deleteMessageLocked k s) =
     recipientTagForMessageLocked x (releaseMessageTagLocked k s)"
  "fmlookup (acks s) k = Some a' \<Longrightarrow>
     recipientTagForMessageLocked x (deleteAckLocked k s) =
     recipientTagForMessageLocked x (releaseMessageTagLocked (ack_MessageID a') s)"
  by (rule recipientTag_cong,
      simp add: messageTags_addMessageLocked messageTags_storeAck deleteMessageLocked_held deleteAckLocked_held)+

lemma bound_tag_eq: "bound_tag m s = (case recipientTagForMessageLocked m s of None \<Rightarrow> [] | Some t \<Rightarrow> t)"
  by (rule bound_tag_def)

text \<open>A record with a tag is never held without a tagged binding for the message it names.\<close>

definition tagged :: "string \<Rightarrow> Store \<Rightarrow> bool" where
  "tagged m s \<longleftrightarrow> bound_tag m s \<noteq> []"

definition guarded :: "Store \<Rightarrow> bool" where
  "guarded s \<longleftrightarrow>
     (\<forall>k e. fmlookup (messages s) k = Some e \<longrightarrow> env_RecipientTag e \<noteq> [] \<longrightarrow> tagged k s) \<and>
     (\<forall>k a. fmlookup (acks s) k = Some a \<longrightarrow> ack_RecipientTag a \<noteq> [] \<longrightarrow> tagged (ack_MessageID a) s)"

lemma bound_tag_bind:
  "m \<noteq> [] \<Longrightarrow> bound_tag x (bindMessageTagLocked m t s) =
     (if x = m \<and> bound_tag m s = [] then t else bound_tag x s)"
  unfolding bound_tag_eq [of x] by (auto simp: recipientTag_bind bound_tag_eq)

lemma bound_tag_points:
  "bound_tag x (addMessageLocked e c s) = bound_tag x (bindMessageTagLocked (env_ID e) (env_RecipientTag e) s)"
  "bound_tag x (storeAck a s) = bound_tag x (bindMessageTagLocked (ack_MessageID a) (ack_RecipientTag a) s)"
  by (simp_all add: bound_tag_eq recipientTag_points)

lemma tagged_points:
  "env_ID e \<noteq> [] \<Longrightarrow>
     tagged x (addMessageLocked e c s) \<longleftrightarrow> tagged x s \<or> (x = env_ID e \<and> env_RecipientTag e \<noteq> [])"
  "ack_MessageID a \<noteq> [] \<Longrightarrow>
     tagged x (storeAck a s) \<longleftrightarrow> tagged x s \<or> (x = ack_MessageID a \<and> ack_RecipientTag a \<noteq> [])"
  by (auto simp: tagged_def bound_tag_points bound_tag_bind)

lemma guarded_addMessageLocked:
  "guarded s \<Longrightarrow> env_ID e \<noteq> [] \<Longrightarrow> guarded (addMessageLocked e c s)"
  by (auto simp: guarded_def frame_simps tagged_points)

lemma guarded_storeAck: "guarded s \<Longrightarrow> ack_MessageID a \<noteq> [] \<Longrightarrow> guarded (storeAck a s)"
  by (auto simp: guarded_def frame_simps tagged_points)

text \<open>While another record names the message, releasing one record leaves its tag alone.\<close>

lemma bound_tag_release:
  assumes "store_wf s" "x = m \<Longrightarrow> 1 < record_count m s"
  shows "bound_tag x (releaseMessageTagLocked m s) = bound_tag x s"
proof -
  have tag: "map_option bind_records (fmlookup (messageTags s) m) =
      (if record_count m s = 0 then None else Some (int (record_count m s)))"
    using assms(1) by (simp add: store_wf_def tags_ok_def)
  have "recipientTagForMessageLocked x (releaseMessageTagLocked m s) = recipientTagForMessageLocked x s"
  proof (cases "x = m")
    case True
    from assms(2) [OF this] tag obtain b where "fmlookup (messageTags s) m = Some b" "1 < bind_records b"
      by auto
    then show ?thesis unfolding recipientTag_release by auto
  next
    case False
    then show ?thesis unfolding recipientTag_release by auto
  qed
  then show ?thesis by (simp add: bound_tag_eq)
qed

lemma guarded_deleteMessageLocked:
  assumes wf: "store_wf s" and g: "guarded s" and held: "fmlookup (messages s) k = Some e"
  shows "guarded (deleteMessageLocked k s)"
proof -
  have tag: "bound_tag x (deleteMessageLocked k s) = bound_tag x s"
    if "x = k \<Longrightarrow> \<exists>j a. fmlookup (acks s) j = Some a \<and> ack_MessageID a = k" for x
  proof -
    have "1 < record_count k s" if "x = k"
      using \<open>x = k \<Longrightarrow> _\<close> [OF that] held count_with_pos [of "acks s" _ _ ack_MessageID k]
      by (auto simp: record_count_def)
    from bound_tag_release [OF wf, of x k] this show ?thesis
      by (simp add: bound_tag_eq recipientTag_points(3) [OF held])
  qed
  have msg: "bound_tag x (deleteMessageLocked k s) = bound_tag x s" if "x \<noteq> k" for x
    by (rule tag) (simp add: that)
  have ack: "bound_tag (ack_MessageID a) (deleteMessageLocked k s) = bound_tag (ack_MessageID a) s"
    if "fmlookup (acks s) j = Some a" for j a
    by (rule tag) (use that in blast)
  from g show ?thesis
    unfolding guarded_def tagged_def frame_simps by (auto simp: msg ack)
qed

lemma guarded_deleteAckLocked:
  assumes wf: "store_wf s" and g: "guarded s" and held: "fmlookup (acks s) k = Some a"
  shows "guarded (deleteAckLocked k s)"
proof -
  let ?m = "ack_MessageID a"
  have one: "0 < count_with ack_MessageID (acks s) ?m" by (rule count_with_pos [OF held refl])
  have tag: "bound_tag x (deleteAckLocked k s) = bound_tag x s"
    if "x = ?m \<Longrightarrow> 1 < record_count ?m s" for x
    using bound_tag_release [OF wf, of x ?m] that
    by (simp add: bound_tag_eq recipientTag_points(4) [OF held])
  have msg: "bound_tag x (deleteAckLocked k s) = bound_tag x s" if "fmlookup (messages s) x = Some e" for x e
    using that one by (intro tag) (auto simp: record_count_def)
  have ack: "bound_tag (ack_MessageID b) (deleteAckLocked k s) = bound_tag (ack_MessageID b) s"
    if "fmlookup (acks s) j = Some b" "j \<noteq> k" for j b
  proof (rule tag)
    assume same: "ack_MessageID b = ?m"
    have "fmlookup (fmdrop k (acks s)) j = Some b" using that by simp
    from count_with_pos [of _ _ _ ack_MessageID, OF this same]
    show "1 < record_count ?m s" by (simp add: count_with_drop [OF held] record_count_def)
  qed
  from g show ?thesis
    unfolding guarded_def tagged_def frame_simps by (auto simp: msg ack)
qed

sublocale store_order \<subseteq> guard: point_invariant rng T "\<lambda>_ s. store_wf s \<and> guarded s" for T
proof unfold_locales
  fix n :: nat and s and m :: "(string, PurgeRecord) gomap"
  assume "store_wf s \<and> guarded s" "go_len m \<le> go_len (purges s) \<or> go_len m \<le> maxPurges s"
  then show "store_wf (s\<lparr>purges := m\<rparr>) \<and> guarded (s\<lparr>purges := m\<rparr>)"
    by (auto simp: store_wf_purges guarded_def tagged_def bound_tag_def recipientTagForMessageLocked_def)
qed (auto simp: store_wf_addMessageLocked store_wf_storeAck store_wf_deleteMessageLocked
      store_wf_deleteAckLocked store_wf_caps guarded_addMessageLocked guarded_storeAck
      guarded_deleteMessageLocked guarded_deleteAckLocked insertable_def envelope_ok_def record_ok_def)

context store_order
begin

lemma guarded_run: "store_wf s \<Longrightarrow> guarded s \<Longrightarrow> clocked T rs \<Longrightarrow> guarded (store_run rng rs s)"
  using guard.keeps_run [of s T rs] by blast

end

section \<open>A tagged binding is never replaced\<close>

text \<open>The binding of a message is gone or still carries the tag.\<close>

definition settled :: "string \<Rightarrow> string \<Rightarrow> Store \<Rightarrow> bool" where
  "settled m t s \<longleftrightarrow> recipientTagForMessageLocked m s \<in> {None, Some t}"

lemma settled_delete:
  "settled m t s \<Longrightarrow> settled m t (deleteMessageLocked k s)"
  "settled m t s \<Longrightarrow> settled m t (deleteAckLocked k s)"
  "settled m t s \<Longrightarrow> settled m t (deletePurge h s)"
  "settled m t s \<Longrightarrow> settled m t (storePurgeLocked p s)"
proof -
  assume s: "settled m t s"
  show "settled m t (deleteMessageLocked k s)"
    using s by (cases "fmlookup (messages s) k")
      (auto simp: settled_def recipientTag_points(3) recipientTag_release)
  show "settled m t (deleteAckLocked k s)"
    using s by (cases "fmlookup (acks s) k")
      (auto simp: settled_def recipientTag_points(4) recipientTag_release)
  show "settled m t (deletePurge h s)" "settled m t (storePurgeLocked p s)"
    using s
    by (auto simp: settled_def recipientTagForMessageLocked_def deletePurge_def storePurgeLocked_def)
qed

lemma recipientTag_insert:
  assumes "recipientTagForMessageLocked m s = Some t" "t \<noteq> []"
  shows "recipientTagForMessageLocked m (addMessageLocked e c s) = Some t"
    "recipientTagForMessageLocked m (storeAck a s) = Some t"
  using assms by (auto simp: recipientTag_points recipientTag_bind bound_tag_def)

lemma settled_expire: "settled m t s \<Longrightarrow> settled m t (expireLocked rng now s)"
  unfolding expireLocked_def
  by (intro sweep_invariant [where P = "settled m t"]) (simp_all add: settled_delete)

lemma settled_purgeOwner: "settled m t s \<Longrightarrow> settled m t (snd (snd (purgeOwnerLocked rng h s)))"
proof -
  have "settled m t (snd (snd (purgeMessageLocked rng k x)))" if "settled m t (snd (snd x))" for k x
    using that
    by (auto simp: purgeMessageLocked_def Let_def settled_delete
        intro!: fold_invariant [where P = "settled m t"] split: prod.splits)
  then show "settled m t s \<Longrightarrow> ?thesis"
    by (auto simp: purgeOwnerLocked_def Let_def
        intro!: fold_invariant [where P = "\<lambda>x. settled m t (snd (snd x))"])
qed

lemma settled_reads:
  assumes "settled m t s"
  shows "settled m t (snd (MessagesForRecipient rng now r limit auth s))"
    "settled m t (snd (AcksForSender rng now r limit auth s))"
proof -
  have "settled m t (snd (fold (messagesLoop now (TrimSpace r) auth) ks ([], s)))" for ks
    by (rule fold_invariant [where P = "\<lambda>x. settled m t (snd x)"])
       (use assms in \<open>auto simp: messagesLoop_def settled_delete split: option.splits\<close>)
  then show "settled m t (snd (MessagesForRecipient rng now r limit auth s))"
    using assms by (auto simp: MessagesForRecipient_def Let_def case_prod_beta)
  have "settled m t (snd (fold (acksLoop now (TrimSpace r) auth) ks ([], s)))" for ks
    by (rule fold_invariant [where P = "\<lambda>x. settled m t (snd x)"])
       (use assms in \<open>auto simp: acksLoop_def settled_delete split: option.splits\<close>)
  then show "settled m t (snd (AcksForSender rng now r limit auth s))"
    using assms by (auto simp: AcksForSender_def Let_def case_prod_beta)
qed

lemma settled_post:
  assumes "recipientTagForMessageLocked m s = Some t" "t \<noteq> []" "0 \<le> now"
  shows "settled m t (snd (snd (AddMessageWithGrant now e nid g s)))"
proof (cases "AddMessageWithGrant now e nid g s")
  case (fields r err s')
  show ?thesis
  proof (cases err)
    case None
    from assms(3) fields [unfolded None] obtain e' where
      "s' = addMessageLocked e' (grant_Credential g) (storeAck (nodeReceivedAck e' nid now) s)"
      by (rule AddMessageWithGrant_stored)
    with fields show ?thesis
      by (simp add: settled_def recipientTag_insert assms(1,2))
  next
    case Some
    with AddMessageWithGrant_refused [OF assms(3)] fields have "s' = s" by blast
    with fields assms(1) show ?thesis by (simp add: settled_def)
  qed
qed

lemma settled_landAck:
  assumes "recipientTagForMessageLocked m s = Some t" "t \<noteq> []"
  shows "settled m t (landAck a s)"
  using recipientTag_insert(2) [OF assms, of a] settled_delete(1) [of m t "storeAck a s"]
  by (simp add: landAck_def settled_def)

lemma settled_ack:
  assumes "recipientTagForMessageLocked m s = Some t" "t \<noteq> []" "0 \<le> now"
  shows "settled m t (snd (AddAckWithGrant now a nid g auth s))"
proof (cases "checkAck now nid g s a")
  case (Inl err)
  with assms(1) show ?thesis by (simp add: AddAckWithGrant_def settled_def)
next
  case (Inr a')
  have "settled m t s" using assms(1) by (simp add: settled_def)
  then show ?thesis
    by (simp add: AddAckWithGrant_Inr [OF Inr assms(3)] settled_landAck assms(1,2))
qed

end
