(* ===== verification/Queue_Reads.thy ===== *)
theory Queue_Reads
  imports Queue_Auth
begin

text \<open>
  The two read operations: which records a fetch returns, in which order, and what it leaves.
\<close>

section \<open>The oldest of a list\<close>

text \<open>\<open>out\<close> is the \<open>n\<close> records of \<open>V\<close> with the least key, in ascending order of the key.\<close>

definition oldest_of :: "nat \<Rightarrow> ('a \<Rightarrow> 'b :: linorder) \<Rightarrow> 'a set \<Rightarrow> 'a list \<Rightarrow> bool" where
  "oldest_of n f V out \<longleftrightarrow>
     set out \<subseteq> V \<and> distinct out \<and> sorted (map f out) \<and> length out = min n (card V) \<and>
     (\<forall>x\<in>set out. \<forall>y\<in>V - set out. f x \<le> f y)"

lemma oldest_of_sort:
  assumes "distinct xs"
  shows "oldest_of n f (set xs) (take n (sort_key f xs))"
proof -
  let ?ys = "sort_key f xs"
  have d: "distinct ?ys" using assms by simp
  have "f x \<le> f y" if "x \<in> set (take n ?ys)" "y \<in> set ?ys - set (take n ?ys)" for x y
  proof -
    from that(2) have "y \<in> set (drop n ?ys)"
      by (metis Diff_iff Un_iff append_take_drop_id set_append)
    moreover have "sorted (map f (take n ?ys @ drop n ?ys))" by simp
    ultimately show ?thesis using that(1) unfolding map_append sorted_append by simp
  qed
  moreover have "sorted (map f (take n ?ys))"
    by (simp add: take_map [symmetric] sorted_wrt_take)
  ultimately show ?thesis
    using d by (auto simp: oldest_of_def distinct_card [OF assms] dest: in_set_takeD)
qed

section \<open>What a fetch may see\<close>

definition inbox :: "time \<Rightarrow> string \<Rightarrow> Auth \<Rightarrow> Store \<Rightarrow> MessageEnvelope set" where
  "inbox now recipient auth s =
     {e. (\<exists>k. fmlookup (messages s) k = Some e) \<and> now < env_ExpiresAt e \<and>
         env_Recipient e = recipient \<and> permits auth (env_RecipientTag e)}"

definition ack_lane :: "time \<Rightarrow> string \<Rightarrow> Auth \<Rightarrow> Store \<Rightarrow> AckRecord set" where
  "ack_lane now sender auth s =
     {a. (\<exists>k. fmlookup (acks s) k = Some a) \<and> now < ack_ExpiresAt a \<and>
         ack_Sender a = sender \<and> permits auth (ack_SenderTag a)}"

lemma messagesLoop_collect:
  "messagesLoop now r auth =
     collect messages deleteMessageLocked (message_dead now)
       (\<lambda>e. env_Recipient e = r \<and> permits auth (env_RecipientTag e))"
  by (intro ext) (auto simp: messagesLoop_def collect_def message_dead_def split: option.splits)

lemma acksLoop_collect:
  "acksLoop now r auth =
     collect acks deleteAckLocked (ack_dead now)
       (\<lambda>a. ack_Sender a = r \<and> permits auth (ack_SenderTag a))"
  by (intro ext) (auto simp: acksLoop_def collect_def ack_dead_def split: option.splits)

context store_order
begin

lemma MessagesForRecipient_result:
  assumes wf: "store_wf s" and ne: "TrimSpace r \<noteq> []"
    and call: "MessagesForRecipient rng now r limit auth s = (out, s')"
  shows "oldest_of (readLimit limit) env_CreatedAt (inbox now (TrimSpace r) auth s) out"
    "s' = sweep rng messages (message_dead now) deleteMessageLocked s"
proof -
  obtain xs where loop: "fold (messagesLoop now (TrimSpace r) auth) (rng (fmdom (messages s))) ([], s) = (xs, s')"
    and out: "out = take (readLimit limit) (sort_key env_CreatedAt xs)"
    using call ne by (auto simp: MessagesForRecipient_def Let_def split: prod.splits)
  note res = message_sweep.collect_table [OF loop [unfolded messagesLoop_collect]]
  have "distinct xs"
    unfolding res(1) using wf
    by (intro distinct_picked [where key = env_ID] rng_distinct) (auto simp: store_wf_def keys_ok_def)
  moreover have "set xs = inbox now (TrimSpace r) auth s"
    unfolding res(1) message_sweep.set_collect by (auto simp: inbox_def message_dead_def)
  ultimately show "oldest_of (readLimit limit) env_CreatedAt (inbox now (TrimSpace r) auth s) out"
    using oldest_of_sort [of xs "readLimit limit" env_CreatedAt] out by simp
  show "s' = sweep rng messages (message_dead now) deleteMessageLocked s" by (rule res(2))
qed

lemma AcksForSender_result:
  assumes wf: "store_wf s" and ne: "TrimSpace r \<noteq> []"
    and call: "AcksForSender rng now r limit auth s = (out, s')"
  shows "oldest_of (readLimit limit) ack_CreatedAt (ack_lane now (TrimSpace r) auth s) out"
    "s' = sweep rng acks (ack_dead now) deleteAckLocked s"
proof -
  obtain xs where loop: "fold (acksLoop now (TrimSpace r) auth) (rng (fmdom (acks s))) ([], s) = (xs, s')"
    and out: "out = take (readLimit limit) (sort_key ack_CreatedAt xs)"
    using call ne by (auto simp: AcksForSender_def Let_def split: prod.splits)
  note res = ack_sweep.collect_table [OF loop [unfolded acksLoop_collect]]
  have "distinct xs"
    unfolding res(1) using wf
    by (intro distinct_picked [where key = ack_ID] rng_distinct) (auto simp: store_wf_def keys_ok_def)
  moreover have "set xs = ack_lane now (TrimSpace r) auth s"
    unfolding res(1) ack_sweep.set_collect by (auto simp: ack_lane_def ack_dead_def)
  ultimately show "oldest_of (readLimit limit) ack_CreatedAt (ack_lane now (TrimSpace r) auth s) out"
    using oldest_of_sort [of xs "readLimit limit" ack_CreatedAt] out by simp
  show "s' = sweep rng acks (ack_dead now) deleteAckLocked s" by (rule res(2))
qed

end

end
