(* ===== verification/Queue_Sync.thy ===== *)
theory Queue_Sync
  imports Queue_Reads
begin

text \<open>
  The replication cursor. Arrival numbers are distinct and increasing for as long as fewer than
  \<open>2 ^ 64\<close> records have been inserted; a snapshot page is then exactly the records whose arrival
  numbers lie between the caller's cursor and the cursor the page returns.
\<close>

section \<open>Arrival numbers\<close>

text \<open>The arrival number of a record, an ack or a message by its id.\<close>

definition arrival :: "Store \<Rightarrow> bool \<times> string \<Rightarrow> uint64 option" where
  "arrival s = (\<lambda>(isAck, k). fmlookup (if isAck then ackSeq s else messageSeq s) k)"

definition seq_ok :: "nat \<Rightarrow> Store \<Rightarrow> bool" where
  "seq_ok n s \<longleftrightarrow>
     (n < 2 ^ 64 \<longrightarrow>
        unat (seq s) \<le> n \<and>
        (\<forall>x v. arrival s x = Some v \<longrightarrow> 0 < v \<and> v \<le> seq s) \<and>
        (\<forall>x y v. arrival s x = Some v \<longrightarrow> arrival s y = Some v \<longrightarrow> x = y))"

lemma seq_okD:
  assumes "seq_ok n s" "n < 2 ^ 64"
  shows "unat (seq s) \<le> n"
    "arrival s x = Some v \<Longrightarrow> 0 < v" "arrival s x = Some v \<Longrightarrow> v \<le> seq s"
    "arrival s x = Some v \<Longrightarrow> arrival s y = Some v \<Longrightarrow> x = y"
  using assms unfolding seq_ok_def by blast+

lemma seq_ok_more: "seq_ok n s \<Longrightarrow> n \<le> n' \<Longrightarrow> seq_ok n' s"
  by (auto simp: seq_ok_def)

lemma seq_succ:
  fixes x :: uint64
  assumes "unat x \<le> n" "n + 1 < 2 ^ 64"
  shows "x < x + 1" "unat (x + 1) \<le> n + 1"
proof -
  have "unat (x + 1) = unat x + 1"
    using assms by (simp add: unat_word_ariths)
  then show "x < x + 1" "unat (x + 1) \<le> n + 1"
    using assms by (simp_all add: word_less_nat_alt)
qed

lemma seq_ok_insert:
  assumes ok: "seq_ok n s" and "seq s' = seq s + 1" and upd: "arrival s' = (arrival s)(x \<mapsto> seq s + 1)"
  shows "seq_ok (n + 1) s'"
proof (cases "n + 1 < 2 ^ 64")
  case True
  then have n: "n < 2 ^ 64" by simp
  note old = seq_okD [OF ok n]
  note up = seq_succ [OF old(1) True]
  have lt: "v < seq s + 1" if "arrival s y = Some v" for y v
    using old(3) [OF that] up(1) by (rule le_less_trans)
  have "0 < v \<and> v \<le> seq s'" if "arrival s' y = Some v" for y v
    using that lt [of y v] old(2) [of y v] up(1) unfolding upd assms(2)
    by (auto simp: less_imp_le split: if_splits intro: le_less_trans [OF word_zero_le])
  moreover have "y = z" if "arrival s' y = Some v" "arrival s' z = Some v" for y z v
    using that lt [of y "seq s + 1"] lt [of z "seq s + 1"] old(4) [of y v z] unfolding upd
    by (auto split: if_splits)
  ultimately show ?thesis
    using up(2) unfolding seq_ok_def assms(2) [symmetric] by blast
qed (simp add: seq_ok_def)

lemma seq_ok_less:
  assumes ok: "seq_ok n s" and "seq s' = seq s"
    and less: "\<And>x v. arrival s' x = Some v \<Longrightarrow> arrival s x = Some v"
  shows "seq_ok n s'"
proof (cases "n < 2 ^ 64")
  case True
  note old = seq_okD [OF ok True]
  show ?thesis
    unfolding seq_ok_def assms(2) using old(1,2,3) less old(4) [OF less less] by blast
qed (simp add: seq_ok_def)

lemma arrival_points:
  "arrival (addMessageLocked e c s) = (arrival s)((False, env_ID e) \<mapsto> seq s + 1)"
  "arrival (storeAck a s) = (arrival s)((True, ack_ID a) \<mapsto> seq s + 1)"
  "fmlookup (messages s) k = Some e' \<Longrightarrow> arrival (deleteMessageLocked k s) = (arrival s)((False, k) := None)"
  "fmlookup (acks s) k = Some a' \<Longrightarrow> arrival (deleteAckLocked k s) = (arrival s)((True, k) := None)"
  "arrival (s\<lparr>purges := m\<rparr>) = arrival s"
  by (auto simp: arrival_def fun_eq_iff frame_simps deleteMessageLocked_held deleteAckLocked_held)

sublocale store_order \<subseteq> cursor: point_invariant rng T "\<lambda>n s. store_wf s \<and> seq_ok n s" for T
proof unfold_locales
  fix n :: nat and s now e c
  assume "store_wf s \<and> seq_ok n s" "insertable now s e"
  then show "store_wf (addMessageLocked e c s) \<and> seq_ok (n + 1) (addMessageLocked e c s)"
    using seq_ok_insert [OF _ addMessageLocked_fields(7) arrival_points(1)]
    by (simp add: store_wf_addMessageLocked)
next
  fix n :: nat and s now a
  assume "store_wf s \<and> seq_ok n s" "record_ok now s a" "fmlookup (acks s) (ack_ID a) = None"
    "go_len (acks s) < maxAcks s"
  then show "store_wf (storeAck a s) \<and> seq_ok (n + 1) (storeAck a s)"
    using seq_ok_insert [OF _ storeAck_fields(7) arrival_points(2)]
    by (simp add: store_wf_storeAck)
next
  fix n :: nat and s k e
  assume "store_wf s \<and> seq_ok n s" "fmlookup (messages s) k = Some e"
  then show "store_wf (deleteMessageLocked k s) \<and> seq_ok n (deleteMessageLocked k s)"
    by (auto simp: store_wf_deleteMessageLocked frame_simps arrival_points
        elim!: seq_ok_less split: if_splits)
next
  fix n :: nat and s k a
  assume "store_wf s \<and> seq_ok n s" "fmlookup (acks s) k = Some a"
  then show "store_wf (deleteAckLocked k s) \<and> seq_ok n (deleteAckLocked k s)"
    by (auto simp: store_wf_deleteAckLocked frame_simps arrival_points
        elim!: seq_ok_less split: if_splits)
qed (auto simp: seq_ok_more store_wf_purges store_wf_caps arrival_points elim!: seq_ok_less)

lemma seq_ok_NewStore: "seq_ok 0 (NewStore ep cfg)"
  by (auto simp: seq_ok_def arrival_def)

context store_order
begin

lemma seq_run:
  assumes "store_wf s" "seq_ok n s" "clocked T rs"
  shows "seq_ok (n + sum_list (map request_weight rs)) (store_run rng rs s)"
  using cursor.keeps_run [of s n T rs] assms by blast

lemma seq_expire: "store_wf s \<Longrightarrow> seq_ok n s \<Longrightarrow> seq_ok n (expireLocked rng now s)"
  using cursor.keeps_expire [of s n now now] by blast

end

section \<open>A page\<close>

definition waiting :: "uint64 \<Rightarrow> Store \<Rightarrow> snapshot_ref set" where
  "waiting since s = {r. arrival s (ref_isAck r, ref_id r) = Some (ref_seq r) \<and> since < ref_seq r}"

lemma waiting_inj:
  assumes "seq_ok n s" "n < 2 ^ 64" "r \<in> waiting since s" "r' \<in> waiting since s" "ref_seq r = ref_seq r'"
  shows "r = r'"
  using seq_okD(4) [OF assms(1,2), of "(ref_isAck r, ref_id r)" "ref_seq r" "(ref_isAck r', ref_id r')"] assms(3-5)
  by (cases r, cases r') (simp add: waiting_def)

definition page_refs :: "(string fset \<Rightarrow> string list) \<Rightarrow> uint64 \<Rightarrow> nat \<Rightarrow> Store \<Rightarrow> snapshot_ref list" where
  "page_refs rng since n s = take n (sort_key ref_seq
     (pendingRefs rng since False (messageSeq s) @ pendingRefs rng since True (ackSeq s)))"

text \<open>The cursor a page returns: the last arrival number on it, or the caller's where it is empty.\<close>

definition page_next :: "uint64 \<Rightarrow> snapshot_ref list \<Rightarrow> uint64" where
  "page_next since page = (if page = [] then since else ref_seq (last page))"

lemma page_prefix:
  assumes page: "oldest_of n ref_seq W page" and fin: "finite W"
    and inj: "inj_on ref_seq W" and above: "\<forall>r\<in>W. since < ref_seq r"
  shows "set page = {r \<in> W. ref_seq r \<le> page_next since page}"
    and "page \<noteq> [] \<Longrightarrow> since < page_next since page"
    and "0 < n \<Longrightarrow> n < card W \<longleftrightarrow> (\<exists>r\<in>W. page_next since page < ref_seq r)"
proof -
  have sub: "set page \<subseteq> W" and d: "distinct page" and srt: "sorted (map ref_seq page)"
    and len: "length page = min n (card W)"
    and rest: "\<And>x y. x \<in> set page \<Longrightarrow> y \<in> W - set page \<Longrightarrow> ref_seq x \<le> ref_seq y"
    using page by (auto simp: oldest_of_def)
  have last: "ref_seq x \<le> ref_seq (last page)" if "x \<in> set page" for x
    using that srt by (induction page) (auto split: if_splits)
  show set: "set page = {r \<in> W. ref_seq r \<le> page_next since page}"
  proof (intro equalityI subsetI)
    fix r assume "r \<in> set page"
    with sub last show "r \<in> {r \<in> W. ref_seq r \<le> page_next since page}"
      by (auto simp: page_next_def)
  next
    fix r assume r: "r \<in> {r \<in> W. ref_seq r \<le> page_next since page}"
    show "r \<in> set page"
    proof (cases "page = []")
      case True
      with r above show ?thesis by (auto simp: page_next_def)
    next
      case False
      show ?thesis
      proof (rule ccontr)
        assume "r \<notin> set page"
        with rest [of "last page" r] r False have "ref_seq r = ref_seq (last page)"
          by (auto simp: page_next_def intro: antisym)
        moreover have "last page \<in> W" using sub False last_in_set by blast
        ultimately have "r = last page" using inj r by (auto dest: inj_onD)
        with False \<open>r \<notin> set page\<close> show False by simp
      qed
    qed
  qed
  show "since < page_next since page" if "page \<noteq> []"
    using that bspec [OF above subsetD [OF sub last_in_set [OF that]]] by (simp add: page_next_def)
  show "n < card W \<longleftrightarrow> (\<exists>r\<in>W. page_next since page < ref_seq r)" if "0 < n"
  proof -
    have "n < card W \<longleftrightarrow> card (set page) < card W"
      using len distinct_card [OF d] by auto
    also have "\<dots> \<longleftrightarrow> set page \<noteq> W"
      using sub fin psubset_card_mono [of W "set page"] by auto
    also have "\<dots> \<longleftrightarrow> (\<exists>r\<in>W. page_next since page < ref_seq r)"
      unfolding set by (auto simp: set_eq_iff not_le [symmetric])
    finally show ?thesis .
  qed
qed

lemma appendRef_fold:
  "sync_Messages (fold (appendRef s) rs p) = sync_Messages p @
     map (\<lambda>r. case fmlookup (messages s) (ref_id r) of None \<Rightarrow> zero_MessageEnvelope | Some e \<Rightarrow> e)
       (filter (\<lambda>r. \<not> ref_isAck r) rs)"
  "sync_Acks (fold (appendRef s) rs p) = sync_Acks p @
     map (\<lambda>r. case fmlookup (acks s) (ref_id r) of None \<Rightarrow> zero_AckRecord | Some a \<Rightarrow> a)
       (filter ref_isAck rs)"
  "sync_NextSeq (fold (appendRef s) rs p) = (if rs = [] then sync_NextSeq p else ref_seq (last rs))"
  "sync_More (fold (appendRef s) rs p) = sync_More p"
  "sync_Epoch (fold (appendRef s) rs p) = sync_Epoch p"
  by (induction rs arbitrary: p) (auto simp: appendRef_def Let_def)

context store_order
begin

lemma set_pendingRefs:
  "set (pendingRefs rng since b seqs) =
     {r. fmlookup seqs (ref_id r) = Some (ref_seq r) \<and> since < ref_seq r \<and> ref_isAck r = b}"
proof -
  have "r \<in> set (pendingRefs rng since b seqs) \<longleftrightarrow>
      fmlookup seqs (ref_id r) = Some (ref_seq r) \<and> since < ref_seq r \<and> ref_isAck r = b" for r
    by (cases r) (auto simp: pendingRefs_def rng_dom fmlookup_dom'_iff split: option.splits if_splits)
  then show ?thesis by blast
qed

lemma distinct_pendingRefs: "distinct (pendingRefs rng since b seqs)"
proof -
  have "distinct (concat (map (\<lambda>k. case fmlookup seqs k of None \<Rightarrow> []
      | Some n \<Rightarrow> if n > since then [\<lparr>ref_seq = n, ref_id = k, ref_isAck = b\<rparr>] else []) ks))"
    if "distinct ks" for ks
    using that by (induction ks) (auto split: option.splits)
  then show ?thesis by (simp add: pendingRefs_def rng_distinct)
qed

lemma pending_refs:
  defines "xs \<equiv> \<lambda>since s. pendingRefs rng since False (messageSeq s) @ pendingRefs rng since True (ackSeq s)"
  shows "set (xs since s) = waiting since s" "distinct (xs since s)"
  unfolding xs_def set_append distinct_append set_pendingRefs
  by (auto simp: waiting_def arrival_def distinct_pendingRefs split: if_splits)

lemma page_oldest: "oldest_of n ref_seq (waiting since s) (page_refs rng since n s)"
  using oldest_of_sort [OF pending_refs(2) [of since s], of n ref_seq]
  unfolding pending_refs(1) page_refs_def .

text \<open>What a page holds, as one predicate over the store the snapshot left.\<close>

end

definition sent_messages :: "uint64 \<Rightarrow> uint64 \<Rightarrow> Store \<Rightarrow> MessageEnvelope set" where
  "sent_messages lo hi s =
     {e. \<exists>k v. fmlookup (messages s) k = Some e \<and> fmlookup (messageSeq s) k = Some v \<and> lo < v \<and> v \<le> hi}"

definition sent_acks :: "uint64 \<Rightarrow> uint64 \<Rightarrow> Store \<Rightarrow> AckRecord set" where
  "sent_acks lo hi s =
     {a. \<exists>k v. fmlookup (acks s) k = Some a \<and> fmlookup (ackSeq s) k = Some v \<and> lo < v \<and> v \<le> hi}"

definition page_ok :: "uint64 \<Rightarrow> nat \<Rightarrow> Store \<Rightarrow> SyncPayload \<Rightarrow> bool" where
  "page_ok since n s p \<longleftrightarrow>
     set (sync_Messages p) = sent_messages since (sync_NextSeq p) s \<and> distinct (sync_Messages p) \<and>
     set (sync_Acks p) = sent_acks since (sync_NextSeq p) s \<and> distinct (sync_Acks p) \<and>
     length (sync_Messages p) + length (sync_Acks p) \<le> n \<and>
     since \<le> sync_NextSeq p \<and>
     (sync_More p \<longleftrightarrow> (\<exists>x v. arrival s x = Some v \<and> sync_NextSeq p < v)) \<and>
     (sync_More p \<longrightarrow> since < sync_NextSeq p \<and> length (sync_Messages p) + length (sync_Acks p) = n)"

context store_order
begin

lemma finite_waiting: "finite (waiting since s)"
  unfolding pending_refs(1) [symmetric] by simp

lemma SnapshotSince_fields:
  assumes "SnapshotSince rng now since limit s = (p, s')"
  defines "n \<equiv> nat (if limit \<le> 0 then 500 else limit)"
  shows "s' = expireLocked rng now s"
    "sync_Messages p = map (\<lambda>r. case fmlookup (messages s') (ref_id r) of
        None \<Rightarrow> zero_MessageEnvelope | Some e \<Rightarrow> e) (filter (\<lambda>r. \<not> ref_isAck r) (page_refs rng since n s'))"
    "sync_Acks p = map (\<lambda>r. case fmlookup (acks s') (ref_id r) of
        None \<Rightarrow> zero_AckRecord | Some a \<Rightarrow> a) (filter ref_isAck (page_refs rng since n s'))"
    "sync_NextSeq p = page_next since (page_refs rng since n s')"
    "sync_More p \<longleftrightarrow> n < card (waiting since s')"
    "set (sync_Purges p) = {q. \<exists>h. fmlookup (purges s') h = Some q}"
    "sync_Epoch p = epoch s'" "0 < n"
proof -
  let ?xs = "pendingRefs rng since False (messageSeq s') @ pendingRefs rng since True (ackSeq s')"
  let ?limit = "if limit \<le> 0 then 500 else limit"
  show s': "s' = expireLocked rng now s"
    using assms(1) by (simp add: SnapshotSince_def Let_def)
  have len: "length ?xs = card (waiting since s')"
    using distinct_card [OF pending_refs(2) [of since s']] by (simp only: pending_refs(1))
  have lim: "int (length ys) > ?limit \<longleftrightarrow> n < length ys" for ys :: "snapshot_ref list"
    by (auto simp: n_def)
  have cut: "(if int (length ys) > ?limit then take (nat ?limit) ys else ys) = take n ys"
    for ys :: "snapshot_ref list"
    by (auto simp: n_def)
  note eqs = assms(1) [unfolded SnapshotSince_def Let_def, folded s', unfolded cut,
      folded page_refs_def, unfolded prod.inject, THEN conjunct1, symmetric]
  show "sync_Messages p = map (\<lambda>r. case fmlookup (messages s') (ref_id r) of
        None \<Rightarrow> zero_MessageEnvelope | Some e \<Rightarrow> e) (filter (\<lambda>r. \<not> ref_isAck r) (page_refs rng since n s'))"
    "sync_Acks p = map (\<lambda>r. case fmlookup (acks s') (ref_id r) of
        None \<Rightarrow> zero_AckRecord | Some a \<Rightarrow> a) (filter ref_isAck (page_refs rng since n s'))"
    "sync_NextSeq p = page_next since (page_refs rng since n s')"
    "sync_Epoch p = epoch s'"
    unfolding eqs by (simp_all add: appendRef_fold page_next_def)
  show "sync_More p \<longleftrightarrow> n < card (waiting since s')"
    unfolding eqs using len lim [of ?xs] by (simp add: appendRef_fold)
  show "set (sync_Purges p) = {q. \<exists>h. fmlookup (purges s') h = Some q}"
    unfolding eqs by (auto simp: rng_dom Bex_def fmlookup_dom'_iff eq_commute [of "Some _"]
        split: option.splits) blast
  show "0 < n" by (simp add: n_def)
qed

lemma distinct_map_refs:
  assumes "distinct xs" and "\<And>r. r \<in> set xs \<Longrightarrow> key (f r) = ref_id r" and "\<And>r. r \<in> set xs \<Longrightarrow> ref_isAck r = b"
    and "set xs \<subseteq> waiting since s"
  shows "distinct (map f xs)"
proof -
  have "inj_on f (set xs)"
  proof (rule inj_onI)
    fix r r' assume rr: "r \<in> set xs" "r' \<in> set xs" "f r = f r'"
    then have "ref_id r = ref_id r'" "ref_isAck r = ref_isAck r'" using assms(2,3) by metis+
    moreover have "arrival s (ref_isAck r, ref_id r) = Some (ref_seq r)"
      "arrival s (ref_isAck r', ref_id r') = Some (ref_seq r')"
      using rr(1,2) assms(4) by (auto simp: waiting_def)
    ultimately show "r = r'" by (cases r, cases r') simp
  qed
  with assms(1) show ?thesis by (simp add: distinct_map)
qed

lemma waiting_held:
  assumes "store_wf s" "r \<in> waiting since s"
  shows "\<not> ref_isAck r \<Longrightarrow> \<exists>e. fmlookup (messages s) (ref_id r) = Some e \<and> env_ID e = ref_id r \<and>
           fmlookup (messageSeq s) (ref_id r) = Some (ref_seq r)"
    "ref_isAck r \<Longrightarrow> \<exists>a. fmlookup (acks s) (ref_id r) = Some a \<and> ack_ID a = ref_id r \<and>
           fmlookup (ackSeq s) (ref_id r) = Some (ref_seq r)"
proof -
  have dom: "fmdom (messageSeq s) = fmdom (messages s)" "fmdom (ackSeq s) = fmdom (acks s)"
    and keys: "\<And>k e. fmlookup (messages s) k = Some e \<Longrightarrow> env_ID e = k"
      "\<And>k a. fmlookup (acks s) k = Some a \<Longrightarrow> ack_ID a = k"
    using assms(1) by (auto simp: store_wf_def seqs_ok_def keys_ok_def)
  have seqs: "fmlookup (if ref_isAck r then ackSeq s else messageSeq s) (ref_id r) = Some (ref_seq r)"
    using assms(2) by (simp add: waiting_def arrival_def)
  show "\<exists>e. fmlookup (messages s) (ref_id r) = Some e \<and> env_ID e = ref_id r \<and>
           fmlookup (messageSeq s) (ref_id r) = Some (ref_seq r)" if "\<not> ref_isAck r"
    using that seqs fmdomI [of "messageSeq s" "ref_id r"] keys(1) by (auto simp: dom fmlookup_dom_iff)
  show "\<exists>a. fmlookup (acks s) (ref_id r) = Some a \<and> ack_ID a = ref_id r \<and>
           fmlookup (ackSeq s) (ref_id r) = Some (ref_seq r)" if "ref_isAck r"
    using that seqs fmdomI [of "ackSeq s" "ref_id r"] keys(2) by (auto simp: dom fmlookup_dom_iff)
qed

lemma page_messages:
  assumes wf: "store_wf s" and page: "set page = {r \<in> waiting since s. ref_seq r \<le> hi}" "distinct page"
  defines "xs \<equiv> map (\<lambda>r. case fmlookup (messages s) (ref_id r) of
        None \<Rightarrow> zero_MessageEnvelope | Some e \<Rightarrow> e) (filter (\<lambda>r. \<not> ref_isAck r) page)"
  shows "set xs = sent_messages since hi s" "distinct xs"
proof -
  note held = waiting_held(1) [OF wf]
  show "set xs = sent_messages since hi s"
  proof (intro equalityI subsetI)
    fix e assume "e \<in> set xs"
    then obtain r where r: "r \<in> waiting since s" "ref_seq r \<le> hi" "\<not> ref_isAck r"
      "e = (case fmlookup (messages s) (ref_id r) of None \<Rightarrow> zero_MessageEnvelope | Some x \<Rightarrow> x)"
      by (auto simp: xs_def page(1))
    with held [OF r(1,3)] show "e \<in> sent_messages since hi s"
      by (auto simp: sent_messages_def waiting_def)
  next
    fix e assume "e \<in> sent_messages since hi s"
    then obtain k v where kv: "fmlookup (messages s) k = Some e" "fmlookup (messageSeq s) k = Some v"
      "since < v" "v \<le> hi" by (auto simp: sent_messages_def)
    then have "\<lparr>ref_seq = v, ref_id = k, ref_isAck = False\<rparr> \<in> set page"
      by (simp add: page(1) waiting_def arrival_def)
    then have "\<lparr>ref_seq = v, ref_id = k, ref_isAck = False\<rparr> \<in> set (filter (\<lambda>r. \<not> ref_isAck r) page)"
      by simp
    then show "e \<in> set xs"
      unfolding xs_def set_map by (rule image_eqI [rotated]) (simp add: kv(1))
  qed
  show "distinct xs"
    unfolding xs_def
  proof (rule distinct_map_refs [where key = env_ID and b = False and since = since and s = s])
    fix r assume "r \<in> set (filter (\<lambda>r. \<not> ref_isAck r) page)"
    then have "r \<in> waiting since s" "ref_isAck r = False" by (simp_all add: page(1))
    then show "env_ID (case fmlookup (messages s) (ref_id r) of None \<Rightarrow> zero_MessageEnvelope | Some x \<Rightarrow> x) = ref_id r"
      using held [of r since] by auto
  qed (use page in auto)
qed

lemma page_acks:
  assumes wf: "store_wf s" and page: "set page = {r \<in> waiting since s. ref_seq r \<le> hi}" "distinct page"
  defines "xs \<equiv> map (\<lambda>r. case fmlookup (acks s) (ref_id r) of
        None \<Rightarrow> zero_AckRecord | Some a \<Rightarrow> a) (filter ref_isAck page)"
  shows "set xs = sent_acks since hi s" "distinct xs"
proof -
  note held = waiting_held(2) [OF wf]
  show "set xs = sent_acks since hi s"
  proof (intro equalityI subsetI)
    fix a assume "a \<in> set xs"
    then obtain r where r: "r \<in> waiting since s" "ref_seq r \<le> hi" "ref_isAck r"
      "a = (case fmlookup (acks s) (ref_id r) of None \<Rightarrow> zero_AckRecord | Some x \<Rightarrow> x)"
      by (auto simp: xs_def page(1))
    with held [OF r(1,3)] show "a \<in> sent_acks since hi s"
      by (auto simp: sent_acks_def waiting_def)
  next
    fix a assume "a \<in> sent_acks since hi s"
    then obtain k v where kv: "fmlookup (acks s) k = Some a" "fmlookup (ackSeq s) k = Some v"
      "since < v" "v \<le> hi" by (auto simp: sent_acks_def)
    then have "\<lparr>ref_seq = v, ref_id = k, ref_isAck = True\<rparr> \<in> set page"
      by (simp add: page(1) waiting_def arrival_def)
    then have "\<lparr>ref_seq = v, ref_id = k, ref_isAck = True\<rparr> \<in> set (filter ref_isAck page)"
      by simp
    then show "a \<in> set xs"
      unfolding xs_def set_map by (rule image_eqI [rotated]) (simp add: kv(1))
  qed
  show "distinct xs"
    unfolding xs_def
  proof (rule distinct_map_refs [where key = ack_ID and b = True and since = since and s = s])
    fix r assume "r \<in> set (filter ref_isAck page)"
    then have "r \<in> waiting since s" "ref_isAck r = True" by (simp_all add: page(1))
    then show "ack_ID (case fmlookup (acks s) (ref_id r) of None \<Rightarrow> zero_AckRecord | Some x \<Rightarrow> x) = ref_id r"
      using held [of r since] by auto
  qed (use page in auto)
qed

lemma SnapshotSince_page:
  assumes wf: "store_wf s" and ok: "seq_ok m s" "m < 2 ^ 64"
    and call: "SnapshotSince rng now since limit s = (p, s')"
  shows "page_ok since (nat (if limit \<le> 0 then 500 else limit)) s' p"
proof -
  let ?n = "nat (if limit \<le> 0 then 500 else limit)"
  let ?W = "waiting since s'" and ?page = "page_refs rng since ?n s'"
  note fields = SnapshotSince_fields [OF call]
  have wf': "store_wf s'" and ok': "seq_ok m s'"
    unfolding fields(1) by (intro wf_expire wf, intro seq_expire wf ok)
  have old: "oldest_of ?n ref_seq ?W ?page" by (rule page_oldest)
  have above: "\<forall>r\<in>?W. since < ref_seq r" by (simp add: waiting_def)
  have inj: "inj_on ref_seq ?W"
    by (rule inj_onI) (rule waiting_inj [OF ok' ok(2)])
  note prefix = page_prefix [OF old finite_waiting inj above, folded fields(4)]
  have d: "distinct ?page" and len: "length ?page = min ?n (card ?W)"
    using old by (simp_all add: oldest_of_def)
  have total: "length (sync_Messages p) + length (sync_Acks p) = length ?page"
    unfolding fields(2,3) length_map using sum_length_filter_compl [of ref_isAck ?page] by simp
  have more: "sync_More p \<longleftrightarrow> (\<exists>r\<in>?W. sync_NextSeq p < ref_seq r)"
    unfolding fields(5) by (rule prefix(3) [OF fields(8)])
  have next_le: "since \<le> sync_NextSeq p"
    using prefix(2) by (cases "?page = []") (auto simp: fields(4) page_next_def)
  have "(\<exists>r\<in>?W. sync_NextSeq p < ref_seq r) \<longleftrightarrow> (\<exists>x v. arrival s' x = Some v \<and> sync_NextSeq p < v)"
  proof
    assume "\<exists>x v. arrival s' x = Some v \<and> sync_NextSeq p < v"
    then obtain b k v where "arrival s' (b, k) = Some v" "sync_NextSeq p < v" by auto
    with le_less_trans [OF next_le] show "\<exists>r\<in>?W. sync_NextSeq p < ref_seq r"
      by (intro bexI [of _ "\<lparr>ref_seq = v, ref_id = k, ref_isAck = b\<rparr>"]) (simp_all add: waiting_def)
  qed (auto simp: waiting_def)
  moreover have "?page \<noteq> []" if "sync_More p"
    using that len fields(5,8) by auto
  ultimately show ?thesis
    using page_messages [OF wf' prefix(1) d] page_acks [OF wf' prefix(1) d] total len more next_le prefix(2)
      fields(5)
    unfolding page_ok_def fields(2,3) [symmetric] by auto
qed

end

end
