(* ===== verification/Queue_Facts.thy ===== *)
theory Queue_Facts
  imports Queue_Sync
begin

text \<open>
  Facts about single requests that the properties of the store rest on: the outcome of a post
  read off the tables, what an accepted ack does, what an empty table leaves of the bookkeeping,
  and why a delivered message does not come back from a peer.
\<close>

section \<open>The outcome of a post\<close>

text \<open>The messages held for a lane, and the messages charged to a credential.\<close>

definition lane_count :: "string \<Rightarrow> string \<Rightarrow> Store \<Rightarrow> int" where
  "lane_count sender recipient s =
     int (card {k. \<exists>e. fmlookup (messages s) k = Some e \<and>
                       pairKey (env_Sender e) (env_Recipient e) = pairKey sender recipient})"

definition charged_count :: "uint32 \<Rightarrow> Store \<Rightarrow> int" where
  "charged_count c s = int (card {k. fmlookup (messageCredential s) k = Some c})"

lemma go_int_pairCounts: "store_wf s \<Longrightarrow> go_int (pairCounts s) (env_pair e) = lane_count (env_Sender e) (env_Recipient e) s"
  using agrees_go_int [of env_pair "messages s" "pairCounts s"]
  by (simp add: store_wf_def count_with_def lane_count_def env_pair_def)

lemma go_int_credentialCounts: "store_wf s \<Longrightarrow> go_int (credentialCounts s) c = charged_count c s"
  using agrees_go_int [of "\<lambda>c. c" "messageCredential s" "credentialCounts s"]
  by (simp add: store_wf_def credentials_ok_def count_with_def charged_count_def)

definition admits :: "time \<Rightarrow> Grant \<Rightarrow> MessageEnvelope \<Rightarrow> Store \<Rightarrow> bool" where
  "admits now g e s \<longleftrightarrow>
     fmlookup (messages s) (env_ID e) = None \<and> \<not> purgedLocked now e s \<and>
     lane_count (env_Sender e) (env_Recipient e) s < lowerOf (maxPerPair s) (grant_MaxPerPair g) \<and>
     (grant_Credential g \<noteq> 0 \<longrightarrow>
        charged_count (grant_Credential g) s < lowerOf (maxMessages s) (grant_Slots g)) \<and>
     go_len (messages s) < maxMessages s \<and>
     fmlookup (acks s) (env_ID e @ '':node_received'') = None \<and> go_len (acks s) < maxAcks s"

lemma AddMessage_admits:
  assumes "store_wf s" "0 \<le> now" "checkEnvelope now g s e = Inr e'"
  shows "fst (snd (AddMessageWithGrant now e nid g s)) = None \<longleftrightarrow> admits now g e' s"
  unfolding AddMessageWithGrant_Inr [OF assms(3,2)] admits_def go_int_pairCounts [OF assms(1)]
    go_int_credentialCounts [OF assms(1)]
  by (auto simp: not_le)

section \<open>The outcome of an ack\<close>

lemma landAck_fields:
  "messages (landAck a s) =
     (if deletesQueuedMessage (ack_Type a) then fmdrop (ack_MessageID a) (messages s) else messages s)"
  "acks (landAck a s) = fmupd (ack_ID a) a (acks s)"
  by (simp_all add: landAck_def frame_simps)

lemma AddAck_removes:
  assumes "0 \<le> now" "fmlookup (messages s) k = Some e"
    and "fmlookup (messages (snd (AddAckWithGrant now a nid g auth s))) k = None"
  shows "\<forall>t. recipientTagForMessageLocked k s = Some t \<longrightarrow> permits auth t"
proof (cases "checkAck now nid g s a")
  case (Inl err)
  with assms(2,3) show ?thesis by (simp add: AddAckWithGrant_def)
next
  case (Inr a')
  from assms(2,3) show ?thesis
    unfolding AddAckWithGrant_Inr [OF Inr assms(1)]
    by (auto simp: landAck_fields split: if_splits)
qed

section \<open>Empty tables leave empty bookkeeping\<close>

lemma fmempty_iff: "m = fmempty \<longleftrightarrow> (\<forall>k. fmlookup m k = None)"
  by (auto intro: fmap_ext)

lemma store_wf_empty:
  assumes wf: "store_wf s" and "messages s = fmempty" "acks s = fmempty"
  shows "pairCounts s = fmempty" "credentialCounts s = fmempty" "messageCredential s = fmempty"
    "messageSeq s = fmempty" "ackSeq s = fmempty" "messageTags s = fmempty"
    "messagesByPurge s = fmempty" "acksByMessage s = fmempty"
proof -
  show "pairCounts s = fmempty"
    using wf agrees_unique [OF _ agrees_empty] by (auto simp: store_wf_def assms(2))
  show mc: "messageCredential s = fmempty"
    using wf unfolding fmempty_iff
    by (auto simp: store_wf_def credentials_ok_def assms(2) fmdom_notI dest: fmdom_notD)
  show "credentialCounts s = fmempty"
    using wf agrees_unique [OF _ agrees_empty] by (auto simp: store_wf_def credentials_ok_def mc)
  show "messageSeq s = fmempty" "ackSeq s = fmempty"
    using wf unfolding fmempty_iff
    by (auto simp: store_wf_def seqs_ok_def assms(2,3) fmdom_notD)
  show "messageTags s = fmempty"
    using wf unfolding fmempty_iff by (auto simp: store_wf_def tags_ok_def record_count_def assms(2,3))
  show "messagesByPurge s = fmempty" "acksByMessage s = fmempty"
    using wf unfolding fmempty_iff by (auto simp: store_wf_def indexes_def ids_with_def assms(2,3))
qed

section \<open>A terminal ack keeps a message away\<close>

lemma hasTerminalAck_iff:
  assumes "store_wf s" "m \<noteq> []"
  shows "hasTerminalAckLocked m s \<longleftrightarrow>
    (\<exists>k a. fmlookup (acks s) k = Some a \<and> ack_MessageID a = m \<and> deletesQueuedMessage (ack_Type a))"
  using fset_index_ids [of ack_MessageID "acks s" "acksByMessage s" m] assms
  by (fastforce simp: hasTerminalAckLocked_def store_wf_def ids_with_def)

text \<open>A message that is not held while a terminal ack naming it is.\<close>

definition delivered :: "string \<Rightarrow> string \<Rightarrow> AckRecord \<Rightarrow> Store \<Rightarrow> bool" where
  "delivered m k a s \<longleftrightarrow> store_wf s \<and> fmlookup (messages s) m = None \<and> fmlookup (acks s) k = Some a \<and>
     ack_MessageID a = m \<and> deletesQueuedMessage (ack_Type a)"

lemma delivered_import_message:
  assumes "delivered m k a s"
  shows "delivered m k a (snd (importMessageLocked e now s))"
proof (cases "checkImportedEnvelope now s e")
  case (Inl err)
  with assms show ?thesis by (simp add: importMessageLocked_def)
next
  case (Inr e')
  note ok = checkImportedEnvelope_Inr [OF Inr]
  have "hasTerminalAckLocked (env_ID e') s" if "env_ID e' = m"
    using that hasTerminalAck_iff [of s "env_ID e'"] assms ok
    by (auto simp: delivered_def envelope_ok_def)
  moreover have "store_wf (addMessageLocked e' 0 s)" if "insertable now s e'"
    using that assms by (auto simp: delivered_def intro: store_wf_addMessageLocked)
  ultimately show ?thesis
    using assms ok by (auto simp: importMessageLocked_def Inr delivered_def frame_simps insertable_def)
qed

context store_order
begin

lemma delivered_import_ack:
  assumes "delivered m k a s" "0 \<le> now"
  shows "delivered m k a (snd (importAckLocked b now s))"
proof -
  have "store_wf (snd (importAckLocked b now s))"
    using wf.keeps_import_ack [of s now now b] assms by (simp add: delivered_def)
  moreover have "fmlookup (messages (snd (importAckLocked b now s))) m = None \<and>
    fmlookup (acks (snd (importAckLocked b now s))) k = Some a"
  proof (cases "checkImportedAck now s b")
    case (Inl err)
    with assms(1) show ?thesis by (simp add: importAckLocked_def delivered_def)
  next
    case (Inr b')
    from assms(1) show ?thesis
      unfolding importAckLocked_Inr [OF Inr assms(2)] by (auto simp: delivered_def landAck_fields)
  qed
  ultimately show ?thesis using assms(1) by (simp add: delivered_def)
qed

lemma delivered_purge:
  assumes "delivered m k a s"
  shows "delivered m k a (snd (snd (purgeOwnerLocked rng (purge_PurgeHash p) (storePurgeLocked p s))))"
proof -
  from assms have wf: "store_wf s" by (simp add: delivered_def)
  note move = purge_move [OF wf, where p = p]
  have "m \<notin> purge_owned (purge_PurgeHash p) s"
    using assms by (auto simp: delivered_def purge_owned_def ids_with_def split: if_splits)
  with assms show ?thesis
    unfolding delivered_def using move(1) by (simp add: move(2,3) lookup_drop_named)
qed

lemma delivered_import:
  assumes "delivered m k a s" "0 \<le> now"
  shows "delivered m k a (snd (ImportSnapshot rng now p s))"
proof -
  have "delivered m k a (snd (importAckStep now b x))" if "delivered m k a (snd x)" for b x
    using delivered_import_ack [OF that assms(2), of b]
    by (auto simp: importAckStep_def split: prod.splits option.splits)
  moreover have "delivered m k a (snd (importMessageStep now e x))" if "delivered m k a (snd x)" for e x
    using delivered_import_message [OF that, of e now]
    by (auto simp: importMessageStep_def split: prod.splits option.splits)
  moreover have "delivered m k a (snd (importPurgeStep rng now q x))" if "delivered m k a (snd x)" for q x
    using delivered_purge [OF that, of q] that
    by (auto simp: importPurgeStep_def split: prod.splits)
  ultimately show ?thesis
    using assms(1) unfolding ImportSnapshot_def Let_def
    by (intro fold_invariant [where P = "\<lambda>x. delivered m k a (snd x)"]) auto
qed

end

end
