(* ===== verification/Queue_Examples.thy ===== *)
theory Queue_Examples
  imports Queue_Facts
begin

text \<open>
  A small store, a few envelopes and acks, and histories over them: the concrete inputs at which
  the properties of the message store are instantiated.
\<close>

section \<open>A store, a few envelopes and a few histories\<close>

definition ex_cfg :: StoreConfig where
  "ex_cfg = \<lparr>cfg_MaxMessages = 1, cfg_MaxAcks = 2, cfg_MaxPurges = 2, cfg_MaxPerPair = 5,
     cfg_MaxPayloadBytes = 10, cfg_MaxTTL = 100, cfg_DefaultTTL = 50\<rparr>"

definition ex_cfg4 :: StoreConfig where
  "ex_cfg4 = ex_cfg\<lparr>cfg_MaxMessages := 4, cfg_MaxAcks := 9\<rparr>"

definition ex_env :: "string \<Rightarrow> time \<Rightarrow> MessageEnvelope" where
  "ex_env i x = zero_MessageEnvelope\<lparr>env_ID := i, env_Sender := ''a'', env_Recipient := ''b'',
     env_EncryptedPayload := ''p'', env_ExpiresAt := x, env_RecipientTag := ''YWJj'',
     env_Metadata := fmupd ''purgeHash'' ''h'' fmempty\<rparr>"

definition ex_ack :: "string \<Rightarrow> string \<Rightarrow> time \<Rightarrow> AckRecord" where
  "ex_ack i m x = zero_AckRecord\<lparr>ack_ID := i, ack_MessageID := m, ack_Sender := ''a'', ack_Recipient := ''b'',
     ack_Type := AckRecipientRead, ack_ExpiresAt := x\<rparr>"

definition ex_post :: "time \<Rightarrow> string \<Rightarrow> time \<Rightarrow> store_request" where
  "ex_post now i x = PostMessage now (ex_env i x) ''n'' zero_Grant"

definition ex_page :: SyncPayload where
  "ex_page = \<lparr>sync_NodeID = ''peer'', sync_Epoch = ''f'', sync_NextSeq = 2, sync_More = False,
     sync_Messages = [ex_env ''m1'' 40], sync_Acks = [], sync_Presence = [],
     sync_PresenceRevocations = [], sync_Purges = []\<rparr>"

text \<open>Two messages, one of them delivered; and the history of the ack lane with no prune.\<close>

definition ex_history :: "store_request list" where
  "ex_history = [ex_post 1 ''m1'' 40, ex_post 2 ''m2'' 60, PostAck 3 (ex_ack ''r1'' ''m1'' 50) ''n'' zero_Grant TrustedAuth]"

definition ex_unpruned :: "store_request list" where
  "ex_unpruned = [ex_post 1 ''m1'' 10, GetMessages 10 ''b'' 0 TrustedAuth,
     ex_post 11 ''m2'' 20, GetMessages 20 ''b'' 0 TrustedAuth]"

text \<open>A hash for the examples that returns what follows the tag domain, so the secret \<open>abc\<close> has the tag \<open>YWJj\<close>.\<close>

definition ex_sha256 :: "string \<Rightarrow> string" where
  "ex_sha256 x = drop (length tagDomain) x"

definition ex_auth :: Auth where
  "ex_auth = \<lparr>auth_tags = [''YWJj''], auth_allowUntagged = False, auth_trusted = False\<rparr>"

lemma ex_trim: "TrimSpace ''abc'' = ''abc''"
  by code_simp

lemma ex_auth: "NewAuth ex_sha256 [''abc''] False = ex_auth"
  by (simp add: NewAuth_def ex_auth_def ex_trim Let_def TagForSecret_def ex_sha256_def tagDomain_def
      b64_char_def b64url_alphabet_def)

definition ex_rng :: "string fset \<Rightarrow> string list" where
  "ex_rng = sorted_list_of_fset"

definition ex_store :: Store where
  "ex_store = store_run ex_rng ex_history (NewStore ''e'' ex_cfg4)"

lemma ex_range: "range_order ex_rng" "store_order ex_rng"
  unfolding ex_rng_def by (rule sorted_range.range_order_axioms, rule sorted_store.store_order_axioms)

lemma ex_hyps: "config_fits ex_cfg" "config_fits ex_cfg4" "clocked 3 ex_history" "clocked 20 ex_unpruned"
  by code_simp+

lemma ex_store_wf: "store_wf ex_store"
  unfolding ex_store_def by (rule store_wf_run [OF ex_range(1) ex_hyps(2,3)])

end
