(* ===== verification/Queue_Props.thy ===== *)
theory Queue_Props
  imports Queue_Examples
begin

text \<open>
  The properties of the message store over every history of requests from a fresh store:
  bookkeeping, the ack lane, write authorization and reads.
\<close>

section \<open>Bookkeeping and bounds\<close>

text \<open>
  C1. Along every history of requests from a fresh store, under every order of ranging over a map,
  the per-pair and per-credential counters, the two key indexes, the tag bindings and the cursor
  maps agree with the message and ack tables, and every table stays within its cap.
\<close>

theorem store_bookkeeping:
  assumes "range_order rng" "config_fits cfg" "clocked T rs"
  shows "store_wf (store_run rng rs (NewStore ep cfg))"
  by (rule store_wf_run [OF assms])

theorem store_bookkeeping_witness:
  "store_wf (store_run ex_rng ex_history (NewStore ''e'' ex_cfg4))"
  by (rule store_bookkeeping [OF ex_range(1) ex_hyps(2,3)])

text \<open>
  The payload bytes a store holds never exceed the message cap times the payload cap.
\<close>

theorem payload_memory_bounded:
  assumes "range_order rng" "config_fits cfg" "clocked T rs" "s = store_run rng rs (NewStore ep cfg)"
  shows "(\<Sum>k\<in>fmdom' (messages s). int (length (env_EncryptedPayload (the (fmlookup (messages s) k)))))
           \<le> maxMessages (NewStore ep cfg) * maxPayloadBytes (NewStore ep cfg)"
proof -
  have wf: "store_wf s" unfolding assms(4) by (rule store_wf_run [OF assms(1-3)])
  have caps: "caps s = caps (NewStore ep cfg)"
    unfolding assms(4) using assms(1)
    by (intro store_order.caps_run [OF _ store_wf_NewStore [OF assms(2)] assms(3)]) (simp add: store_order_def)
  have each: "int (length (env_EncryptedPayload (the (fmlookup (messages s) k)))) \<le> maxPayloadBytes s"
    if "k \<in> fmdom' (messages s)" for k
    using that wf by (auto simp: store_wf_def keys_ok_def fmlookup_dom'_iff)
  have "(\<Sum>k\<in>fmdom' (messages s). int (length (env_EncryptedPayload (the (fmlookup (messages s) k)))))
      \<le> go_len (messages s) * maxPayloadBytes s"
    using sum_bounded_above [OF each] by (simp add: go_len_def)
  also have "\<dots> \<le> maxMessages s * maxPayloadBytes s"
    using wf NewStore_caps(4) [of ep cfg] caps_eqD(5) [OF caps]
    by (intro mult_right_mono) (auto simp: store_wf_def sizes_ok_def)
  finally show ?thesis by (simp add: caps_eqD [OF caps])
qed

theorem payload_memory_bounded_witness:
  "(\<Sum>k\<in>fmdom' (messages ex_store). int (length (env_EncryptedPayload (the (fmlookup (messages ex_store) k)))))
     \<le> maxMessages (NewStore ''e'' ex_cfg4) * maxPayloadBytes (NewStore ''e'' ex_cfg4)"
  by (rule payload_memory_bounded [OF ex_range(1) ex_hyps(2,3) ex_store_def])

section \<open>The ack lane\<close>

text \<open>
  C16. The reserve of the ack lane holds after a prune: whatever callers and peers posted before, a
  message is never refused with \<open>ErrQueueFull\<close> while the message lane has a free slot.
\<close>

theorem ack_lane_reserve:
  assumes "range_order rng" "config_fits cfg" "clocked T rs" "T \<le> now" "0 \<le> now"
    and s: "s = snd (PruneExpired rng now (store_run rng rs (NewStore ep cfg)))"
    and free: "go_len (messages s) < maxMessages s"
  shows "fst (snd (AddMessageWithGrant now e nid g s)) \<noteq> Some ErrQueueFull"
proof -
  let ?t = "store_run rng rs (NewStore ep cfg)"
  have order: "store_order rng" using assms(1) by (simp add: store_order_def)
  have wf: "store_wf ?t" by (rule store_wf_run [OF assms(1-3)])
  have res: "reserve_ok T ?t"
    by (rule store_order.reserve_run [OF order store_wf_NewStore reserve_ok_NewStore]) (fact assms)+
  have s': "s = expireLocked rng now ?t" by (simp add: s PruneExpired_def Let_def)
  have caps: "caps s = caps ?t" unfolding s' by (rule store_order.expire_tables [OF order])
  have room: "go_len (acks s) < maxAcks s"
    using store_order.reserve_room [OF order wf res assms(4) _ s'] free
    by (simp add: caps_eqD [OF caps])
  show ?thesis
  proof (cases "checkEnvelope now g s e")
    case (Inl err)
    then have "err \<noteq> ErrQueueFull" by (auto simp: checkEnvelope_def Let_def split: if_splits)
    with Inl show ?thesis by (simp add: AddMessageWithGrant_def)
  next
    case (Inr e')
    with room free show ?thesis by (simp add: AddMessageWithGrant_Inr [OF Inr assms(5)])
  qed
qed

theorem ack_lane_reserve_witness:
  "fst (snd (AddMessageWithGrant 21 (ex_env ''m3'' 30) ''n'' zero_Grant
     (snd (PruneExpired ex_rng 21 (store_run ex_rng ex_unpruned (NewStore ''e'' ex_cfg)))))) \<noteq> Some ErrQueueFull"
proof (rule ack_lane_reserve [OF ex_range(1) ex_hyps(1,4) _ _ refl])
  show "go_len (messages (snd (PruneExpired ex_rng 21 (store_run ex_rng ex_unpruned (NewStore ''e'' ex_cfg)))))
      < maxMessages (snd (PruneExpired ex_rng 21 (store_run ex_rng ex_unpruned (NewStore ''e'' ex_cfg))))"
    by code_simp
qed simp_all

text \<open>
  Without the prune the reserve can be missing: a fetch sweeps expired messages but not the
  acks minted for them, so two expired acks fill the lane of a store that holds no message, and
  the next message is refused with \<open>ErrQueueFull\<close>. After a prune the same message is accepted.
\<close>

theorem ack_lane_reserve_needs_prune:
  "go_len (messages (store_run ex_rng ex_unpruned (NewStore ''e'' ex_cfg))) = 0 \<and>
   fst (snd (AddMessageWithGrant 21 (ex_env ''m3'' 30) ''n'' zero_Grant
     (store_run ex_rng ex_unpruned (NewStore ''e'' ex_cfg)))) = Some ErrQueueFull \<and>
   fst (snd (AddMessageWithGrant 21 (ex_env ''m3'' 30) ''n'' zero_Grant
     (snd (PruneExpired ex_rng 21 (store_run ex_rng ex_unpruned (NewStore ''e'' ex_cfg)))))) = None"
  by code_simp

section \<open>Write authorization\<close>

text \<open>
  C3. A queued message that carries a recipient tag is removed by a posted ack only if the caller
  presented a secret whose tag is the one the store has bound to the message.
\<close>

theorem ack_needs_proof:
  assumes "range_order rng" "config_fits cfg" "clocked T rs" "0 \<le> now"
    and s: "s = store_run rng rs (NewStore ep cfg)"
    and held: "fmlookup (messages s) k = Some e" "env_RecipientTag e \<noteq> []"
    and gone: "fmlookup (messages (snd (AddAckWithGrant now a nid g (NewAuth sha256 secrets b) s))) k = None"
  shows "\<exists>secret \<in> set (counted_secrets secrets).
           recipientTagForMessageLocked k s = Some (TagForSecret sha256 secret)"
proof -
  have order: "store_order rng" using assms(1) by (simp add: store_order_def)
  have "guarded s"
    unfolding s by (rule store_order.guarded_run [OF order store_wf_NewStore [OF assms(2)] _ assms(3)])
      (simp add: guarded_def)
  with held have "bound_tag k s \<noteq> []" by (simp add: guarded_def tagged_def)
  then obtain t where t: "recipientTagForMessageLocked k s = Some t" "t \<noteq> []"
    by (auto simp: bound_tag_def split: option.splits)
  with AddAck_removes [OF assms(4) held(1) gone] have "permits (NewAuth sha256 secrets b) t" by simp
  with t show ?thesis by (auto simp: permits_NewAuth_tagged)
qed

theorem ack_needs_proof_witness:
  "\<exists>secret \<in> set (counted_secrets [''abc'']).
     recipientTagForMessageLocked ''m2'' ex_store = Some (TagForSecret ex_sha256 secret)"
proof (rule ack_needs_proof [OF ex_range(1) ex_hyps(2,3) _ ex_store_def])
  have "\<not> Option.is_none (fmlookup (messages ex_store) ''m2'')" by code_simp
  then show "fmlookup (messages ex_store) ''m2'' = Some (the (fmlookup (messages ex_store) ''m2''))"
    by (auto simp: Option.is_none_def)
  show "env_RecipientTag (the (fmlookup (messages ex_store) ''m2'')) \<noteq> []" by code_simp
  show "fmlookup (messages (snd (AddAckWithGrant 5 (ex_ack ''r2'' ''m2'' 50) ''n'' zero_Grant
      (NewAuth ex_sha256 [''abc''] False) ex_store))) ''m2'' = None"
    unfolding ex_auth Option.is_none_def [symmetric] by code_simp
qed simp

text \<open>
  C18. A binding that carries a tag is never replaced: after any request but a peer's page, the
  message is bound to the same tag or no record names it any more.
\<close>

theorem bound_tag_never_replaced:
  assumes "0 \<le> request_time r" "\<forall>now p. r \<noteq> Import now p"
    and "recipientTagForMessageLocked m s = Some t" "t \<noteq> []"
  shows "recipientTagForMessageLocked m (store_step rng r s) \<in> {None, Some t}"
proof -
  have start: "settled m t s" using assms(3) by (simp add: settled_def)
  have "settled m t (store_step rng r s)"
  proof (cases r)
    case (PostMessage now e nid g)
    with settled_post [OF assms(3,4), of now] assms(1) show ?thesis by simp
  next
    case (PostAck now a nid g auth)
    with settled_ack [OF assms(3,4), of now] assms(1) show ?thesis by simp
  next
    case (Import now p)
    with assms(2) show ?thesis by simp
  next
    case (Purge now h)
    then show ?thesis
      using settled_purgeOwner [OF settled_delete(4) [OF start]] by (simp add: PurgeOwner_def Let_def)
  qed (simp_all add: settled_reads settled_expire start PruneExpired_def SnapshotSince_def Let_def)
  then show ?thesis by (simp add: settled_def)
qed

theorem bound_tag_never_replaced_witness:
  "recipientTagForMessageLocked ''m1''
     (store_step ex_rng (PostMessage 41 (ex_env ''m1'' 50\<lparr>env_RecipientTag := ''x''\<rparr>) ''n'' zero_Grant) ex_store)
     \<in> {None, Some ''YWJj''}"
  by (rule bound_tag_never_replaced) (simp_all, code_simp)

section \<open>Reads\<close>

text \<open>
  C19. A fetch returns the oldest unexpired messages addressed to the recipient that the caller may
  read, each once, in the order of their creation and no more than the limit; it leaves exactly
  the unexpired messages in the table.
\<close>

theorem fetch_messages:
  assumes "range_order rng" "store_wf s" "TrimSpace recipient \<noteq> []"
    and "MessagesForRecipient rng now recipient limit auth s = (out, s')"
  shows "oldest_of (readLimit limit) env_CreatedAt (inbox now (TrimSpace recipient) auth s) out \<and>
    messages s' = live_part (message_dead now) (messages s) \<and> acks s' = acks s"
proof -
  have order: "store_order rng" using assms(1) by (simp add: store_order_def)
  note res = store_order.MessagesForRecipient_result [OF order assms(2-4)]
  have "sweepable rng messages deleteMessageLocked"
    using assms(1) by (simp add: sweepable_def sweepable_axioms_def frame_simps)
  from sweepable.table_sweep [OF this] res show ?thesis by (simp add: sweep_frames)
qed

theorem fetch_messages_witness:
  "oldest_of (readLimit 5) env_CreatedAt (inbox 10 (TrimSpace ''b'') ex_auth ex_store)
     (fst (MessagesForRecipient ex_rng 10 ''b'' 5 ex_auth ex_store)) \<and>
   map env_ID (fst (MessagesForRecipient ex_rng 10 ''b'' 5 ex_auth ex_store)) = [''m2'']"
proof
  have "TrimSpace ''b'' \<noteq> []" by code_simp
  from fetch_messages [OF ex_range(1) ex_store_wf this prod.collapse [symmetric],
      where now = 10 and limit = 5 and auth = ex_auth]
  show "oldest_of (readLimit 5) env_CreatedAt (inbox 10 (TrimSpace ''b'') ex_auth ex_store)
     (fst (MessagesForRecipient ex_rng 10 ''b'' 5 ex_auth ex_store))" by blast
qed code_simp

text \<open>
  The same for the acks of a sender.
\<close>

theorem fetch_acks:
  assumes "range_order rng" "store_wf s" "TrimSpace sender \<noteq> []"
    and "AcksForSender rng now sender limit auth s = (out, s')"
  shows "oldest_of (readLimit limit) ack_CreatedAt (ack_lane now (TrimSpace sender) auth s) out \<and>
    acks s' = live_part (ack_dead now) (acks s) \<and> messages s' = messages s"
proof -
  have order: "store_order rng" using assms(1) by (simp add: store_order_def)
  note res = store_order.AcksForSender_result [OF order assms(2-4)]
  have "sweepable rng acks deleteAckLocked"
    using assms(1) by (simp add: sweepable_def sweepable_axioms_def frame_simps)
  from sweepable.table_sweep [OF this] res show ?thesis by (simp add: sweep_frames)
qed

theorem fetch_acks_witness:
  "oldest_of (readLimit 2) ack_CreatedAt (ack_lane 10 (TrimSpace ''a'') TrustedAuth ex_store)
     (fst (AcksForSender ex_rng 10 ''a'' 2 TrustedAuth ex_store)) \<and>
   map ack_ID (fst (AcksForSender ex_rng 10 ''a'' 2 TrustedAuth ex_store)) =
     [''m1:node_received'', ''m2:node_received'']"
proof
  have "TrimSpace ''a'' \<noteq> []" by code_simp
  from fetch_acks [OF ex_range(1) ex_store_wf this prod.collapse [symmetric],
      where now = 10 and limit = 2 and auth = TrustedAuth]
  show "oldest_of (readLimit 2) ack_CreatedAt (ack_lane 10 (TrimSpace ''a'') TrustedAuth ex_store)
     (fst (AcksForSender ex_rng 10 ''a'' 2 TrustedAuth ex_store))" by blast
qed code_simp

end
