(* ===== verification/Queue_Write_Props.thy ===== *)
theory Queue_Write_Props
  imports Queue_Examples
begin

text \<open>
  The properties of the message store's writes: the outcome of a post and of an ack on every
  branch, purges and tombstones, expiry, and replication.
\<close>

section \<open>Writes, branch by branch\<close>

text \<open>
  C20. A valid message is accepted exactly when its id is new, its owner is not purged, its lane and
  its credential have room counted in the tables themselves, the message lane has a free slot, and
  its receipt can be stored; an accepted message and its receipt are the only records that change,
  the message expires no later than the shorter of the node's and the credential's retention, and a
  refused one changes nothing.
\<close>

theorem post_outcome:
  assumes "store_wf s" "0 \<le> now" "checkEnvelope now g s e = Inr e'"
    and "AddMessageWithGrant now e nid g s = (r, err, s')"
  shows "(err = None \<longleftrightarrow> admits now g e' s) \<and>
    (err = None \<longrightarrow>
       messages s' = fmupd (env_ID e') e' (messages s) \<and> r = nodeReceivedAck e' nid now \<and>
       acks s' = fmupd (ack_ID r) r (acks s) \<and> purges s' = purges s \<and>
       now < env_ExpiresAt e' \<and> env_ExpiresAt e' \<le> now + lowerOfDuration (maxTTL s) (grant_Retention g)) \<and>
    (err \<noteq> None \<longrightarrow> s' = s)"
proof (cases err)
  case (Some x)
  with AddMessageWithGrant_refused [OF assms(2)] assms(4) AddMessage_admits [OF assms(1-3), of nid]
  show ?thesis by auto
next
  case None
  have ttl: "now < env_ExpiresAt e' \<and> env_ExpiresAt e' \<le> now + lowerOfDuration (maxTTL s) (grant_Retention g)"
    using assms(3) by (auto simp: checkEnvelope_def Let_def not_less split: if_splits)
  from assms(2) assms(4) [unfolded None] obtain e'' where "checkEnvelope now g s e = Inr e''"
    "r = nodeReceivedAck e'' nid now"
    "s' = addMessageLocked e'' (grant_Credential g) (storeAck (nodeReceivedAck e'' nid now) s)"
    by (rule AddMessageWithGrant_stored)
  with assms(3,4) ttl AddMessage_admits [OF assms(1-3), of nid] None show ?thesis
    by (simp add: frame_simps)
qed

theorem post_outcome_witness:
  "admits 5 zero_Grant (projr (checkEnvelope 5 zero_Grant ex_store (ex_env ''m3'' 70))) ex_store"
proof -
  let ?c = "checkEnvelope 5 zero_Grant ex_store (ex_env ''m3'' 70)"
  let ?r = "AddMessageWithGrant 5 (ex_env ''m3'' 70) ''n'' zero_Grant ex_store"
  have "\<not> isl ?c" by code_simp
  then have env: "?c = Inr (projr ?c)" by (cases ?c) simp_all
  have ok: "fst (snd ?r) = None" by code_simp
  have "0 \<le> (5 :: int)" and call: "?r = (fst ?r, fst (snd ?r), snd (snd ?r))" by simp_all
  from conjunct1 [OF post_outcome [OF ex_store_wf this(1) env call]] ok show ?thesis by blast
qed

text \<open>
  C21. A valid ack is refused with \<open>ErrNotOwned\<close> exactly when the store has a tag bound to the
  message and the caller does not match it; a refused ack changes nothing; an accepted one is
  stored with the tag the store holds, whatever tag the caller sent, and removes the message it
  names and no other exactly when its type is terminal.
\<close>

theorem ack_outcome:
  assumes "0 \<le> now" "checkAck now nid g s a = Inr a'"
    and "AddAckWithGrant now a nid g auth s = (err, s')"
  shows "(err = Some ErrNotOwned \<longleftrightarrow>
           (\<exists>t. recipientTagForMessageLocked (ack_MessageID a') s = Some t \<and> \<not> permits auth t)) \<and>
    (err \<noteq> None \<longrightarrow> s' = s) \<and>
    (err = None \<longrightarrow>
       acks s' = fmupd (ack_ID a') (a'\<lparr>ack_RecipientTag := bound_tag (ack_MessageID a') s\<rparr>) (acks s) \<and>
       messages s' = (if deletesQueuedMessage (ack_Type a') then fmdrop (ack_MessageID a') (messages s)
                      else messages s))"
  using assms(3) unfolding AddAckWithGrant_Inr [OF assms(2,1)]
  by (auto simp: landAck_fields split: if_splits)

theorem ack_outcome_witness:
  "fst (AddAckWithGrant 5 (ex_ack ''r2'' ''m2'' 50) ''n'' zero_Grant ex_auth ex_store) \<noteq> Some ErrNotOwned \<and>
   fst (AddAckWithGrant 5 (ex_ack ''r2'' ''m2'' 50) ''n'' zero_Grant (NewAuth ex_sha256 [] True) ex_store)
     = Some ErrNotOwned"
proof -
  let ?c = "checkAck 5 ''n'' zero_Grant ex_store (ex_ack ''r2'' ''m2'' 50)"
  have "\<not> isl ?c" by code_simp
  then have ack: "?c = Inr (projr ?c)" by (cases ?c) simp_all
  have id: "ack_MessageID (projr ?c) = ''m2''" by code_simp
  have tag: "recipientTagForMessageLocked ''m2'' ex_store = Some ''YWJj''" by code_simp
  have "permits ex_auth ''YWJj''" "\<not> permits (NewAuth ex_sha256 [] True) ''YWJj''" by code_simp+
  with ack_outcome [OF _ ack prod.collapse [symmetric], where auth = ex_auth]
    ack_outcome [OF _ ack prod.collapse [symmetric], where auth = "NewAuth ex_sha256 [] True"]
  show ?thesis by (simp add: id tag)
qed

section \<open>Purges and tombstones\<close>

text \<open>
  C22. An owner purge through the indexes removes exactly what a walk over the two tables would,
  every message stamped with the hash and every ack naming one of them, and returns the two counts;
  the empty hash removes nothing.
\<close>

theorem purge_by_index_is_purge_by_scan:
  assumes "range_order rng" "store_wf s" "purgeOwnerLocked rng h s = (m, a, s')"
  shows "messages s' = live_part (\<lambda>e. h \<noteq> [] \<and> envelope_purgeHash e = h) (messages s) \<and>
    acks s' = live_part (\<lambda>x. ack_MessageID x \<in> purge_owned h s) (acks s) \<and>
    m = go_len (messages s) - go_len (messages s') \<and> a = go_len (acks s) - go_len (acks s')"
proof -
  have order: "store_order rng" using assms(1) by (simp add: store_order_def)
  note tables = store_order.purgeOwner_tables [OF order assms(2,3)]
  have msgs: "messages s' = live_part (\<lambda>e. h \<noteq> [] \<and> envelope_purgeHash e = h) (messages s)"
    unfolding tables(2)
    by (rule fmap_ext) (auto simp: lookup_live_part purge_owned_def ids_with_def split: option.splits)
  have "fmdom' (messages s') = fmdom' (messages s) - purge_owned h s"
    "fmdom' (acks s') = fmdom' (acks s) - acks_naming (purge_owned h s) s"
    by (auto simp: tables(2,3) lookup_drop_named acks_naming_def fmlookup_dom'_iff split: option.splits if_splits)
  moreover have "purge_owned h s \<subseteq> fmdom' (messages s)" "acks_naming (purge_owned h s) s \<subseteq> fmdom' (acks s)"
    by (auto simp: purge_owned_def ids_with_def acks_naming_def fmlookup_dom'_iff split: if_splits)
  ultimately show ?thesis
    using msgs tables(3,6,7)
    by (simp add: drop_named_def go_len_def card_Diff_subset finite_subset card_mono of_nat_diff)
qed

theorem purge_by_index_is_purge_by_scan_witness:
  "fst (purgeOwnerLocked ex_rng ''h'' ex_store) = 1 \<and> fst (snd (purgeOwnerLocked ex_rng ''h'' ex_store)) = 1 \<and>
   acks (snd (snd (purgeOwnerLocked ex_rng ''h'' ex_store))) =
     live_part (\<lambda>x. ack_MessageID x \<in> purge_owned ''h'' ex_store) (acks ex_store)"
proof (intro conjI)
  let ?p = "purgeOwnerLocked ex_rng ''h'' ex_store"
  show "acks (snd (snd ?p)) = live_part (\<lambda>x. ack_MessageID x \<in> purge_owned ''h'' ex_store) (acks ex_store)"
    using purge_by_index_is_purge_by_scan [OF ex_range(1) ex_store_wf, of "''h''" "fst ?p" "fst (snd ?p)" "snd (snd ?p)"]
    by simp
qed code_simp+

text \<open>
  C23. No message is held against a live tombstone: in a history whose instants are at most \<open>T\<close>,
  a tombstone for the hash of a held message has expired by \<open>T\<close>.
\<close>

theorem tombstones_hold:
  assumes "range_order rng" "config_fits cfg" "clocked T rs" "s = store_run rng rs (NewStore ep cfg)"
    and "fmlookup (messages s) k = Some e" "envelope_purgeHash e \<noteq> []"
    and "fmlookup (purges s) (envelope_purgeHash e) = Some p"
  shows "purge_ExpiresAt p \<le> T"
proof -
  have order: "store_order rng" using assms(1) by (simp add: store_order_def)
  have "tombs_ok T s"
    unfolding assms(4)
    by (rule store_order.tombs_run [OF order store_wf_NewStore [OF assms(2)] tombs_ok_NewStore assms(3)])
  with assms(5) have "\<not> purgedLocked T e s" by (auto simp: tombs_ok_def)
  with assms(6,7) show ?thesis by (simp add: purgedLocked_def)
qed

definition ex_purged :: "store_request list" where
  "ex_purged = [Purge 1 ''h'', ex_post 60 ''m1'' 90]"

theorem tombstones_hold_witness:
  "purge_ExpiresAt (the (fmlookup (purges (store_run ex_rng ex_purged (NewStore ''e'' ex_cfg4))) ''h'')) \<le> 60"
proof -
  let ?s = "store_run ex_rng ex_purged (NewStore ''e'' ex_cfg4)"
  let ?m = "fmlookup (messages ?s) ''m1''"
  have "\<not> Option.is_none ?m" by code_simp
  then have m: "?m = Some (the ?m)" by (auto simp: Option.is_none_def)
  have hash: "envelope_purgeHash (the ?m) = ''h''" by code_simp
  have "\<not> Option.is_none (fmlookup (purges ?s) ''h'')" by code_simp
  then have p: "fmlookup (purges ?s) (envelope_purgeHash (the ?m)) = Some (the (fmlookup (purges ?s) ''h''))"
    by (auto simp: Option.is_none_def hash)
  have "clocked 60 ex_purged" by code_simp
  from tombstones_hold [OF ex_range(1) ex_hyps(2) this refl m _ p] show ?thesis by (simp add: hash)
qed

section \<open>Expiry\<close>

text \<open>
  C24. Nothing outlives the retention ceiling: a prune at an instant at least the ceiling after the
  last request leaves no message and no ack, and no entry in any counter, index, binding or cursor
  map.
\<close>

theorem all_records_expire:
  assumes "range_order rng" "config_fits cfg" "clocked T rs" "T + maxTTL (NewStore ep cfg) \<le> now"
    and s: "s = snd (PruneExpired rng now (store_run rng rs (NewStore ep cfg)))"
  shows "messages s = fmempty \<and> acks s = fmempty \<and> pairCounts s = fmempty \<and> credentialCounts s = fmempty \<and>
    messageCredential s = fmempty \<and> messageSeq s = fmempty \<and> ackSeq s = fmempty \<and> messageTags s = fmempty \<and>
    messagesByPurge s = fmempty \<and> acksByMessage s = fmempty"
proof -
  let ?t = "store_run rng rs (NewStore ep cfg)"
  have order: "store_order rng" using assms(1) by (simp add: store_order_def)
  have wf: "store_wf ?t" by (rule store_wf_run [OF assms(1-3)])
  have s': "s = expireLocked rng now ?t" by (simp add: s PruneExpired_def Let_def)
  have exp: "expiries_ok T ?t"
    by (rule store_order.expiries_run [OF order store_wf_NewStore [OF assms(2)] expiries_ok_NewStore assms(3)])
  have caps: "caps ?t = caps (NewStore ep cfg)"
    by (rule store_order.caps_run [OF order store_wf_NewStore [OF assms(2)] assms(3)])
  note tables = store_order.expire_tables [OF order, of now ?t, folded s']
  have empty: "messages s = fmempty" "acks s = fmempty"
    unfolding tables fmempty_iff
    using exp assms(4)
    by (fastforce simp: lookup_live_part expiries_ok_def message_dead_def ack_dead_def
        caps_eqD [OF caps] split: option.splits)+
  have "store_wf s" unfolding s' by (rule store_order.wf_expire [OF order wf])
  from store_wf_empty [OF this empty] empty show ?thesis by simp
qed

theorem all_records_expire_witness:
  "messageTags (snd (PruneExpired ex_rng 103 (store_run ex_rng ex_history (NewStore ''e'' ex_cfg4)))) = fmempty"
proof -
  have "3 + maxTTL (NewStore ''e'' ex_cfg4) \<le> 103" by code_simp
  from all_records_expire [OF ex_range(1) ex_hyps(2,3) this refl] show ?thesis by simp
qed

section \<open>Replication\<close>

text \<open>
  C8. A page of a snapshot is exactly the unexpired records whose arrival numbers lie after the
  caller's cursor and up to the cursor it returns, each once and no more than the limit; it says
  there is more exactly when a record lies beyond, and then it is full and its cursor has moved.
\<close>

theorem snapshot_page:
  assumes "range_order rng" "config_fits cfg" "clocked T rs" "sum_list (map request_weight rs) < 2 ^ 64"
    and s: "s = store_run rng rs (NewStore ep cfg)"
    and "SnapshotSince rng now since limit s = (p, s')"
  shows "page_ok since (nat (if limit \<le> 0 then 500 else limit)) s' p \<and>
    messages s' = live_part (message_dead now) (messages s) \<and> acks s' = live_part (ack_dead now) (acks s) \<and>
    set (sync_Purges p) = {q. \<exists>h. fmlookup (purges s') h = Some q} \<and> sync_Epoch p = ep"
proof -
  have order: "store_order rng" using assms(1) by (simp add: store_order_def)
  note new = store_wf_NewStore [OF assms(2), of ep]
  have wf: "store_wf s" unfolding s by (rule store_wf_run [OF assms(1-3)])
  have seq: "seq_ok (sum_list (map request_weight rs)) s"
    unfolding s using store_order.seq_run [OF order new seq_ok_NewStore assms(3)] by simp
  note fields = store_order.SnapshotSince_fields [OF order assms(6)]
  note tables = store_order.expire_tables [OF order, of now s, folded fields(1)]
  have "caps s' = caps (NewStore ep cfg)"
    unfolding tables(4) s by (rule store_order.caps_run [OF order new assms(3)])
  then have "epoch s' = ep" using caps_eqD(8) by (fastforce simp: NewStore_def Let_def)
  with store_order.SnapshotSince_page [OF order wf seq assms(4,6)] fields(6,7) tables(1,2)
  show ?thesis by simp
qed

theorem snapshot_page_witness:
  "page_ok 1 2 (snd (SnapshotSince ex_rng 5 1 2 ex_store)) (fst (SnapshotSince ex_rng 5 1 2 ex_store)) \<and>
   map env_ID (sync_Messages (fst (SnapshotSince ex_rng 5 1 2 ex_store))) = [''m2''] \<and>
   map ack_ID (sync_Acks (fst (SnapshotSince ex_rng 5 1 2 ex_store))) = [''m2:node_received''] \<and>
   sync_NextSeq (fst (SnapshotSince ex_rng 5 1 2 ex_store)) = 4 \<and> sync_More (fst (SnapshotSince ex_rng 5 1 2 ex_store))"
proof (intro conjI)
  have "sum_list (map request_weight ex_history) < 2 ^ 64" by (simp add: ex_history_def ex_post_def)
  from snapshot_page [OF ex_range(1) ex_hyps(2,3) this ex_store_def prod.collapse [symmetric],
      where now = 5 and since = 1 and limit = 2]
  show "page_ok 1 2 (snd (SnapshotSince ex_rng 5 1 2 ex_store)) (fst (SnapshotSince ex_rng 5 1 2 ex_store))"
    by simp
qed code_simp+

text \<open>
  C25. A delivered message does not come back from a peer: while a terminal ack for it is held and
  the message is not, no imported page makes it queued again or drops that ack.
\<close>

theorem delivered_not_reimported:
  assumes "range_order rng" "store_wf s" "0 \<le> now" "fmlookup (messages s) m = None"
    and "fmlookup (acks s) k = Some a" "ack_MessageID a = m" "deletesQueuedMessage (ack_Type a)"
    and "ImportSnapshot rng now p s = (result, s')"
  shows "fmlookup (messages s') m = None \<and> fmlookup (acks s') k = Some a"
proof -
  have order: "store_order rng" using assms(1) by (simp add: store_order_def)
  have "delivered m k a s" using assms(2,4-7) by (simp add: delivered_def)
  from store_order.delivered_import [OF order this assms(3), of p] assms(8) show ?thesis
    by (simp add: delivered_def)
qed

theorem delivered_not_reimported_witness:
  "fmlookup (messages (snd (ImportSnapshot ex_rng 6 ex_page ex_store))) ''m1'' = None"
proof -
  let ?a = "fmlookup (acks ex_store) ''r1''"
  have "\<not> Option.is_none ?a" by code_simp
  then have a: "?a = Some (the ?a)" by (auto simp: Option.is_none_def)
  have m: "fmlookup (messages ex_store) ''m1'' = None"
    unfolding Option.is_none_def [symmetric] by code_simp
  have "ack_MessageID (the ?a) = ''m1''" "deletesQueuedMessage (ack_Type (the ?a))" by code_simp+
  from delivered_not_reimported [OF ex_range(1) ex_store_wf _ m a this prod.collapse [symmetric],
      where now = 6 and p = ex_page]
  show ?thesis by simp
qed

section \<open>Two gaps\<close>

text \<open>
  The separator of a pair key can occur in a trimmed routing id, so two different lanes can
  share one quota.
\<close>

theorem pairKey_collides:
  "\<exists>a b c d. (a, b) \<noteq> (c, d) \<and> TrimSpace a = a \<and> TrimSpace b = b \<and> TrimSpace c = c \<and> TrimSpace d = d \<and>
     a \<noteq> [] \<and> b \<noteq> [] \<and> c \<noteq> [] \<and> d \<noteq> [] \<and> pairKey a b = pairKey c d"
proof -
  let ?x = "[CHR ''a'', CHR 0x00, CHR ''b'']" and ?y = "[CHR ''b'', CHR 0x00, CHR ''c'']"
  have "TrimSpace ?x = ?x" "TrimSpace ?y = ?y" "TrimSpace ''a'' = ''a''" "TrimSpace ''c'' = ''c''"
    by code_simp+
  then show ?thesis
    by (intro exI [of _ ?x] exI [of _ "''c''"] exI [of _ "''a''"] exI [of _ ?y]) (simp add: pairKey_def)
qed

text \<open>
  A receipt id posted in advance keeps a message out: once somebody has posted an ack under the
  id \<open>m:node_received\<close>, posting the message \<open>m\<close> returns \<open>ErrDuplicate\<close>, which the HTTP handler
  reports as accepted, although the message is not queued.
\<close>

theorem receipt_squatting:
  assumes "0 \<le> now" "checkEnvelope now g s e = Inr e'" "fmlookup (acks s) (env_ID e' @ '':node_received'') \<noteq> None"
    and "fmlookup (messages s) (env_ID e') = None" "\<not> purgedLocked now e' s"
    and "go_int (pairCounts s) (env_pair e') < lowerOf (maxPerPair s) (grant_MaxPerPair g)"
    and "grant_Credential g = 0" "go_len (messages s) < maxMessages s"
  shows "AddMessageWithGrant now e nid g s = (zero_AckRecord, Some ErrDuplicate, s)"
  using assms(3-8) by (simp add: AddMessageWithGrant_Inr [OF assms(2,1)])

definition ex_squat :: Store where
  "ex_squat = snd (AddAckWithGrant 1 (ex_ack ''m9:node_received'' ''zz'' 50) ''n'' zero_Grant
     (NewAuth ex_sha256 [] True) (NewStore ''e'' ex_cfg4))"

theorem receipt_squatting_witness:
  "AddMessageWithGrant 2 (ex_env ''m9'' 40) ''n'' zero_Grant ex_squat = (zero_AckRecord, Some ErrDuplicate, ex_squat)"
proof -
  let ?c = "checkEnvelope 2 zero_Grant ex_squat (ex_env ''m9'' 40)"
  have "\<not> isl ?c" by code_simp
  then have env: "?c = Inr (projr ?c)" by (cases ?c) simp_all
  have "\<not> Option.is_none (fmlookup (acks ex_squat) (env_ID (projr ?c) @ '':node_received''))"
    "Option.is_none (fmlookup (messages ex_squat) (env_ID (projr ?c)))"
    "\<not> purgedLocked 2 (projr ?c) ex_squat"
    "go_int (pairCounts ex_squat) (env_pair (projr ?c)) < lowerOf (maxPerPair ex_squat) (grant_MaxPerPair zero_Grant)"
    "grant_Credential zero_Grant = 0" "go_len (messages ex_squat) < maxMessages ex_squat"
    by code_simp+
  then show ?thesis
    unfolding Option.is_none_def by (intro receipt_squatting [OF _ env]) simp_all
qed

end
