(* ===== verification/Prekey.thy ===== *)
theory Prekey
  imports Capability
begin

text \<open>
  \<open>internal/prekey/store.go\<close>: the one-time prekey pools, the reusable last-resort prekey of each
  pool, and the token bucket that limits how fast a pool drains. Token counts are IEEE doubles;
  they are rationals here, and the rounding of each floating-point operation is the parameter
  \<open>fl\<close>. Every operation prunes first and holds one mutex.
\<close>

section \<open>State\<close>

record pk_item =
  pki_value :: PrekeyEntry
  pki_publishedAt :: time

record bucketState =
  bs_tokens :: rat
  bs_lastRefill :: time

record PrekeyStore =
  pk_maxPerRecipient :: int
  pk_maxBuckets :: int
  pk_publishedTTL :: duration
  pk_claimBurst :: rat
  pk_claimRefill :: duration
  pk_queues :: "(string, pk_item list) gomap"
  pk_lastResort :: "(string, pk_item) gomap"
  pk_tokens :: "(string, bucketState) gomap"

record Limits =
  lim_MaxPerRecipient :: int
  lim_MaxBuckets :: int
  lim_PublishedTTL :: duration
  lim_ClaimBurst :: int
  lim_ClaimRefill :: duration

definition bucketKey :: "string \<Rightarrow> string \<Rightarrow> string" where
  "bucketKey ownerTag deviceKey = ownerTag @ [CHR 0x00] @ deviceKey"

definition prekey_NewStoreWithLimits :: "(rat \<Rightarrow> rat) \<Rightarrow> Limits \<Rightarrow> PrekeyStore" where
  "prekey_NewStoreWithLimits fl limits =
     \<lparr>pk_maxPerRecipient = (if lim_MaxPerRecipient limits \<le> 0 then 100 else lim_MaxPerRecipient limits),
      pk_maxBuckets = (if lim_MaxBuckets limits \<le> 0 then 5000 else lim_MaxBuckets limits),
      pk_publishedTTL = (if lim_PublishedTTL limits \<le> 0 then 30 * 24 * Hour else lim_PublishedTTL limits),
      pk_claimBurst = fl (of_int (if lim_ClaimBurst limits \<le> 0 then 32 else lim_ClaimBurst limits)),
      pk_claimRefill = (if lim_ClaimRefill limits \<le> 0 then Second else lim_ClaimRefill limits),
      pk_queues = fmempty, pk_lastResort = fmempty, pk_tokens = fmempty\<rparr>"

definition prekey_NewStore :: "(rat \<Rightarrow> rat) \<Rightarrow> int \<Rightarrow> duration \<Rightarrow> PrekeyStore" where
  "prekey_NewStore fl maxPerRecipient publishedTTL =
     prekey_NewStoreWithLimits fl \<lparr>lim_MaxPerRecipient = maxPerRecipient, lim_MaxBuckets = 0,
       lim_PublishedTTL = publishedTTL, lim_ClaimBurst = 0, lim_ClaimRefill = 0\<rparr>"

section \<open>Pruning\<close>

text \<open>
  Each of the three loops of \<open>pruneLocked\<close> rewrites or deletes the entry of its own key only, so the
  order in which the runtime visits the keys does not matter: a loop is one map over the table.
\<close>

definition pki_live :: "time \<Rightarrow> PrekeyStore \<Rightarrow> pk_item \<Rightarrow> bool" where
  "pki_live now s item \<longleftrightarrow> After (pki_publishedAt item + pk_publishedTTL s) now"

definition pruneQueues :: "(pk_item \<Rightarrow> bool) \<Rightarrow> (string, pk_item list) gomap \<Rightarrow> (string, pk_item list) gomap" where
  "pruneQueues live queues =
     (let kept = fmmap (filter live) queues in fmfilter (\<lambda>k. fmlookup kept k \<noteq> Some []) kept)"

definition queueOf :: "string \<Rightarrow> PrekeyStore \<Rightarrow> pk_item list" where
  "queueOf key s = (case fmlookup (pk_queues s) key of None \<Rightarrow> [] | Some q \<Rightarrow> q)"

definition prekey_pruneLocked :: "time \<Rightarrow> PrekeyStore \<Rightarrow> PrekeyStore" where
  "prekey_pruneLocked now s =
     (let s = s\<lparr>pk_queues := pruneQueues (pki_live now s) (pk_queues s)\<rparr>;
          s = s\<lparr>pk_lastResort := fmfilter (\<lambda>k. case fmlookup (pk_lastResort s) k of
                    None \<Rightarrow> False | Some item \<Rightarrow> pki_live now s item) (pk_lastResort s)\<rparr>
      in s\<lparr>pk_tokens := fmfilter (\<lambda>k. queueOf k s \<noteq> [] \<or> fmlookup (pk_lastResort s) k \<noteq> None) (pk_tokens s)\<rparr>)"

definition bucketExistsLocked :: "string \<Rightarrow> PrekeyStore \<Rightarrow> bool" where
  "bucketExistsLocked key s \<longleftrightarrow> fmlookup (pk_queues s) key \<noteq> None \<or> fmlookup (pk_lastResort s) key \<noteq> None"

definition bucketCountLocked :: "PrekeyStore \<Rightarrow> int" where
  "bucketCountLocked s = go_len (pk_queues s) + int (fcard (fmdom (pk_lastResort s) |-| fmdom (pk_queues s)))"

section \<open>Publishing\<close>

text \<open>The loop over the published entries: the pool so far, the ids in it, and the number admitted.\<close>

fun publishEntries ::
  "int \<Rightarrow> time \<Rightarrow> PrekeyEntry list \<Rightarrow> string fset \<Rightarrow> pk_item list \<Rightarrow> int \<Rightarrow> pk_item list \<times> int" where
  "publishEntries cap now [] existing queue added = (queue, added)"
| "publishEntries cap now (candidate # rest) existing queue added =
     (let candidate = candidate\<lparr>pk_OpkID := TrimSpace (pk_OpkID candidate)\<rparr> in
      if pk_OpkID candidate = [] \<or> pk_PublicKey candidate = [] \<or> pk_Signature candidate = []
      then publishEntries cap now rest existing queue added
      else if pk_OpkID candidate |\<in>| existing then publishEntries cap now rest existing queue added
      else if int (length queue) \<ge> cap then (queue, added)
      else publishEntries cap now rest (finsert (pk_OpkID candidate) existing)
             (queue @ [\<lparr>pki_value = candidate, pki_publishedAt = now\<rparr>]) (added + 1))"

definition publishLastResort :: "string \<Rightarrow> time \<Rightarrow> PrekeyEntry option \<Rightarrow> PrekeyStore \<Rightarrow> PrekeyStore" where
  "publishLastResort key now lastResort s =
     (case lastResort of
        None \<Rightarrow> s
      | Some lr \<Rightarrow>
          let lr = lr\<lparr>pk_OpkID := TrimSpace (pk_OpkID lr)\<rparr> in
          if pk_OpkID lr \<noteq> [] \<and> pk_PublicKey lr \<noteq> [] \<and> pk_Signature lr \<noteq> []
          then s\<lparr>pk_lastResort := fmupd key
                 \<lparr>pki_value = lr\<lparr>pk_LastResort := True\<rparr>, pki_publishedAt = now\<rparr> (pk_lastResort s)\<rparr>
          else s)"

definition Publish :: "time \<Rightarrow> string \<Rightarrow> PrekeyPublish \<Rightarrow> PrekeyStore \<Rightarrow> (int \<times> bool) \<times> PrekeyStore" where
  "Publish now ownerTag val s =
     (let ownerTag = TrimSpace ownerTag in
      if ownerTag = [] then ((0, False), s)
      else
        let key = bucketKey ownerTag (TrimSpace (pub_DeviceKey val));
            s = prekey_pruneLocked now s
        in if \<not> bucketExistsLocked key s \<and> bucketCountLocked s \<ge> pk_maxBuckets s then ((0, False), s)
           else
             let existing = fset_of_list (map (\<lambda>item. pk_OpkID (pki_value item)) (queueOf key s));
                 (queue, added) = publishEntries (pk_maxPerRecipient s) now (pub_Entries val) existing
                                    (queueOf key s) 0;
                 s = (if added = 0 then s else s\<lparr>pk_queues := fmupd key queue (pk_queues s)\<rparr>)
             in ((added, True), publishLastResort key now (pub_LastResort val) s))"

section \<open>Claiming\<close>

text \<open>The bucket after the refill of \<open>takeTokenLocked\<close>; one seen for the first time starts full.\<close>

definition refillBucket :: "(rat \<Rightarrow> rat) \<Rightarrow> string \<Rightarrow> time \<Rightarrow> PrekeyStore \<Rightarrow> bucketState" where
  "refillBucket fl key now s =
     (case fmlookup (pk_tokens s) key of
        None \<Rightarrow> \<lparr>bs_tokens = pk_claimBurst s, bs_lastRefill = now\<rparr>
      | Some st \<Rightarrow>
          let elapsed = time_Sub now (bs_lastRefill st) in
          if elapsed > 0
          then let t = fl (bs_tokens st + fl (fl (of_int elapsed) / fl (of_int (pk_claimRefill s))))
               in \<lparr>bs_tokens = (if t > pk_claimBurst s then pk_claimBurst s else t), bs_lastRefill = now\<rparr>
          else st)"

definition takeTokenLocked :: "(rat \<Rightarrow> rat) \<Rightarrow> string \<Rightarrow> time \<Rightarrow> PrekeyStore \<Rightarrow> bool \<times> PrekeyStore" where
  "takeTokenLocked fl key now s =
     (let st = refillBucket fl key now s;
          available = (bs_tokens st \<ge> 1);
          st = (if available then st\<lparr>bs_tokens := fl (bs_tokens st - 1)\<rparr> else st)
      in (available, s\<lparr>pk_tokens := fmupd key st (pk_tokens s)\<rparr>))"

definition serveLastResort :: "string \<Rightarrow> PrekeyStore \<Rightarrow> PrekeyEntry \<times> bool" where
  "serveLastResort key s =
     (case fmlookup (pk_lastResort s) key of
        None \<Rightarrow> (zero_PrekeyEntry, False)
      | Some lr \<Rightarrow> ((pki_value lr)\<lparr>pk_LastResort := True\<rparr>, True))"

definition Claim ::
  "(rat \<Rightarrow> rat) \<Rightarrow> time \<Rightarrow> string \<Rightarrow> string \<Rightarrow> PrekeyStore \<Rightarrow> (PrekeyEntry \<times> bool) \<times> PrekeyStore" where
  "Claim fl now ownerTag deviceKey s =
     (let key = bucketKey (TrimSpace ownerTag) (TrimSpace deviceKey);
          s = prekey_pruneLocked now s
      in case queueOf key s of
           [] \<Rightarrow> (serveLastResort key s, s)
         | claimed # rest \<Rightarrow>
             let (available, s) = takeTokenLocked fl key now s in
             if available
             then ((pki_value claimed, True),
                   s\<lparr>pk_queues := (if rest = [] then fmdrop key (pk_queues s) else fmupd key rest (pk_queues s))\<rparr>)
             else (serveLastResort key s, s))"

section \<open>Status and counts\<close>

definition prekey_Status :: "time \<Rightarrow> string \<Rightarrow> string \<Rightarrow> PrekeyStore \<Rightarrow> int \<times> PrekeyStore" where
  "prekey_Status now ownerTag deviceKey s =
     (let s = prekey_pruneLocked now s
      in (int (length (queueOf (bucketKey (TrimSpace ownerTag) (TrimSpace deviceKey)) s)), s))"

definition prekey_Prune :: "time \<Rightarrow> PrekeyStore \<Rightarrow> PrekeyStore" where
  "prekey_Prune now s = prekey_pruneLocked now s"

definition BucketCount :: "time \<Rightarrow> PrekeyStore \<Rightarrow> int \<times> PrekeyStore" where
  "BucketCount now s = (let s = prekey_pruneLocked now s in (bucketCountLocked s, s))"

definition prekey_Count :: "(string fset \<Rightarrow> string list) \<Rightarrow> time \<Rightarrow> PrekeyStore \<Rightarrow> int \<times> PrekeyStore" where
  "prekey_Count rng now s =
     (let s = prekey_pruneLocked now s
      in (fold (\<lambda>k total. total + int (length (queueOf k s))) (rng (fmdom (pk_queues s))) 0, s))"

definition LastResortCount :: "time \<Rightarrow> PrekeyStore \<Rightarrow> int \<times> PrekeyStore" where
  "LastResortCount now s = (let s = prekey_pruneLocked now s in (go_len (pk_lastResort s), s))"

end
