(* ===== verification/Machine.thy ===== *)
theory Machine
  imports Prelude
begin

text \<open>
  Machines: a component as a step function over its requests, with the events a step makes
  visible. An invariant of a machine is a predicate over the events so far and the state; the
  interface \<open>observed_machine\<close> carries it from the steps to whole histories.
\<close>

fun trace :: "('r \<Rightarrow> 's \<Rightarrow> 'e list \<times> 's) \<Rightarrow> 'r list \<Rightarrow> 's \<Rightarrow> 'e list \<times> 's" where
  "trace step [] s = ([], s)"
| "trace step (r # rs) s =
     (let (es, s) = step r s; (es', s) = trace step rs s in (es @ es', s))"

lemma trace_append:
  assumes "trace step rs s = (es, u)" "trace step rs' u = (es', v)"
  shows "trace step (rs @ rs') s = (es @ es', v)"
  using assms by (induction rs arbitrary: s es) (auto simp: Let_def split: prod.splits)

locale observed_machine =
  fixes step :: "'r \<Rightarrow> 's \<Rightarrow> 'e list \<times> 's"
    and ok :: "'r \<Rightarrow> bool"
    and inv :: "'e list \<Rightarrow> 's \<Rightarrow> bool"
  assumes step_inv: "inv es s \<Longrightarrow> ok r \<Longrightarrow> step r s = (es', s') \<Longrightarrow> inv (es @ es') s'"
begin

lemma trace_inv:
  assumes "inv es s" "list_all ok rs" "trace step rs s = (es', s')"
  shows "inv (es @ es') s'"
  using assms
proof (induction rs arbitrary: es s es')
  case (Cons r rs)
  obtain es1 s1 where one: "step r s = (es1, s1)" by (cases "step r s")
  obtain es2 s2 where two: "trace step rs s1 = (es2, s2)" by (cases "trace step rs s1")
  from Cons.prems(3) one two have eq: "es' = es1 @ es2" "s' = s2" by simp_all
  have "inv (es @ es1) s1" using step_inv [OF Cons.prems(1) _ one] Cons.prems(2) by simp
  from Cons.IH [OF this _ two [folded eq(2)]] Cons.prems(2) show ?case by (simp add: eq)
qed simp

end

text \<open>An invariant of the state alone.\<close>

locale machine =
  fixes step :: "'r \<Rightarrow> 's \<Rightarrow> 'e list \<times> 's"
    and ok :: "'r \<Rightarrow> bool"
    and inv :: "'s \<Rightarrow> bool"
  assumes step_keeps: "inv s \<Longrightarrow> ok r \<Longrightarrow> step r s = (es', s') \<Longrightarrow> inv s'"

sublocale machine \<subseteq> state: observed_machine step ok "\<lambda>_. inv"
  by unfold_locales (rule step_keeps)

context machine
begin

lemma run_keeps: "inv s \<Longrightarrow> list_all ok rs \<Longrightarrow> inv (snd (trace step rs s))"
  using state.trace_inv [of s rs "fst (trace step rs s)" "snd (trace step rs s)"] by simp

end

text \<open>
  An invariant that also speaks of the instant of the last request, for a clock that does not go
  back.
\<close>

locale clocked_machine =
  fixes step :: "'r \<Rightarrow> 's \<Rightarrow> 'e list \<times> 's"
    and at :: "'r \<Rightarrow> time"
    and inv :: "'e list \<Rightarrow> time \<Rightarrow> 's \<Rightarrow> bool"
  assumes step_clocked: "inv es T s \<Longrightarrow> T \<le> at r \<Longrightarrow> step r s = (es', s') \<Longrightarrow> inv (es @ es') (at r) s'"
begin

lemma trace_clocked:
  assumes "inv es T s" "sorted (T # map at rs)" "trace step rs s = (es', s')"
  shows "inv (es @ es') (last (T # map at rs)) s'"
  using assms
proof (induction rs arbitrary: es T s es')
  case (Cons r rs)
  obtain es1 s1 where one: "step r s = (es1, s1)" by (cases "step r s")
  obtain es2 s2 where two: "trace step rs s1 = (es2, s2)" by (cases "trace step rs s1")
  from Cons.prems(3) one two have eq: "es' = es1 @ es2" "s' = s2" by simp_all
  have "inv (es @ es1) (at r) s1" using step_clocked [OF Cons.prems(1) _ one] Cons.prems(2) by simp
  from Cons.IH [OF this _ two [folded eq(2)]] Cons.prems(2) show ?case by (simp add: eq)
qed simp

end

end
