(* ===== verification/Prekey_Inv.thy ===== *)
theory Prekey_Inv
  imports Prekey Machine
begin

text \<open>
  The prekey store as a machine, its invariant, and the ledger of admitted and issued one-time
  prekeys.
\<close>

section \<open>The machine\<close>

datatype prekey_request =
    PublishReq time string PrekeyPublish
  | ClaimReq time string string
  | PruneReq time

text \<open>
  The events are the one-time entries a publish admitted to a pool and the one-time entry a claim
  took out of one. The read operations only prune.
\<close>

datatype prekey_event = Admitted string pk_item | Issued string pk_item

fun prekey_step :: "(rat \<Rightarrow> rat) \<Rightarrow> prekey_request \<Rightarrow> PrekeyStore \<Rightarrow> prekey_event list \<times> PrekeyStore" where
  "prekey_step fl (PublishReq now tag val) s =
     (let key = bucketKey (TrimSpace tag) (TrimSpace (pub_DeviceKey val)); s' = snd (Publish now tag val s)
      in (if fst (fst (Publish now tag val s)) = 0 then []
          else map (Admitted key) (drop (length (queueOf key (prekey_pruneLocked now s))) (queueOf key s')), s'))"
| "prekey_step fl (ClaimReq now tag dev) s =
     (let key = bucketKey (TrimSpace tag) (TrimSpace dev); pruned = prekey_pruneLocked now s;
          s' = snd (Claim fl now tag dev s)
      in (if length (queueOf key s') < length (queueOf key pruned)
          then [Issued key (hd (queueOf key pruned))] else [], s'))"
| "prekey_step fl (PruneReq now) s = ([], prekey_Prune now s)"

section \<open>Pruning\<close>

lemma lookup_pruneQueues:
  "fmlookup (pruneQueues live m) k =
     (case fmlookup m k of None \<Rightarrow> None | Some q \<Rightarrow> if filter live q = [] then None else Some (filter live q))"
  by (auto simp: pruneQueues_def Let_def split: option.splits)

lemma prune_fields [simp]:
  "pk_maxPerRecipient (prekey_pruneLocked now s) = pk_maxPerRecipient s"
  "pk_maxBuckets (prekey_pruneLocked now s) = pk_maxBuckets s"
  "pk_publishedTTL (prekey_pruneLocked now s) = pk_publishedTTL s"
  "pk_claimBurst (prekey_pruneLocked now s) = pk_claimBurst s"
  "pk_claimRefill (prekey_pruneLocked now s) = pk_claimRefill s"
  by (simp_all add: prekey_pruneLocked_def Let_def)

lemma prune_queues: "pk_queues (prekey_pruneLocked now s) = pruneQueues (pki_live now s) (pk_queues s)"
  by (simp add: prekey_pruneLocked_def Let_def pki_live_def)

lemma queueOf_prune: "queueOf k (prekey_pruneLocked now s) = filter (pki_live now s) (queueOf k s)"
  by (auto simp: queueOf_def prune_queues lookup_pruneQueues split: option.splits)

lemma prune_lastResort:
  "fmlookup (pk_lastResort (prekey_pruneLocked now s)) k =
     (case fmlookup (pk_lastResort s) k of None \<Rightarrow> None | Some i \<Rightarrow> if pki_live now s i then Some i else None)"
  by (auto simp: prekey_pruneLocked_def Let_def pki_live_def split: option.splits)

lemma prune_tokens:
  "fmlookup (pk_tokens (prekey_pruneLocked now s)) k =
     (if bucketExistsLocked k (prekey_pruneLocked now s) then fmlookup (pk_tokens s) k else None)"
proof -
  let ?s = "prekey_pruneLocked now s"
  have "queueOf k ?s \<noteq> [] \<longleftrightarrow> fmlookup (pk_queues ?s) k \<noteq> None"
    by (auto simp: queueOf_def prune_queues lookup_pruneQueues split: option.splits)
  then show ?thesis
    by (auto simp: bucketExistsLocked_def prekey_pruneLocked_def Let_def queueOf_def pki_live_def)
qed

section \<open>The invariant\<close>

definition buckets :: "PrekeyStore \<Rightarrow> string set" where
  "buckets s = fmdom' (pk_queues s) \<union> fmdom' (pk_lastResort s)"

lemma bucketCount_buckets: "bucketCountLocked s = int (card (buckets s))"
proof -
  have "card (fmdom' (pk_queues s) \<union> (fmdom' (pk_lastResort s) - fmdom' (pk_queues s))) =
      card (fmdom' (pk_queues s)) + card (fmdom' (pk_lastResort s) - fmdom' (pk_queues s))"
    by (rule card_Un_disjoint) auto
  then have "card (buckets s) = card (fmdom' (pk_queues s)) + card (fmdom' (pk_lastResort s) - fmdom' (pk_queues s))"
    by (simp add: buckets_def)
  then show ?thesis
    by (simp add: bucketCountLocked_def go_len_def fcard.rep_eq fmdom'_alt_def)
qed

lemma bucketExists_buckets: "bucketExistsLocked k s \<longleftrightarrow> k \<in> buckets s"
  by (auto simp: bucketExistsLocked_def buckets_def fmlookup_dom'_iff)

definition pool_ok :: "int \<Rightarrow> pk_item list \<Rightarrow> bool" where
  "pool_ok cap q \<longleftrightarrow> int (length q) \<le> cap \<and> distinct (map (\<lambda>i. pk_OpkID (pki_value i)) q) \<and>
     (\<forall>i\<in>set q. pk_OpkID (pki_value i) \<noteq> [] \<and> pk_PublicKey (pki_value i) \<noteq> [] \<and> pk_Signature (pki_value i) \<noteq> [])"

definition prekey_wf :: "PrekeyStore \<Rightarrow> bool" where
  "prekey_wf s \<longleftrightarrow>
     0 \<le> pk_maxPerRecipient s \<and>
     (\<forall>k q. fmlookup (pk_queues s) k = Some q \<longrightarrow> q \<noteq> [] \<and> pool_ok (pk_maxPerRecipient s) q) \<and>
     (\<forall>k i. fmlookup (pk_lastResort s) k = Some i \<longrightarrow> pk_LastResort (pki_value i)) \<and>
     int (card (buckets s)) \<le> pk_maxBuckets s \<and>
     go_len (pk_tokens s) \<le> pk_maxBuckets s"

lemma pool_ok_queueOf: "prekey_wf s \<Longrightarrow> pool_ok (pk_maxPerRecipient s) (queueOf k s)"
  by (auto simp: prekey_wf_def queueOf_def pool_ok_def split: option.splits)

lemma pool_ok_filter: "pool_ok cap q \<Longrightarrow> pool_ok cap (filter P q)"
  by (auto simp: pool_ok_def distinct_map_filter intro: order_trans [of _ "int (length q)"])

lemma buckets_prune: "buckets (prekey_pruneLocked now s) \<subseteq> buckets s"
  by (auto simp: buckets_def fmlookup_dom'_iff prune_queues lookup_pruneQueues prune_lastResort
      split: option.splits if_splits)

lemma finite_buckets [simp]: "finite (buckets s)"
  by (simp add: buckets_def)

text \<open>After a prune the limiter state belongs to live buckets only.\<close>

definition tokens_in_buckets :: "PrekeyStore \<Rightarrow> bool" where
  "tokens_in_buckets s \<longleftrightarrow> fmdom' (pk_tokens s) \<subseteq> buckets s"

lemma prune_wf:
  assumes "prekey_wf s"
  shows "prekey_wf (prekey_pruneLocked now s)" "tokens_in_buckets (prekey_pruneLocked now s)"
proof -
  let ?s = "prekey_pruneLocked now s"
  show tok: "tokens_in_buckets ?s"
    by (auto simp: tokens_in_buckets_def fmlookup_dom'_iff prune_tokens bucketExists_buckets split: if_splits)
  have "card (buckets ?s) \<le> card (buckets s)" by (intro card_mono buckets_prune) simp
  moreover from tok have "card (fmdom' (pk_tokens ?s)) \<le> card (buckets ?s)"
    by (auto simp: tokens_in_buckets_def intro: card_mono)
  ultimately show "prekey_wf ?s"
    using assms unfolding prekey_wf_def
    by (auto simp: prune_queues lookup_pruneQueues prune_lastResort go_len_def pool_ok_filter
        split: option.splits if_splits)
qed

section \<open>Publishing\<close>

abbreviation opk_ids :: "pk_item list \<Rightarrow> string list" where
  "opk_ids q \<equiv> map (\<lambda>i. pk_OpkID (pki_value i)) q"

lemma publishEntries_appends:
  assumes "publishEntries cap now cs existing q n = (q', n')" "existing = fset_of_list (opk_ids q)" "pool_ok cap q"
  shows "\<exists>new. q' = q @ new \<and> n' = n + int (length new) \<and> pool_ok cap q' \<and> (\<forall>i\<in>set new. pki_publishedAt i = now)"
  using assms
proof (induction cap now cs existing q n rule: publishEntries.induct)
  case (1 cap now existing q n)
  then show ?case by (intro exI [of _ "[]"]) simp
next
  case (2 cap now c rest existing q n)
  let ?c = "c\<lparr>pk_OpkID := TrimSpace (pk_OpkID c)\<rparr>"
  let ?i = "\<lparr>pki_value = ?c, pki_publishedAt = now\<rparr>"
  consider (bad) "pk_OpkID ?c = [] \<or> pk_PublicKey ?c = [] \<or> pk_Signature ?c = []"
    | (dup) "\<not> (pk_OpkID ?c = [] \<or> pk_PublicKey ?c = [] \<or> pk_Signature ?c = [])" "pk_OpkID ?c |\<in>| existing"
    | (full) "\<not> (pk_OpkID ?c = [] \<or> pk_PublicKey ?c = [] \<or> pk_Signature ?c = [])" "pk_OpkID ?c |\<notin>| existing"
        "int (length q) \<ge> cap"
    | (add) "\<not> (pk_OpkID ?c = [] \<or> pk_PublicKey ?c = [] \<or> pk_Signature ?c = [])" "pk_OpkID ?c |\<notin>| existing"
        "\<not> int (length q) \<ge> cap"
    by blast
  then show ?case
  proof cases
    case bad
    with 2(4-6) 2(1) [OF refl bad] show ?thesis by (simp add: Let_def)
  next
    case dup
    with 2(4-6) 2(2) [OF refl dup] show ?thesis by (simp add: Let_def)
  next
    case full
    with 2(4-6) show ?thesis by (intro exI [of _ "[]"]) (simp add: Let_def)
  next
    case add
    have ok: "pool_ok cap (q @ [?i])"
      using add 2(5,6) by (auto simp: pool_ok_def fset_of_list_elem)
    have "publishEntries cap now rest (finsert (pk_OpkID ?c) existing) (q @ [?i]) (n + 1) = (q', n')"
      using 2(4) add by (simp add: Let_def)
    from 2(3) [OF refl add this _ ok] 2(5) obtain new where
      "q' = (q @ [?i]) @ new" "n' = n + 1 + int (length new)" "pool_ok cap q'" "\<forall>i\<in>set new. pki_publishedAt i = now"
      by auto
    then show ?thesis by (intro exI [of _ "?i # new"]) simp
  qed
qed

lemma publishLastResort_fields [simp]:
  "pk_queues (publishLastResort k now lr s) = pk_queues s"
  "pk_tokens (publishLastResort k now lr s) = pk_tokens s"
  "pk_maxPerRecipient (publishLastResort k now lr s) = pk_maxPerRecipient s"
  "pk_maxBuckets (publishLastResort k now lr s) = pk_maxBuckets s"
  "pk_publishedTTL (publishLastResort k now lr s) = pk_publishedTTL s"
  "pk_claimBurst (publishLastResort k now lr s) = pk_claimBurst s"
  by (simp_all add: publishLastResort_def Let_def split: option.splits)

lemma publishLastResort_lookup:
  "fmlookup (pk_lastResort (publishLastResort k now lr s)) x \<noteq> fmlookup (pk_lastResort s) x \<Longrightarrow>
     x = k \<and> (\<exists>i. fmlookup (pk_lastResort (publishLastResort k now lr s)) x = Some i \<and> pk_LastResort (pki_value i))"
  by (auto simp: publishLastResort_def Let_def split: option.splits if_splits)

text \<open>The outcome of a publish: refused, or the pool is extended at its end.\<close>

lemma Publish_cases:
  assumes wf: "prekey_wf s" and call: "Publish now tag val s = ((added, ok), s')"
  defines "key \<equiv> bucketKey (TrimSpace tag) (TrimSpace (pub_DeviceKey val))"
  shows "(TrimSpace tag = [] \<and> \<not> ok \<and> added = 0 \<and> s' = s) \<or>
    (TrimSpace tag \<noteq> [] \<and> \<not> ok \<and> added = 0 \<and> s' = prekey_pruneLocked now s \<and>
       key \<notin> buckets s' \<and> pk_maxBuckets s \<le> int (card (buckets s'))) \<or>
    (\<exists>new. TrimSpace tag \<noteq> [] \<and> ok \<and> added = int (length new) \<and>
       (key \<in> buckets (prekey_pruneLocked now s) \<or> int (card (buckets (prekey_pruneLocked now s))) < pk_maxBuckets s) \<and>
       (\<forall>i\<in>set new. pki_publishedAt i = now) \<and> pool_ok (pk_maxPerRecipient s) (queueOf key (prekey_pruneLocked now s) @ new) \<and>
       s' = publishLastResort key now (pub_LastResort val)
         (if new = [] then prekey_pruneLocked now s
          else (prekey_pruneLocked now s)\<lparr>pk_queues :=
            fmupd key (queueOf key (prekey_pruneLocked now s) @ new) (pk_queues (prekey_pruneLocked now s))\<rparr>))"
proof -
  let ?p = "prekey_pruneLocked now s"
  have pool: "pool_ok (pk_maxPerRecipient s) (queueOf key ?p)"
    using pool_ok_queueOf [OF prune_wf(1) [OF wf]] by simp
  obtain q n where pe: "publishEntries (pk_maxPerRecipient s) now (pub_Entries val)
      (fset_of_list (opk_ids (queueOf key ?p))) (queueOf key ?p) 0 = (q, n)"
    by fastforce
  from publishEntries_appends [OF pe refl pool] obtain new where new:
    "q = queueOf key ?p @ new" "n = int (length new)" "pool_ok (pk_maxPerRecipient s) q"
    "\<forall>i\<in>set new. pki_publishedAt i = now" by auto
  have eq: "Publish now tag val s =
      (if TrimSpace tag = [] then ((0, False), s)
       else if key \<notin> buckets ?p \<and> pk_maxBuckets s \<le> int (card (buckets ?p)) then ((0, False), ?p)
       else ((n, True), publishLastResort key now (pub_LastResort val)
               (if n = 0 then ?p else ?p\<lparr>pk_queues := fmupd key q (pk_queues ?p)\<rparr>)))"
    unfolding Publish_def Let_def key_def [symmetric] prune_fields bucketExists_buckets bucketCount_buckets pe
    by simp
  consider "TrimSpace tag = []" | "TrimSpace tag \<noteq> []" "key \<notin> buckets ?p \<and> pk_maxBuckets s \<le> int (card (buckets ?p))"
    | (ok) "TrimSpace tag \<noteq> []" "\<not> (key \<notin> buckets ?p \<and> pk_maxBuckets s \<le> int (card (buckets ?p)))"
    by blast
  then show ?thesis
  proof cases
    case ok
    from call [unfolded eq if_not_P [OF ok(1)] if_not_P [OF ok(2)]] ok new show ?thesis
      by (intro disjI2 exI [of _ new]) (auto simp: not_le)
  qed (use call in \<open>simp_all add: eq\<close>)
qed

lemma Publish_wf:
  assumes "prekey_wf s"
  shows "prekey_wf (snd (Publish now tag val s))"
proof -
  let ?p = "prekey_pruneLocked now s" and ?key = "bucketKey (TrimSpace tag) (TrimSpace (pub_DeviceKey val))"
  obtain added ok s' where call: "Publish now tag val s = ((added, ok), s')" by (metis prod.exhaust)
  note p = prune_wf [OF assms, of now]
  from Publish_cases [OF assms call] consider "s' = s" | "s' = ?p"
    | (ext) new where "?key \<in> buckets ?p \<or> int (card (buckets ?p)) < pk_maxBuckets s"
      "pool_ok (pk_maxPerRecipient s) (queueOf ?key ?p @ new)"
      "s' = publishLastResort ?key now (pub_LastResort val)
         (if new = [] then ?p else ?p\<lparr>pk_queues := fmupd ?key (queueOf ?key ?p @ new) (pk_queues ?p)\<rparr>)"
    by blast
  then have "prekey_wf s'"
  proof cases
    case ext
    let ?q = "if new = [] then ?p else ?p\<lparr>pk_queues := fmupd ?key (queueOf ?key ?p @ new) (pk_queues ?p)\<rparr>"
    have lr: "fmlookup (pk_lastResort s') x = fmlookup (pk_lastResort ?p) x \<or>
        x = ?key \<and> (\<exists>i. fmlookup (pk_lastResort s') x = Some i \<and> pk_LastResort (pki_value i))" for x
      using publishLastResort_lookup [of ?key now "pub_LastResort val" ?q x] by (auto simp: ext(3))
    have sub: "buckets s' \<subseteq> insert ?key (buckets ?p)"
    proof
      fix x assume "x \<in> buckets s'"
      then have "fmlookup (pk_queues s') x \<noteq> None \<or> fmlookup (pk_lastResort s') x \<noteq> None"
        by (auto simp: buckets_def fmlookup_dom'_iff)
      with lr [of x] show "x \<in> insert ?key (buckets ?p)"
        by (auto simp: ext(3) buckets_def fmlookup_dom'_iff split: if_splits)
    qed
    have "int (card (insert ?key (buckets ?p))) \<le> pk_maxBuckets s"
      using ext(1) p(1) by (auto simp: prekey_wf_def card_insert_if)
    moreover have "card (buckets s') \<le> card (insert ?key (buckets ?p))"
      by (rule card_mono [OF _ sub]) simp
    ultimately have "int (card (buckets s')) \<le> pk_maxBuckets s" by linarith
    moreover have "pk_LastResort (pki_value i)" if "fmlookup (pk_lastResort s') x = Some i" for x i
      using that lr [of x] p(1) by (auto simp: prekey_wf_def)
    moreover have "q \<noteq> [] \<and> pool_ok (pk_maxPerRecipient s) q" if "fmlookup (pk_queues s') x = Some q" for x q
      using that ext(2) p(1) by (auto simp: prekey_wf_def ext(3) split: if_splits)
    moreover have "pk_maxPerRecipient s' = pk_maxPerRecipient s" "pk_maxBuckets s' = pk_maxBuckets s"
      "pk_tokens s' = pk_tokens ?p"
      by (simp_all add: ext(3))
    ultimately show ?thesis
      using p(1) unfolding prekey_wf_def prune_fields by auto
  qed (use assms p in simp_all)
  then show ?thesis by (simp add: call)
qed

section \<open>Claiming\<close>

lemma takeToken_fields:
  "pk_queues (snd (takeTokenLocked fl k now s)) = pk_queues s"
  "pk_lastResort (snd (takeTokenLocked fl k now s)) = pk_lastResort s"
  "pk_maxPerRecipient (snd (takeTokenLocked fl k now s)) = pk_maxPerRecipient s"
  "pk_maxBuckets (snd (takeTokenLocked fl k now s)) = pk_maxBuckets s"
  "pk_publishedTTL (snd (takeTokenLocked fl k now s)) = pk_publishedTTL s"
  "pk_claimBurst (snd (takeTokenLocked fl k now s)) = pk_claimBurst s"
  "pk_claimRefill (snd (takeTokenLocked fl k now s)) = pk_claimRefill s"
  "fmdom' (pk_tokens (snd (takeTokenLocked fl k now s))) = insert k (fmdom' (pk_tokens s))"
  by (simp_all add: takeTokenLocked_def Let_def)

text \<open>The outcome of a claim: the last-resort prekey or nothing, or the oldest one-time entry.\<close>

lemma Claim_cases:
  defines "p \<equiv> \<lambda>now s. prekey_pruneLocked now s" and "key \<equiv> \<lambda>tag dev. bucketKey (TrimSpace tag) (TrimSpace dev)"
  obtains (empty) "queueOf (key tag dev) (p now s) = []"
      "Claim fl now tag dev s = (serveLastResort (key tag dev) (p now s), p now s)"
  | (limited) q qs where "queueOf (key tag dev) (p now s) = q # qs"
      "\<not> fst (takeTokenLocked fl (key tag dev) now (p now s))"
      "Claim fl now tag dev s = (serveLastResort (key tag dev) (p now s), snd (takeTokenLocked fl (key tag dev) now (p now s)))"
  | (popped) q qs where "queueOf (key tag dev) (p now s) = q # qs"
      "fst (takeTokenLocked fl (key tag dev) now (p now s))"
      "Claim fl now tag dev s = ((pki_value q, True),
         (snd (takeTokenLocked fl (key tag dev) now (p now s)))\<lparr>pk_queues :=
            (if qs = [] then fmdrop (key tag dev) (pk_queues (p now s))
             else fmupd (key tag dev) qs (pk_queues (p now s)))\<rparr>)"
proof (cases "queueOf (key tag dev) (p now s)")
  case Nil
  with empty show ?thesis by (simp add: Claim_def Let_def p_def key_def)
next
  case (Cons q qs)
  have serve: "serveLastResort k (snd (takeTokenLocked fl k now t)) = serveLastResort k t" for k t
    by (simp add: serveLastResort_def takeToken_fields)
  show ?thesis
  proof (cases "fst (takeTokenLocked fl (key tag dev) now (p now s))")
    case True
    with popped [OF Cons] Cons show ?thesis
      by (simp add: Claim_def Let_def p_def key_def case_prod_beta takeToken_fields)
  next
    case False
    with limited [OF Cons] Cons show ?thesis
      by (simp add: Claim_def Let_def p_def key_def case_prod_beta serve)
  qed
qed

lemma queueOf_takeToken [simp]: "queueOf k (snd (takeTokenLocked fl k' now s)) = queueOf k s"
  by (simp add: queueOf_def takeToken_fields)

lemma takeToken_wf:
  assumes "prekey_wf s" "tokens_in_buckets s" "queueOf k s \<noteq> []"
  shows "prekey_wf (snd (takeTokenLocked fl k now s))" "tokens_in_buckets (snd (takeTokenLocked fl k now s))"
proof -
  let ?t = "snd (takeTokenLocked fl k now s)"
  have "k \<in> buckets s"
    using assms(3) by (auto simp: queueOf_def buckets_def fmlookup_dom'_iff split: option.splits)
  moreover have b: "buckets ?t = buckets s" by (simp add: buckets_def takeToken_fields)
  ultimately show tok: "tokens_in_buckets ?t"
    using assms(2) by (simp add: tokens_in_buckets_def takeToken_fields)
  have "card (fmdom' (pk_tokens ?t)) \<le> card (buckets ?t)"
    by (rule card_mono [OF finite_buckets]) (use tok in \<open>simp add: tokens_in_buckets_def\<close>)
  then show "prekey_wf ?t"
    using assms(1) by (simp add: prekey_wf_def takeToken_fields b go_len_def)
qed

lemma Claim_wf:
  assumes "prekey_wf s"
  shows "prekey_wf (snd (Claim fl now tag dev s))"
proof -
  let ?p = "prekey_pruneLocked now s" and ?key = "bucketKey (TrimSpace tag) (TrimSpace dev)"
  note p = prune_wf [OF assms, of now]
  show ?thesis
  proof (cases rule: Claim_cases [of tag dev now s fl])
    case empty
    with p show ?thesis by simp
  next
    case (limited q qs)
    with takeToken_wf(1) [OF p] show ?thesis by simp
  next
    case (popped q qs)
    let ?t = "snd (takeTokenLocked fl ?key now ?p)"
    let ?s = "?t\<lparr>pk_queues := (if qs = [] then fmdrop ?key (pk_queues ?p) else fmupd ?key qs (pk_queues ?p))\<rparr>"
    have t: "prekey_wf ?t" using popped(1) by (intro takeToken_wf(1) [OF p]) simp
    have "buckets ?s \<subseteq> buckets ?t"
      using popped(1) by (auto simp: buckets_def takeToken_fields fmlookup_dom'_iff queueOf_def
          split: option.splits if_splits)
    then have "card (buckets ?s) \<le> card (buckets ?t)" by (rule card_mono [OF finite_buckets])
    moreover have "pool_ok (pk_maxPerRecipient s) qs"
      using pool_ok_queueOf [OF p(1), of ?key] popped(1) by (auto simp: pool_ok_def)
    ultimately have "prekey_wf ?s"
      using t by (auto simp: prekey_wf_def takeToken_fields split: if_splits)
    with popped(3) show ?thesis by simp
  qed
qed

interpretation prekey_bounds: machine "prekey_step fl" "\<lambda>_. True" prekey_wf for fl
proof unfold_locales
  fix s r es' s'
  assume "prekey_wf s" "prekey_step fl r s = (es', s')"
  then show "prekey_wf s'"
    by (cases r) (auto simp: Let_def prekey_Prune_def prune_wf Publish_wf Claim_wf)
qed

end
