(* ===== verification/Prekey_Ledger.thy ===== *)
theory Prekey_Ledger
  imports Prekey_Inv
begin

text \<open>
  The ledger of one-time prekeys: what pools admitted, what claims took out, and what is left; and
  the token bucket under floating-point rounding.
\<close>

section \<open>The ledger\<close>

fun admitted_of :: "prekey_event list \<Rightarrow> (string \<times> pk_item) list" where
  "admitted_of [] = []"
| "admitted_of (Admitted k i # es) = (k, i) # admitted_of es"
| "admitted_of (Issued k i # es) = admitted_of es"

fun issued_of :: "prekey_event list \<Rightarrow> (string \<times> pk_item) list" where
  "issued_of [] = []"
| "issued_of (Issued k i # es) = (k, i) # issued_of es"
| "issued_of (Admitted k i # es) = issued_of es"

lemma admitted_append [simp]: "admitted_of (es @ es') = admitted_of es @ admitted_of es'"
  by (induction es rule: admitted_of.induct) simp_all

lemma issued_append [simp]: "issued_of (es @ es') = issued_of es @ issued_of es'"
  by (induction es rule: issued_of.induct) simp_all

lemma admitted_map [simp]: "admitted_of (map (Admitted k) is) = map (Pair k) is"
  by (induction "is") simp_all

lemma issued_map [simp]: "issued_of (map (Admitted k) is) = []"
  by (induction "is") simp_all

text \<open>Per pool and entry: issued and still available together never exceed admitted.\<close>

definition ledger_ok :: "prekey_event list \<Rightarrow> PrekeyStore \<Rightarrow> bool" where
  "ledger_ok es s \<longleftrightarrow>
     (\<forall>k i. count (mset (issued_of es)) (k, i) + count (mset (queueOf k s)) i
              \<le> count (mset (admitted_of es)) (k, i))"

lemma count_filter_le: "count (mset (filter P q)) i \<le> count (mset q) i"
  by simp

lemma count_map_Pair: "count (image_mset (Pair k') M) (k, i) = (if k = k' then count M i else 0)"
  by (induction M) auto

lemma ledger_prune: "ledger_ok es s \<Longrightarrow> ledger_ok es (prekey_pruneLocked now s)"
  unfolding ledger_ok_def queueOf_prune
  by (meson add_left_mono count_filter_le order_trans)

lemma queueOf_publishLastResort [simp]: "queueOf k (publishLastResort k' now lr s) = queueOf k s"
  by (simp add: queueOf_def)

lemma ledger_publish:
  assumes wf: "prekey_wf s" and led: "ledger_ok es s" and step: "prekey_step fl (PublishReq now tag val) s = (es', s')"
  shows "ledger_ok (es @ es') s'"
proof -
  let ?p = "prekey_pruneLocked now s" and ?key = "bucketKey (TrimSpace tag) (TrimSpace (pub_DeviceKey val))"
  obtain added ok where call: "Publish now tag val s = ((added, ok), s')"
    using step by (cases "Publish now tag val s") (auto simp: Let_def)
  note p = ledger_prune [OF led, of now]
  from Publish_cases [OF wf call] consider "added = 0" "s' = s" | "added = 0" "s' = ?p"
    | (ext) new where "added = int (length new)"
      "s' = publishLastResort ?key now (pub_LastResort val)
         (if new = [] then ?p else ?p\<lparr>pk_queues := fmupd ?key (queueOf ?key ?p @ new) (pk_queues ?p)\<rparr>)"
    by blast
  then show ?thesis
  proof cases
    case ext
    have q: "queueOf k s' = queueOf k ?p @ (if k = ?key then new else [])" for k
      by (auto simp: ext(2) queueOf_def)
    have es': "es' = map (Admitted ?key) new"
      using step call ext(1) by (auto simp: Let_def q)
    show ?thesis
      using p unfolding ledger_ok_def q es' by (auto simp: count_map_Pair add.assoc [symmetric])
  qed (use step call led p in \<open>auto simp: Let_def\<close>)
qed

lemma ledger_claim:
  assumes led: "ledger_ok es s" and step: "prekey_step fl (ClaimReq now tag dev) s = (es', s')"
  shows "ledger_ok (es @ es') s'"
proof -
  let ?p = "prekey_pruneLocked now s" and ?key = "bucketKey (TrimSpace tag) (TrimSpace dev)"
  note p = ledger_prune [OF led, of now]
  show ?thesis
  proof (cases rule: Claim_cases [of tag dev now s fl])
    case empty
    with step p show ?thesis by (simp add: Let_def)
  next
    case (limited q qs)
    with step have "es' = []" "\<And>k. queueOf k s' = queueOf k ?p" by (auto simp: Let_def)
    with p show ?thesis by (simp add: ledger_ok_def)
  next
    case (popped q qs)
    have s': "s' = snd (Claim fl now tag dev s)" using step by (simp add: Let_def)
    have rest: "queueOf k s' = (if k = ?key then qs else queueOf k ?p)" for k
      unfolding s' popped(3) by (auto simp: queueOf_def)
    have es': "es' = [Issued ?key q]"
      using step popped(1) rest [of ?key, unfolded s'] by (simp add: Let_def)
    have at_key: "count (mset (issued_of es)) (?key, i) + count (mset (q # qs)) i \<le> count (mset (admitted_of es)) (?key, i)" for i
      using p unfolding ledger_ok_def popped(1) [symmetric] by blast
    show ?thesis
      unfolding ledger_ok_def es' rest
    proof (intro allI)
      fix k i
      show "count (mset (issued_of (es @ [Issued ?key q]))) (k, i) +
          count (mset (if k = ?key then qs else queueOf k ?p)) i
          \<le> count (mset (admitted_of (es @ [Issued ?key q]))) (k, i)"
        using at_key [of i] p by (auto simp: ledger_ok_def split: if_splits)
    qed
  qed
qed

interpretation prekey_ledger: observed_machine "prekey_step fl" "\<lambda>_. True"
  "\<lambda>es s. prekey_wf s \<and> ledger_ok es s" for fl
proof unfold_locales
  fix es s r es' s'
  assume A: "prekey_wf s \<and> ledger_ok es s" and step: "prekey_step fl r s = (es', s')"
  have "prekey_wf s'" using prekey_bounds.step_keeps [OF _ _ step] A by simp
  moreover have "ledger_ok (es @ es') s'"
  proof (cases r)
    case (PruneReq now)
    with step A show ?thesis by (auto simp: prekey_Prune_def ledger_prune)
  qed (use A step ledger_publish ledger_claim in blast)+
  ultimately show "prekey_wf s' \<and> ledger_ok (es @ es') s'" ..
qed

section \<open>The token bucket\<close>

text \<open>
  What the limiter relies on of IEEE double arithmetic: rounding is monotone and idempotent, exact
  on integers up to \<open>2 ^ 53\<close>, and subtracting one from a double between 1 and \<open>2 ^ 53\<close> is exact.
\<close>

definition rounds :: "(rat \<Rightarrow> rat) \<Rightarrow> bool" where
  "rounds fl \<longleftrightarrow>
     mono fl \<and> (\<forall>x. fl (fl x) = fl x) \<and>
     (\<forall>n :: int. \<bar>n\<bar> \<le> 2 ^ 53 \<longrightarrow> fl (of_int n) = of_int n) \<and>
     (\<forall>x. fl x = x \<longrightarrow> 1 \<le> x \<longrightarrow> x \<le> 2 ^ 53 \<longrightarrow> fl (x - 1) = x - 1)"

definition tokens_ok :: "(rat \<Rightarrow> rat) \<Rightarrow> PrekeyStore \<Rightarrow> bool" where
  "tokens_ok fl s \<longleftrightarrow>
     fl (pk_claimBurst s) = pk_claimBurst s \<and> 1 \<le> pk_claimBurst s \<and> pk_claimBurst s \<le> 2 ^ 53 \<and> 0 < pk_claimRefill s \<and>
     (\<forall>k st. fmlookup (pk_tokens s) k = Some st \<longrightarrow>
        0 \<le> bs_tokens st \<and> bs_tokens st \<le> pk_claimBurst s \<and> fl (bs_tokens st) = bs_tokens st)"

lemma rounds_nonneg: "rounds fl \<Longrightarrow> 0 \<le> x \<Longrightarrow> 0 \<le> fl x"
  using monoD [of fl 0 x] by (auto simp: rounds_def dest: spec [of _ 0])

text \<open>The tokens of a bucket that a claim at \<open>now\<close> finds after the refill.\<close>

definition tokens_at :: "(rat \<Rightarrow> rat) \<Rightarrow> string \<Rightarrow> time \<Rightarrow> PrekeyStore \<Rightarrow> rat" where
  "tokens_at fl k now s = bs_tokens (refillBucket fl k now s)"

lemma refill_idle:
  "\<not> 0 < time_Sub now (bs_lastRefill (refillBucket fl k now s))"
  "fmlookup (pk_tokens s') k = Some b \<Longrightarrow> \<not> 0 < time_Sub now (bs_lastRefill b) \<Longrightarrow> tokens_at fl k now s' = bs_tokens b"
proof -
  have "\<not> 0 < time_Sub now now" by (simp add: time_Sub_def min_duration_def max_duration_def)
  then show "\<not> 0 < time_Sub now (bs_lastRefill (refillBucket fl k now s))"
    by (auto simp: refillBucket_def Let_def split: option.splits)
  show "fmlookup (pk_tokens s') k = Some b \<Longrightarrow> \<not> 0 < time_Sub now (bs_lastRefill b) \<Longrightarrow>
      tokens_at fl k now s' = bs_tokens b"
    by (simp add: tokens_at_def refillBucket_def)
qed

lemma takeToken_eq:
  "fst (takeTokenLocked fl k now s) \<longleftrightarrow> 1 \<le> tokens_at fl k now s"
  "\<exists>st. pk_tokens (snd (takeTokenLocked fl k now s)) = fmupd k st (pk_tokens s) \<and>
     \<not> time_Sub now (bs_lastRefill st) > 0 \<and>
     bs_tokens st = (if 1 \<le> tokens_at fl k now s then fl (tokens_at fl k now s - 1) else tokens_at fl k now s)"
  using refill_idle(1) [of now fl k s] by (auto simp: takeTokenLocked_def tokens_at_def Let_def)

lemma tokens_at_ok:
  assumes fl: "rounds fl" and ok: "tokens_ok fl s"
  shows "0 \<le> tokens_at fl k now s" "tokens_at fl k now s \<le> pk_claimBurst s"
    "fl (tokens_at fl k now s) = tokens_at fl k now s"
proof -
  let ?add = "\<lambda>st e. fl (bs_tokens st + fl (fl (of_int e) / fl (of_int (pk_claimRefill s))))"
  have add: "0 \<le> ?add st e" if "fmlookup (pk_tokens s) k = Some st" "0 < e" for st e
    using that ok by (intro rounds_nonneg [OF fl] add_nonneg_nonneg divide_nonneg_nonneg) (auto simp: tokens_ok_def)
  have idem: "fl (fl x) = fl x" for x using fl by (simp add: rounds_def)
  show "0 \<le> tokens_at fl k now s"
    using ok add by (auto simp: tokens_at_def refillBucket_def tokens_ok_def Let_def split: option.splits)
  show "tokens_at fl k now s \<le> pk_claimBurst s"
    using ok by (auto simp: tokens_at_def refillBucket_def tokens_ok_def Let_def split: option.splits)
  show "fl (tokens_at fl k now s) = tokens_at fl k now s"
    using ok by (auto simp: tokens_at_def refillBucket_def tokens_ok_def Let_def idem split: option.splits)
qed

lemma takeToken_ok:
  assumes fl: "rounds fl" and ok: "tokens_ok fl s"
  shows "tokens_ok fl (snd (takeTokenLocked fl k now s))"
proof -
  note t = tokens_at_ok [OF fl ok, of k now]
  have "fl (tokens_at fl k now s - 1) = tokens_at fl k now s - 1" if "1 \<le> tokens_at fl k now s"
  proof -
    have "tokens_at fl k now s \<le> 2 ^ 53" using t(2) ok by (auto simp: tokens_ok_def)
    with fl t(3) that show ?thesis unfolding rounds_def by blast
  qed
  moreover obtain st where "pk_tokens (snd (takeTokenLocked fl k now s)) = fmupd k st (pk_tokens s)"
    "bs_tokens st = (if 1 \<le> tokens_at fl k now s then fl (tokens_at fl k now s - 1) else tokens_at fl k now s)"
    using takeToken_eq(2) [of fl k now s] by blast
  ultimately show ?thesis
    using ok t by (auto simp: tokens_ok_def takeToken_fields)
qed

lemma tokens_ok_prune: "tokens_ok fl s \<Longrightarrow> tokens_ok fl (prekey_pruneLocked now s)"
  by (auto simp: tokens_ok_def prune_tokens split: if_splits)

lemma tokens_ok_cong:
  "tokens_ok fl s \<Longrightarrow> pk_tokens s' = pk_tokens s \<Longrightarrow> pk_claimBurst s' = pk_claimBurst s \<Longrightarrow>
   pk_claimRefill s' = pk_claimRefill s \<Longrightarrow> tokens_ok fl s'"
  by (simp add: tokens_ok_def)

lemma Claim_tokens_ok:
  assumes "rounds fl" "tokens_ok fl s"
  shows "tokens_ok fl (snd (Claim fl now tag dev s))"
proof (cases rule: Claim_cases [of tag dev now s fl])
  case (popped q qs)
  show ?thesis
    unfolding popped(3) snd_conv
    by (rule tokens_ok_cong [OF takeToken_ok [OF assms(1) tokens_ok_prune [OF assms(2), of now]]]) simp_all
qed (use assms in \<open>simp_all add: takeToken_ok tokens_ok_prune\<close>)

lemma Publish_tokens:
  "pk_tokens (snd (Publish now tag val s)) \<in> {pk_tokens s, pk_tokens (prekey_pruneLocked now s)}"
  "pk_claimBurst (snd (Publish now tag val s)) = pk_claimBurst s"
  "pk_claimRefill (snd (Publish now tag val s)) = pk_claimRefill s"
  by (auto simp: Publish_def Let_def publishLastResort_def split: prod.splits option.splits)

interpretation prekey_limiter: machine "prekey_step fl" "\<lambda>_. rounds fl" "tokens_ok fl" for fl
proof unfold_locales
  fix s r es' s'
  assume A: "tokens_ok fl s" "rounds fl" "prekey_step fl r s = (es', s')"
  show "tokens_ok fl s'"
  proof (cases r)
    case (PublishReq now tag val)
    with A(3) have "s' = snd (Publish now tag val s)" by (simp add: Let_def)
    with Publish_tokens [of now tag val s] A(1) tokens_ok_prune [OF A(1), of now] show ?thesis
      by (auto simp: tokens_ok_def)
  next
    case (ClaimReq now tag dev)
    with A show ?thesis by (auto simp: Let_def Claim_tokens_ok)
  next
    case (PruneReq now)
    with A show ?thesis by (auto simp: prekey_Prune_def tokens_ok_prune)
  qed
qed

text \<open>The burst of the limiter is the one the store was built with.\<close>

interpretation prekey_config: machine "prekey_step fl" "\<lambda>_. True" "\<lambda>s. pk_claimBurst s = b" for fl b
proof unfold_locales
  fix s r es' s'
  assume A: "pk_claimBurst s = b" "prekey_step fl r s = (es', s')"
  show "pk_claimBurst s' = b"
  proof (cases r)
    case (ClaimReq now tag dev)
    with A have "s' = snd (Claim fl now tag dev s)" by (simp add: Let_def)
    with A(1) show ?thesis
      by (cases rule: Claim_cases [of tag dev now s fl]) (simp_all add: takeToken_fields)
  qed (use A in \<open>auto simp: Let_def Publish_tokens prekey_Prune_def\<close>)
qed

section \<open>A flood of claims at one instant\<close>

text \<open>What a flood can still take out of a pool: nothing of an empty one, the bucket's tokens otherwise.\<close>

definition drainable :: "(rat \<Rightarrow> rat) \<Rightarrow> string \<Rightarrow> time \<Rightarrow> PrekeyStore \<Rightarrow> rat" where
  "drainable fl k now s =
     (if queueOf k (prekey_pruneLocked now s) = [] then 0 else tokens_at fl k now (prekey_pruneLocked now s))"

lemma pki_live_prune [simp]: "pki_live now (prekey_pruneLocked now' s) = pki_live now s"
  by (simp add: pki_live_def fun_eq_iff)

lemma tokens_at_prune:
  assumes "queueOf k (prekey_pruneLocked now s) \<noteq> []"
  shows "tokens_at fl k now (prekey_pruneLocked now s) = tokens_at fl k now s"
proof -
  have "bucketExistsLocked k (prekey_pruneLocked now s)"
    using assms by (auto simp: bucketExistsLocked_def queueOf_def split: option.splits)
  then show ?thesis by (simp add: tokens_at_def refillBucket_def prune_tokens Let_def split: option.split)
qed

lemma drain_step:
  assumes fl: "rounds fl" and ok: "tokens_ok fl s" and step: "prekey_step fl (ClaimReq now tag dev) s = (es, s')"
  defines "k \<equiv> bucketKey (TrimSpace tag) (TrimSpace dev)"
  shows "rat_of_nat (length (issued_of es)) + drainable fl k now s' \<le> drainable fl k now s"
proof -
  let ?p = "prekey_pruneLocked now s"
  note okp = tokens_ok_prune [OF ok, of now]
  note t = tokens_at_ok [OF fl okp, of k now]
  have s': "s' = snd (Claim fl now tag dev s)" using step by (simp add: Let_def)
  show ?thesis
  proof (cases rule: Claim_cases [of tag dev now s fl])
    case empty
    with step s' show ?thesis
      by (simp add: Let_def drainable_def k_def queueOf_prune)
  next
    case (limited q qs)
    let ?t = "snd (takeTokenLocked fl k now ?p)"
    have st: "s' = ?t" using limited(3) by (simp add: s' k_def)
    have es: "es = []" using step limited(1) st s' by (auto simp: Let_def k_def)
    obtain b where b: "pk_tokens ?t = fmupd k b (pk_tokens ?p)" "\<not> time_Sub now (bs_lastRefill b) > 0"
      "bs_tokens b = tokens_at fl k now ?p"
      using takeToken_eq [of fl k now ?p] limited(2) by (auto simp: k_def)
    have "tokens_at fl k now ?t = tokens_at fl k now ?p"
      using b refill_idle(2) [of ?t k b now fl] by simp
    moreover have "queueOf k (prekey_pruneLocked now ?t) = queueOf k ?p"
      by (simp add: queueOf_prune pki_live_def [abs_def] takeToken_fields)
    ultimately show ?thesis
      using limited(1) tokens_at_prune [of k now ?t fl] by (simp add: drainable_def es st k_def)
  next
    case (popped q qs)
    let ?t = "snd (takeTokenLocked fl k now ?p)"
    have one: "1 \<le> tokens_at fl k now ?p" using popped(2) takeToken_eq(1) by (simp add: k_def)
    obtain b where b: "pk_tokens ?t = fmupd k b (pk_tokens ?p)" "\<not> time_Sub now (bs_lastRefill b) > 0"
      "bs_tokens b = fl (tokens_at fl k now ?p - 1)"
      using takeToken_eq [of fl k now ?p] one by auto
    have "tokens_at fl k now ?p \<le> 2 ^ 53" using t(2) okp by (auto simp: tokens_ok_def)
    with fl t(3) one have pred: "fl (tokens_at fl k now ?p - 1) = tokens_at fl k now ?p - 1"
      unfolding rounds_def by blast
    have tok: "tokens_at fl k now s' = tokens_at fl k now ?p - 1"
      using b pred refill_idle(2) [of s' k b now fl] by (simp add: s' popped(3) k_def)
    have "length (issued_of es) \<le> 1" using step by (auto simp: Let_def)
    moreover have "drainable fl k now s' \<le> tokens_at fl k now ?p - 1"
      using one tokens_at_prune [of k now s' fl] tok by (auto simp: drainable_def)
    moreover have "drainable fl k now s = tokens_at fl k now ?p"
      using popped(1) by (simp add: drainable_def k_def)
    ultimately show ?thesis by (auto simp: le_Suc_eq)
  qed
qed

lemma drain_flood:
  assumes "rounds fl" "tokens_ok fl s" "trace (prekey_step fl) (replicate n (ClaimReq now tag dev)) s = (es, s')"
  shows "rat_of_nat (length (issued_of es)) \<le> drainable fl (bucketKey (TrimSpace tag) (TrimSpace dev)) now s"
  using assms(2,3)
proof (induction n arbitrary: s es)
  case 0
  then show ?case
    using tokens_at_ok(1) [OF assms(1) tokens_ok_prune] by (auto simp: drainable_def)
next
  case (Suc n)
  let ?k = "bucketKey (TrimSpace tag) (TrimSpace dev)"
  obtain es1 s1 where one: "prekey_step fl (ClaimReq now tag dev) s = (es1, s1)"
    by (cases "prekey_step fl (ClaimReq now tag dev) s")
  obtain es2 s2 where two: "trace (prekey_step fl) (replicate n (ClaimReq now tag dev)) s1 = (es2, s2)"
    by (cases "trace (prekey_step fl) (replicate n (ClaimReq now tag dev)) s1")
  have "es = es1 @ es2" "s2 = s'" using Suc.prems(2) one two by (simp_all del: prekey_step.simps)
  moreover have "tokens_ok fl s1"
    using prekey_limiter.step_keeps [OF Suc.prems(1) assms(1) one] .
  ultimately show ?case
    using Suc.IH [of s1 es2] two drain_step [OF assms(1) Suc.prems(1) one] by simp
qed

end
