(* ===== verification/Prekey_Props.thy ===== *)
theory Prekey_Props
  imports Prekey_Ledger
begin

text \<open>The properties of the prekey store.\<close>

section \<open>Concrete inputs\<close>

definition pk_ex_limits :: Limits where
  "pk_ex_limits = \<lparr>lim_MaxPerRecipient = 3, lim_MaxBuckets = 2, lim_PublishedTTL = 100, lim_ClaimBurst = 2,
     lim_ClaimRefill = 10\<rparr>"

definition pk_ex_entry :: "string \<Rightarrow> PrekeyEntry" where
  "pk_ex_entry i = \<lparr>pk_OpkID = i, pk_PublicKey = ''k'', pk_Signature = ''s'', pk_LastResort = False\<rparr>"

definition pk_ex_publish :: "string list \<Rightarrow> PrekeyPublish" where
  "pk_ex_publish ids = \<lparr>pub_DeviceKey = ''d'', pub_Entries = map pk_ex_entry ids, pub_LastResort = Some (pk_ex_entry ''lr'')\<rparr>"

definition pk_ex_exact :: "rat \<Rightarrow> rat" where
  "pk_ex_exact x = x"

definition pk_ex_store :: PrekeyStore where
  "pk_ex_store = snd (trace (prekey_step pk_ex_exact)
     [PublishReq 1 ''owner'' (pk_ex_publish [''p1'', ''p2'', ''p1'', ''p3'', ''p4''])]
     (prekey_NewStoreWithLimits pk_ex_exact pk_ex_limits))"

lemma pk_ex_rounds: "rounds pk_ex_exact"
  by (simp add: rounds_def pk_ex_exact_def mono_def)

section \<open>Bounds\<close>

lemma prekey_New_fields [simp]:
  "pk_queues (prekey_NewStoreWithLimits fl limits) = fmempty"
  "pk_lastResort (prekey_NewStoreWithLimits fl limits) = fmempty"
  "pk_tokens (prekey_NewStoreWithLimits fl limits) = fmempty"
  "0 < pk_maxPerRecipient (prekey_NewStoreWithLimits fl limits)"
  "0 < pk_maxBuckets (prekey_NewStoreWithLimits fl limits)"
  "0 < pk_claimRefill (prekey_NewStoreWithLimits fl limits)"
  "pk_claimBurst (prekey_NewStoreWithLimits fl limits) =
     fl (of_int (if lim_ClaimBurst limits \<le> 0 then 32 else lim_ClaimBurst limits))"
  by (simp_all only: prekey_NewStoreWithLimits_def PrekeyStore.select_convs) (auto simp: Second_def)

lemma prekey_wf_New: "prekey_wf (prekey_NewStoreWithLimits fl limits)"
  by (simp add: prekey_wf_def buckets_def less_imp_le)

lemma prekey_wf_reached: "prekey_wf (snd (trace (prekey_step fl) rs (prekey_NewStoreWithLimits fl limits)))"
  by (rule prekey_bounds.run_keeps [OF prekey_wf_New]) (simp add: list_all_iff)

text \<open>
  Along every history of publishes, claims and prunes, the store holds at most the configured
  number of buckets and of limiter states, every pool is non-empty, within its cap, without
  duplicate ids and made of complete entries, and every last-resort entry is flagged as one.
\<close>

theorem prekey_store_bounded:
  "prekey_wf (snd (trace (prekey_step fl) rs (prekey_NewStoreWithLimits fl limits)))"
  by (rule prekey_wf_reached)

section \<open>Claim-once\<close>


text \<open>
  C26. A claim hands out the oldest unexpired one-time entry of the pool and removes just that one,
  if the pool has one and the limiter a token; otherwise it serves the pool's unexpired last-resort
  prekey, flagged as such, or nothing, and takes nothing out of the pool.
\<close>

theorem claim_outcome:
  fixes now tag dev s
  defines "key \<equiv> bucketKey (TrimSpace tag) (TrimSpace dev)"
  shows "(case filter (pki_live now s) (queueOf key s) of
      q # qs \<Rightarrow>
        if 1 \<le> tokens_at fl key now s
        then fst (Claim fl now tag dev s) = (pki_value q, True) \<and> queueOf key (snd (Claim fl now tag dev s)) = qs
        else fst (Claim fl now tag dev s) = serveLastResort key (prekey_pruneLocked now s) \<and>
             queueOf key (snd (Claim fl now tag dev s)) = q # qs
    | [] \<Rightarrow> fst (Claim fl now tag dev s) = serveLastResort key (prekey_pruneLocked now s) \<and>
            queueOf key (snd (Claim fl now tag dev s)) = [])"
proof (cases rule: Claim_cases [of tag dev now s fl])
  case empty
  then show ?thesis by (simp add: key_def queueOf_prune)
next
  case (limited q qs)
  then have "\<not> 1 \<le> tokens_at fl key now (prekey_pruneLocked now s)"
    by (simp add: takeToken_eq(1) key_def)
  with limited tokens_at_prune [of key now s fl] show ?thesis by (simp add: key_def queueOf_prune)
next
  case (popped q qs)
  then have "1 \<le> tokens_at fl key now (prekey_pruneLocked now s)"
    by (simp add: takeToken_eq(1) key_def)
  moreover have "queueOf key (snd (Claim fl now tag dev s)) = qs"
    unfolding popped(3) by (auto simp: queueOf_def key_def)
  ultimately show ?thesis
    using popped tokens_at_prune [of key now s fl] by (simp add: key_def queueOf_prune)
qed

text \<open>
  C27. A flood of claims at one instant takes no more one-time entries out of a pool than the burst
  of the limiter, whatever happened before; the arithmetic is IEEE double arithmetic.
\<close>

theorem claim_flood_limited:
  assumes "rounds fl" "lim_ClaimBurst limits \<le> 2 ^ 53"
    and "s = snd (trace (prekey_step fl) rs (prekey_NewStoreWithLimits fl limits))"
    and "trace (prekey_step fl) (replicate n (ClaimReq now tag dev)) s = (es, s')"
  shows "int (length (issued_of es)) \<le> (if lim_ClaimBurst limits \<le> 0 then 32 else lim_ClaimBurst limits)"
proof -
  let ?b = "if lim_ClaimBurst limits \<le> 0 then 32 else lim_ClaimBurst limits"
  let ?new = "prekey_NewStoreWithLimits fl limits"
  have b: "\<bar>?b\<bar> \<le> 2 ^ 53" "1 \<le> ?b" using assms(2) by auto
  then have burst: "fl (of_int ?b) = of_int ?b" using assms(1) unfolding rounds_def by blast
  have "(1 :: rat) \<le> of_int ?b" "of_int ?b \<le> (2 :: rat) ^ 53"
    using b by (simp_all only: of_int_1_le_iff) (metis abs_le_D1 of_int_le_iff of_int_numeral of_int_power)
  then have "tokens_ok fl ?new"
    by (simp only: tokens_ok_def prekey_New_fields burst) simp
  moreover have "list_all (\<lambda>_. rounds fl) rs" using assms(1) by (simp add: list_all_iff)
  ultimately have ok: "tokens_ok fl s" unfolding assms(3) by (rule prekey_limiter.run_keeps)
  have "pk_claimBurst ?new = of_int ?b" by (simp only: prekey_New_fields burst)
  moreover have "list_all (\<lambda>_. True) rs" by (simp add: list_all_iff)
  ultimately have "pk_claimBurst s = of_int ?b" unfolding assms(3) by (rule prekey_config.run_keeps)
  moreover have "drainable fl (bucketKey (TrimSpace tag) (TrimSpace dev)) now s \<le> pk_claimBurst s"
    using tokens_at_ok(2) [OF assms(1) tokens_ok_prune [OF ok, of now]] ok
    by (auto simp: drainable_def tokens_ok_def)
  ultimately have "rat_of_int (int (length (issued_of es))) \<le> of_int ?b"
    using drain_flood [OF assms(1) ok assms(4)] by (simp only: of_int_of_nat_eq)
  then show ?thesis by (simp only: of_int_le_iff)
qed

theorem claim_flood_limited_witness:
  "int (length (issued_of (fst (trace (prekey_step pk_ex_exact) (replicate 5 (ClaimReq 2 ''owner'' ''d'')) pk_ex_store)))) \<le> 2"
proof -
  have "lim_ClaimBurst pk_ex_limits \<le> 2 ^ 53" by (simp add: pk_ex_limits_def)
  from claim_flood_limited [OF pk_ex_rounds this pk_ex_store_def prod.collapse [symmetric], of 5 2 "''owner''" "''d''"]
  show ?thesis by (simp add: pk_ex_limits_def)
qed

section \<open>Publishing\<close>

text \<open>
  C28. A publish is refused exactly for an empty tag or when it would open a bucket beyond the
  ceiling, and then stores nothing; otherwise it keeps the unexpired pool in order, appends the
  entries it reports as added behind it, and never exceeds the pool's cap or repeats an id.
\<close>

theorem publish_outcome:
  assumes "prekey_wf s" "Publish now tag val s = ((added, ok), s')"
    and key: "key = bucketKey (TrimSpace tag) (TrimSpace (pub_DeviceKey val))"
  shows "(\<not> ok \<longleftrightarrow> TrimSpace tag = [] \<or>
           key \<notin> buckets (prekey_pruneLocked now s) \<and>
           pk_maxBuckets s \<le> int (card (buckets (prekey_pruneLocked now s)))) \<and>
    (\<not> ok \<longrightarrow> added = 0 \<and> (s' = s \<or> s' = prekey_pruneLocked now s)) \<and>
    (ok \<longrightarrow> (\<exists>new. queueOf key s' = filter (pki_live now s) (queueOf key s) @ new \<and> added = int (length new) \<and>
       int (length (queueOf key s')) \<le> pk_maxPerRecipient s \<and> distinct (opk_ids (queueOf key s'))))"
proof -
  let ?p = "prekey_pruneLocked now s"
  from Publish_cases [OF assms(1,2)] consider "TrimSpace tag = []" "\<not> ok" "added = 0" "s' = s"
    | "TrimSpace tag \<noteq> []" "\<not> ok" "added = 0" "s' = ?p" "key \<notin> buckets ?p" "pk_maxBuckets s \<le> int (card (buckets ?p))"
    | (ext) new where "TrimSpace tag \<noteq> []" "ok" "added = int (length new)"
      "key \<in> buckets ?p \<or> int (card (buckets ?p)) < pk_maxBuckets s" "pool_ok (pk_maxPerRecipient s) (queueOf key ?p @ new)"
      "s' = publishLastResort key now (pub_LastResort val)
         (if new = [] then ?p else ?p\<lparr>pk_queues := fmupd key (queueOf key ?p @ new) (pk_queues ?p)\<rparr>)"
    unfolding key [symmetric] by blast
  then show ?thesis
  proof cases
    case ext
    have "queueOf key s' = queueOf key ?p @ new" by (auto simp: ext(6) queueOf_def)
    with ext(1-5) show ?thesis by (auto simp: queueOf_prune pool_ok_def)
  qed auto
qed

theorem publish_outcome_witness:
  "(\<exists>new. queueOf (bucketKey ''owner'' ''d'') (snd (Publish 5 ''owner'' (pk_ex_publish [''p4'']) pk_ex_store)) =
      filter (pki_live 5 pk_ex_store) (queueOf (bucketKey ''owner'' ''d'') pk_ex_store) @ new)"
proof -
  let ?r = "Publish 5 ''owner'' (pk_ex_publish [''p4'']) pk_ex_store"
  have wf: "prekey_wf pk_ex_store" unfolding pk_ex_store_def by (rule prekey_wf_reached)
  have key: "bucketKey ''owner'' ''d'' = bucketKey (TrimSpace ''owner'') (TrimSpace (pub_DeviceKey (pk_ex_publish [''p4''])))"
    by code_simp
  have ok: "snd (fst ?r)" by code_simp
  have call: "?r = ((fst (fst ?r), snd (fst ?r)), snd ?r)" by simp
  from publish_outcome [OF wf call key] ok show ?thesis by blast
qed

lemma bucketKey_inj:
  assumes "CHR 0x00 \<notin> set t" "CHR 0x00 \<notin> set t'" "bucketKey t d = bucketKey t' d'"
  shows "t = t' \<and> d = d'"
  using assms
proof (induction t arbitrary: t')
  case Nil
  then show ?case by (cases t') (auto simp: bucketKey_def)
next
  case (Cons c t)
  then show ?case by (cases t') (auto simp: bucketKey_def)
qed

lemma TagForSecret_not_nul: "CHR 0x00 \<notin> set (TagForSecret sha256 secret)"
proof -
  have "CHR 0x00 \<notin> set b64url_alphabet" by (simp add: b64url_alphabet_def)
  with b64url_encode_alphabet [of "sha256 (tagDomain @ secret)"] show ?thesis
    by (auto simp: TagForSecret_def)
qed

text \<open>
  C29. A publish that proved the queue secret behind its tag changes no other owner's pool and no
  other owner's last-resort prekey, except that expired entries go: tags contain no separator, so
  bucket keys of different owners differ.
\<close>

theorem publish_own_pool_only:
  assumes "prekey_wf s" "tag = TagForSecret sha256 secret" "CHR 0x00 \<notin> set other" "other \<noteq> TrimSpace tag"
    and "Publish now tag val s = (r, s')" "key = bucketKey other dev"
  shows "(queueOf key s' = queueOf key s \<or> queueOf key s' = filter (pki_live now s) (queueOf key s)) \<and>
    (fmlookup (pk_lastResort s') key = fmlookup (pk_lastResort s) key \<or>
     fmlookup (pk_lastResort s') key = fmlookup (pk_lastResort (prekey_pruneLocked now s)) key)"
proof -
  let ?p = "prekey_pruneLocked now s" and ?own = "bucketKey (TrimSpace tag) (TrimSpace (pub_DeviceKey val))"
  have "CHR 0x00 \<notin> set (TrimSpace tag)"
    using set_TrimSpace [of tag] TagForSecret_not_nul [of sha256 secret] assms(2) by auto
  with bucketKey_inj [OF this assms(3)] assms(4,6) have ne: "?own \<noteq> key" by auto
  obtain added ok where r: "r = (added, ok)" by (cases r)
  from Publish_cases [OF assms(1) assms(5) [unfolded r]] consider "s' = s" | "s' = ?p"
    | (ext) new where "s' = publishLastResort ?own now (pub_LastResort val)
         (if new = [] then ?p else ?p\<lparr>pk_queues := fmupd ?own (queueOf ?own ?p @ new) (pk_queues ?p)\<rparr>)"
    by blast
  then show ?thesis
  proof cases
    case ext
    have "queueOf key s' = queueOf key ?p" using ne by (auto simp: ext queueOf_def)
    moreover have "fmlookup (pk_lastResort s') key = fmlookup (pk_lastResort ?p) key"
      using ne publishLastResort_lookup [of ?own now "pub_LastResort val" _ key] unfolding ext by fastforce
    ultimately show ?thesis by (simp add: queueOf_prune)
  qed (simp_all add: queueOf_prune)
qed

theorem publish_own_pool_only_witness:
  "queueOf (bucketKey ''owner'' ''d'') (snd (Publish 5 (TagForSecret (\<lambda>x. ''abc'') ''secret'') (pk_ex_publish [''p4'']) pk_ex_store)) =
   queueOf (bucketKey ''owner'' ''d'') pk_ex_store"
proof -
  let ?tag = "TagForSecret (\<lambda>x. ''abc'') ''secret''"
  let ?r = "Publish 5 ?tag (pk_ex_publish [''p4'']) pk_ex_store"
  have tag: "?tag = ''YWJj''" by (simp add: TagForSecret_def b64_char_def b64url_alphabet_def)
  have wf: "prekey_wf pk_ex_store" unfolding pk_ex_store_def by (rule prekey_wf_reached)
  have "CHR 0x00 \<notin> set ''owner''" "''owner'' \<noteq> TrimSpace ?tag" unfolding tag by code_simp+
  from publish_own_pool_only [OF wf refl this prod.collapse [symmetric] refl,
      where now = 5 and val = "pk_ex_publish [''p4'']" and dev = "''d''"]
  have "queueOf (bucketKey ''owner'' ''d'') (snd ?r) = queueOf (bucketKey ''owner'' ''d'') pk_ex_store \<or>
      queueOf (bucketKey ''owner'' ''d'') (snd ?r) =
        filter (pki_live 5 pk_ex_store) (queueOf (bucketKey ''owner'' ''d'') pk_ex_store)" by blast
  moreover have "filter (pki_live 5 pk_ex_store) (queueOf (bucketKey ''owner'' ''d'') pk_ex_store) =
      queueOf (bucketKey ''owner'' ''d'') pk_ex_store" by code_simp
  ultimately show ?thesis by argo
qed

end
