(* ===== verification/Presence.thy ===== *)
theory Presence
  imports Go_Maps Model_Types
begin

text \<open>
  \<open>internal/presence/store.go\<close>: the table of heartbeat leases, the count of leases per caller that
  decides whose slot may be taken when the table is full, and the revocation tombstones. Every
  operation holds one mutex; the order in which a loop ranges over a table is the argument \<open>rng\<close>.
\<close>

section \<open>State\<close>

definition maxRecordsPerCaller :: int where
  "maxRecordsPerCaller = 32"

record presence_record =
  pr_ownerHash :: string
  pr_grantHash :: string
  pr_caller :: string
  pr_lastSeen :: time
  pr_updatedAt :: time
  pr_expiresAt :: time

record PresenceGrant =
  pg_Caller :: string

record PresenceStore =
  ps_maxRecords :: int
  ps_lastSeenTTL :: duration
  ps_records :: "(string, presence_record) gomap"
  ps_callers :: "(string, int) gomap"
  ps_revocations :: "(string, PresenceRevocation) gomap"

definition presence_NewStore :: "int \<Rightarrow> duration \<Rightarrow> PresenceStore" where
  "presence_NewStore maxRecords lastSeenTTL =
     \<lparr>ps_maxRecords = (if maxRecords \<le> 0 then 5000 else maxRecords),
      ps_lastSeenTTL = (if lastSeenTTL \<le> 0 then 24 * Hour else lastSeenTTL),
      ps_records = fmempty, ps_callers = fmempty, ps_revocations = fmempty\<rparr>"

section \<open>The writers of the table\<close>

definition releaseCaller :: "(string, int) gomap \<Rightarrow> string \<Rightarrow> (string, int) gomap" where
  "releaseCaller callers caller =
     (if go_int callers caller \<le> 1 then fmdrop caller callers
      else fmupd caller (go_int callers caller - 1) callers)"

definition releaseLocked :: "string \<Rightarrow> PresenceStore \<Rightarrow> PresenceStore" where
  "releaseLocked caller s = s\<lparr>ps_callers := releaseCaller (ps_callers s) caller\<rparr>"

definition putLocked :: "presence_record \<Rightarrow> PresenceStore \<Rightarrow> PresenceStore" where
  "putLocked val s =
     (let s = (case fmlookup (ps_records s) (pr_grantHash val) of
                 None \<Rightarrow> s
               | Some previous \<Rightarrow> releaseLocked (pr_caller previous) s);
          s = s\<lparr>ps_records := fmupd (pr_grantHash val) val (ps_records s)\<rparr>
      in s\<lparr>ps_callers := go_incr (ps_callers s) (pr_caller val)\<rparr>)"

definition dropLocked :: "string \<Rightarrow> PresenceStore \<Rightarrow> PresenceStore" where
  "dropLocked grantHash s =
     (case fmlookup (ps_records s) grantHash of
        None \<Rightarrow> s
      | Some item \<Rightarrow> releaseLocked (pr_caller item) (s\<lparr>ps_records := fmdrop grantHash (ps_records s)\<rparr>))"

definition record_stale :: "time \<Rightarrow> duration \<Rightarrow> presence_record \<Rightarrow> bool" where
  "record_stale now ttl item \<longleftrightarrow> Before (pr_lastSeen item + ttl) now"

definition revocation_dead :: "time \<Rightarrow> PresenceRevocation \<Rightarrow> bool" where
  "revocation_dead now item \<longleftrightarrow> \<not> After (rev_ExpiresAt item) now"

definition dropRevocation :: "string \<Rightarrow> PresenceStore \<Rightarrow> PresenceStore" where
  "dropRevocation owner s = s\<lparr>ps_revocations := fmdrop owner (ps_revocations s)\<rparr>"

definition presence_pruneLocked :: "(string fset \<Rightarrow> string list) \<Rightarrow> time \<Rightarrow> PresenceStore \<Rightarrow> PresenceStore" where
  "presence_pruneLocked rng now s =
     sweep rng ps_revocations (revocation_dead now) dropRevocation
       (sweep rng ps_records (record_stale now (ps_lastSeenTTL s)) dropLocked s)"

section \<open>Heartbeats\<close>

text \<open>
  The rank of a record in the search for a slot: 0 for an offline one, 1 for one whose caller is
  past its share, 2 for a live lease inside its share.
\<close>

definition claim_rank :: "time \<Rightarrow> string \<Rightarrow> (string, int) gomap \<Rightarrow> presence_record \<Rightarrow> nat" where
  "claim_rank now caller callers item =
     (if \<not> After (pr_expiresAt item) now then 0
      else if pr_caller item \<noteq> caller \<and> go_int callers (pr_caller item) > maxRecordsPerCaller then 1
      else 2)"

text \<open>The body of the search loop over the best candidate so far: its key, rank and last sight.\<close>

definition weakerClaim ::
  "time \<Rightarrow> string \<Rightarrow> PresenceStore \<Rightarrow> string \<Rightarrow> (string \<times> nat \<times> time) option \<Rightarrow> (string \<times> nat \<times> time) option" where
  "weakerClaim now caller s key best =
     (case fmlookup (ps_records s) key of
        None \<Rightarrow> best
      | Some item \<Rightarrow>
          let rank = claim_rank now caller (ps_callers s) item in
          if rank = 2 then best
          else case best of
                 None \<Rightarrow> Some (key, rank, pr_lastSeen item)
               | Some (victim, bestRank, bestSeen) \<Rightarrow>
                   if rank < bestRank \<or> (rank = bestRank \<and> Before (pr_lastSeen item) bestSeen)
                   then Some (key, rank, pr_lastSeen item) else best)"

definition makeRoomLocked ::
  "(string fset \<Rightarrow> string list) \<Rightarrow> time \<Rightarrow> string \<Rightarrow> PresenceStore \<Rightarrow> bool \<times> PresenceStore" where
  "makeRoomLocked rng now caller s =
     (if go_len (ps_records s) < ps_maxRecords s then (True, s)
      else if go_int (ps_callers s) caller \<ge> maxRecordsPerCaller then (False, s)
      else case fold (weakerClaim now caller s) (rng (fmdom (ps_records s))) None of
             None \<Rightarrow> (False, s)
           | Some (victim, _, _) \<Rightarrow> (True, dropLocked victim s))"

text \<open>The check of lines 118 and 272: a revocation is held and is not older than the update.\<close>

definition supersededBy :: "time \<Rightarrow> PresenceRevocation option \<Rightarrow> bool" where
  "supersededBy updatedAt revoked =
     (case revoked of None \<Rightarrow> False | Some r \<Rightarrow> \<not> After updatedAt (rev_UpdatedAt r))"

definition HeartbeatWithGrant ::
  "(string fset \<Rightarrow> string list) \<Rightarrow> time \<Rightarrow> PresenceHeartbeat \<Rightarrow> PresenceGrant \<Rightarrow> PresenceStore \<Rightarrow> bool \<times> PresenceStore" where
  "HeartbeatWithGrant rng now val grant s =
     (let owner = TrimSpace (hb_OwnerHash val);
          grantHash = TrimSpace (hb_GrantHash val);
          updatedAt = (if IsZero (hb_UpdatedAt val) then now else hb_UpdatedAt val)
      in if owner = [] \<or> grantHash = [] \<or> \<not> After (hb_ExpiresAt val) now \<or>
            After (hb_ExpiresAt val) (now + 5 * Minute)
         then (False, s)
         else
           let s = presence_pruneLocked rng now s in
           if supersededBy updatedAt (fmlookup (ps_revocations s) owner) then (False, s)
           else
             let s = dropRevocation owner s;
                 caller = TrimSpace (pg_Caller grant);
                 (room, s) = (if fmlookup (ps_records s) grantHash = None then makeRoomLocked rng now caller s
                              else (True, s))
             in if \<not> room then (False, s)
                else (True, putLocked \<lparr>pr_ownerHash = owner, pr_grantHash = grantHash, pr_caller = caller,
                        pr_lastSeen = now, pr_updatedAt = updatedAt, pr_expiresAt = hb_ExpiresAt val\<rparr> s))"

definition Heartbeat ::
  "(string fset \<Rightarrow> string list) \<Rightarrow> time \<Rightarrow> PresenceHeartbeat \<Rightarrow> PresenceStore \<Rightarrow> bool \<times> PresenceStore" where
  "Heartbeat rng now val s = HeartbeatWithGrant rng now val \<lparr>pg_Caller = []\<rparr> s"

section \<open>Reads\<close>

definition statusOf :: "time \<Rightarrow> presence_record \<Rightarrow> PresenceStatus" where
  "statusOf now item =
     \<lparr>st_GrantHash = pr_grantHash item, st_Online = After (pr_expiresAt item) now, st_LastSeen = pr_lastSeen item\<rparr>"

definition Query ::
  "(string fset \<Rightarrow> string list) \<Rightarrow> time \<Rightarrow> string list \<Rightarrow> PresenceStore \<Rightarrow> PresenceStatus list \<times> PresenceStore" where
  "Query rng now grants s =
     (let s = presence_pruneLocked rng now s
      in (map (statusOf now) (picked (ps_records s) (\<lambda>_. True) (map TrimSpace grants)), s))"

definition presence_Prune :: "(string fset \<Rightarrow> string list) \<Rightarrow> time \<Rightarrow> PresenceStore \<Rightarrow> PresenceStore" where
  "presence_Prune rng now s = presence_pruneLocked rng now s"

definition presence_Count :: "(string fset \<Rightarrow> string list) \<Rightarrow> time \<Rightarrow> PresenceStore \<Rightarrow> int \<times> PresenceStore" where
  "presence_Count rng now s = (let s = presence_pruneLocked rng now s in (go_len (ps_records s), s))"

definition heartbeatOf :: "presence_record \<Rightarrow> PresenceHeartbeat" where
  "heartbeatOf item = \<lparr>hb_OwnerHash = pr_ownerHash item, hb_GrantHash = pr_grantHash item,
     hb_UpdatedAt = pr_updatedAt item, hb_ExpiresAt = pr_expiresAt item\<rparr>"

definition presence_Snapshot ::
  "(string fset \<Rightarrow> string list) \<Rightarrow> time \<Rightarrow> PresenceStore \<Rightarrow> PresenceHeartbeat list \<times> PresenceStore" where
  "presence_Snapshot rng now s =
     (let s = presence_pruneLocked rng now s
      in (map heartbeatOf (picked (ps_records s) (\<lambda>_. True) (rng (fmdom (ps_records s)))), s))"

definition Revocations ::
  "(string fset \<Rightarrow> string list) \<Rightarrow> time \<Rightarrow> PresenceStore \<Rightarrow> PresenceRevocation list \<times> PresenceStore" where
  "Revocations rng now s =
     (let s = presence_pruneLocked rng now s
      in (picked (ps_revocations s) (\<lambda>_. True) (rng (fmdom (ps_revocations s))), s))"

section \<open>Revocation and import\<close>

definition storeRevocationLocked :: "PresenceRevocation \<Rightarrow> PresenceStore \<Rightarrow> PresenceStore" where
  "storeRevocationLocked val s =
     (if fmlookup (ps_revocations s) (rev_OwnerHash val) = None \<and> go_len (ps_revocations s) \<ge> ps_maxRecords s
      then s
      else s\<lparr>ps_revocations := fmupd (rev_OwnerHash val) val (ps_revocations s)\<rparr>)"

definition revokeStep :: "string \<Rightarrow> string \<Rightarrow> int \<times> PresenceStore \<Rightarrow> int \<times> PresenceStore" where
  "revokeStep ownerHash key = (\<lambda>(count, s).
     case fmlookup (ps_records s) key of
       None \<Rightarrow> (count, s)
     | Some item \<Rightarrow> if pr_ownerHash item = TrimSpace ownerHash then (count + 1, dropLocked key s) else (count, s))"

definition Revoke :: "(string fset \<Rightarrow> string list) \<Rightarrow> time \<Rightarrow> string \<Rightarrow> PresenceStore \<Rightarrow> int \<times> PresenceStore" where
  "Revoke rng now ownerHash s =
     (let (count, s) = fold (revokeStep ownerHash) (rng (fmdom (ps_records s))) (0, s)
      in (count, storeRevocationLocked
            \<lparr>rev_OwnerHash = TrimSpace ownerHash, rev_UpdatedAt = now, rev_ExpiresAt = now + ps_lastSeenTTL s\<rparr> s))"

text \<open>
  \<open>Import\<close> takes and releases the lock once per heartbeat and reads the clock each time; \<open>clock i\<close>
  is the reading of its \<open>i\<close>-th call.
\<close>

definition presence_Import ::
  "(string fset \<Rightarrow> string list) \<Rightarrow> (nat \<Rightarrow> time) \<Rightarrow> PresenceHeartbeat list \<Rightarrow> PresenceStore \<Rightarrow> PresenceStore" where
  "presence_Import rng clock values s =
     fold (\<lambda>(i, val) s. snd (Heartbeat rng (clock i) val s)) (enumerate 0 values) s"

definition importRevocationStep ::
  "(string fset \<Rightarrow> string list) \<Rightarrow> time \<Rightarrow> PresenceRevocation \<Rightarrow> PresenceStore \<Rightarrow> PresenceStore" where
  "importRevocationStep rng now val s =
     (if rev_OwnerHash val = [] \<or> \<not> After (rev_ExpiresAt val) now then s
      else if supersededBy (rev_UpdatedAt val) (fmlookup (ps_revocations s) (rev_OwnerHash val)) then s
      else if fmlookup (ps_revocations s) (rev_OwnerHash val) = None \<and> go_len (ps_revocations s) \<ge> ps_maxRecords s
      then s
      else
        let s = s\<lparr>ps_revocations := fmupd (rev_OwnerHash val) val (ps_revocations s)\<rparr>
        in sweep rng ps_records
             (\<lambda>item. pr_ownerHash item = rev_OwnerHash val \<and> \<not> After (pr_updatedAt item) (rev_UpdatedAt val))
             dropLocked s)"

definition ImportRevocations ::
  "(string fset \<Rightarrow> string list) \<Rightarrow> time \<Rightarrow> PresenceRevocation list \<Rightarrow> PresenceStore \<Rightarrow> PresenceStore" where
  "ImportRevocations rng now values s = fold (importRevocationStep rng now) values s"

section \<open>Requests\<close>

text \<open>The atomic operations. An import is a sequence of heartbeats, see \<open>presence_Import_trace\<close>.\<close>

datatype presence_request =
    HeartbeatReq time PresenceHeartbeat PresenceGrant
  | QueryReq time "string list"
  | RevokeReq time string
  | PresencePruneReq time
  | PresenceCountReq time
  | PresenceSnapshotReq time
  | RevocationsReq time
  | ImportRevocationsReq time "PresenceRevocation list"

fun presence_step ::
  "(string fset \<Rightarrow> string list) \<Rightarrow> presence_request \<Rightarrow> PresenceStore \<Rightarrow> unit list \<times> PresenceStore" where
  "presence_step rng (HeartbeatReq now val grant) s = ([], snd (HeartbeatWithGrant rng now val grant s))"
| "presence_step rng (QueryReq now grants) s = ([], snd (Query rng now grants s))"
| "presence_step rng (RevokeReq now owner) s = ([], snd (Revoke rng now owner s))"
| "presence_step rng (PresencePruneReq now) s = ([], presence_Prune rng now s)"
| "presence_step rng (PresenceCountReq now) s = ([], snd (presence_Count rng now s))"
| "presence_step rng (PresenceSnapshotReq now) s = ([], snd (presence_Snapshot rng now s))"
| "presence_step rng (RevocationsReq now) s = ([], snd (Revocations rng now s))"
| "presence_step rng (ImportRevocationsReq now values) s = ([], ImportRevocations rng now values s)"

fun presence_time :: "presence_request \<Rightarrow> time" where
  "presence_time (HeartbeatReq now val grant) = now"
| "presence_time (QueryReq now grants) = now"
| "presence_time (RevokeReq now owner) = now"
| "presence_time (PresencePruneReq now) = now"
| "presence_time (PresenceCountReq now) = now"
| "presence_time (PresenceSnapshotReq now) = now"
| "presence_time (RevocationsReq now) = now"
| "presence_time (ImportRevocationsReq now values) = now"

end
