(* ===== verification/Presence_Inv.thy ===== *)
theory Presence_Inv
  imports Presence Machine "HOL-Library.Product_Lexorder"
begin

text \<open>
  The bookkeeping of the presence store: what each writer does to the table and the caller counts,
  the invariant every operation keeps, and how a slot is found in a full table.
\<close>

section \<open>Fields\<close>

interpretation presence_counter: counter go_incr releaseCaller
  by unfold_locales (auto simp: go_incr_def releaseCaller_def)

lemma releaseLocked_fields [simp]:
  "ps_records (releaseLocked c s) = ps_records s"
  "ps_revocations (releaseLocked c s) = ps_revocations s"
  "ps_maxRecords (releaseLocked c s) = ps_maxRecords s"
  "ps_lastSeenTTL (releaseLocked c s) = ps_lastSeenTTL s"
  "ps_callers (releaseLocked c s) = releaseCaller (ps_callers s) c"
  by (simp_all add: releaseLocked_def)

lemma dropLocked_fields [simp]:
  "ps_records (dropLocked k s) = fmdrop k (ps_records s)"
  "ps_revocations (dropLocked k s) = ps_revocations s"
  "ps_maxRecords (dropLocked k s) = ps_maxRecords s"
  "ps_lastSeenTTL (dropLocked k s) = ps_lastSeenTTL s"
proof -
  show "ps_records (dropLocked k s) = fmdrop k (ps_records s)"
    by (cases "fmlookup (ps_records s) k") (auto simp: dropLocked_def intro!: fmap_ext)
qed (simp_all add: dropLocked_def split: option.split)

lemma dropLocked_revocations:
  "dropLocked k (s\<lparr>ps_revocations := m\<rparr>) = (dropLocked k s)\<lparr>ps_revocations := m\<rparr>"
  by (simp add: dropLocked_def releaseLocked_def split: option.split)

lemma putLocked_fields [simp]:
  "ps_records (putLocked r s) = fmupd (pr_grantHash r) r (ps_records s)"
  "ps_revocations (putLocked r s) = ps_revocations s"
  "ps_maxRecords (putLocked r s) = ps_maxRecords s"
  "ps_lastSeenTTL (putLocked r s) = ps_lastSeenTTL s"
  by (simp_all add: putLocked_def Let_def split: option.split)

lemma dropRevocation_fields [simp]:
  "ps_records (dropRevocation o' s) = ps_records s"
  "ps_callers (dropRevocation o' s) = ps_callers s"
  "ps_revocations (dropRevocation o' s) = fmdrop o' (ps_revocations s)"
  "ps_maxRecords (dropRevocation o' s) = ps_maxRecords s"
  "ps_lastSeenTTL (dropRevocation o' s) = ps_lastSeenTTL s"
  by (simp_all add: dropRevocation_def)

lemma storeRevocation_fields [simp]:
  "ps_records (storeRevocationLocked v s) = ps_records s"
  "ps_callers (storeRevocationLocked v s) = ps_callers s"
  "ps_maxRecords (storeRevocationLocked v s) = ps_maxRecords s"
  "ps_lastSeenTTL (storeRevocationLocked v s) = ps_lastSeenTTL s"
  by (simp_all add: storeRevocationLocked_def)

section \<open>The invariant\<close>

text \<open>A record as an accepted heartbeat leaves it.\<close>

definition record_ok :: "string \<Rightarrow> presence_record \<Rightarrow> bool" where
  "record_ok k r \<longleftrightarrow> pr_grantHash r = k \<and> k \<noteq> [] \<and> pr_ownerHash r \<noteq> [] \<and>
     TrimSpace k = k \<and> TrimSpace (pr_ownerHash r) = pr_ownerHash r \<and>
     pr_lastSeen r < pr_expiresAt r \<and> pr_expiresAt r \<le> pr_lastSeen r + 5 * Minute"

definition presence_wf :: "PresenceStore \<Rightarrow> bool" where
  "presence_wf s \<longleftrightarrow>
     agrees pr_caller (ps_records s) (ps_callers s) \<and>
     go_len (ps_records s) \<le> ps_maxRecords s \<and> go_len (ps_revocations s) \<le> ps_maxRecords s \<and>
     (\<forall>k r. fmlookup (ps_records s) k = Some r \<longrightarrow> record_ok k r) \<and>
     (\<forall>k v. fmlookup (ps_revocations s) k = Some v \<longrightarrow> rev_OwnerHash v = k) \<and>
     (\<forall>k r v. fmlookup (ps_records s) k = Some r \<longrightarrow> fmlookup (ps_revocations s) (pr_ownerHash r) = Some v \<longrightarrow>
        rev_UpdatedAt v < pr_updatedAt r)"

lemma presence_wfD:
  assumes "presence_wf s"
  shows "agrees pr_caller (ps_records s) (ps_callers s)"
    "go_len (ps_records s) \<le> ps_maxRecords s" "go_len (ps_revocations s) \<le> ps_maxRecords s"
    "fmlookup (ps_records s) k = Some r \<Longrightarrow> record_ok k r"
    "fmlookup (ps_revocations s) k = Some v \<Longrightarrow> rev_OwnerHash v = k"
    "fmlookup (ps_records s) k = Some r \<Longrightarrow> fmlookup (ps_revocations s) (pr_ownerHash r) = Some v \<Longrightarrow>
        rev_UpdatedAt v < pr_updatedAt r"
  using assms unfolding presence_wf_def by blast+

lemma agrees_put:
  assumes "agrees pr_caller (ps_records s) (ps_callers s)"
  shows "agrees pr_caller (ps_records (putLocked r s)) (ps_callers (putLocked r s))"
proof (cases "fmlookup (ps_records s) (pr_grantHash r)")
  case None
  from presence_counter.agrees_add [OF assms None, of r] None show ?thesis by (simp add: putLocked_def)
next
  case (Some p)
  let ?m = "fmdrop (pr_grantHash r) (ps_records s)"
  from presence_counter.agrees_drop [OF assms Some]
  have "agrees pr_caller ?m (releaseCaller (ps_callers s) (pr_caller p))" .
  from presence_counter.agrees_add [OF this, of "pr_grantHash r" r] Some
  have "agrees pr_caller (fmupd (pr_grantHash r) r ?m)
      (go_incr (releaseCaller (ps_callers s) (pr_caller p)) (pr_caller r))" by simp
  moreover have "fmupd (pr_grantHash r) r ?m = fmupd (pr_grantHash r) r (ps_records s)"
    by (rule fmap_ext) simp
  ultimately show ?thesis using Some by (simp add: putLocked_def)
qed

lemma drop_wf: "presence_wf s \<Longrightarrow> presence_wf (dropLocked k s)"
proof (cases "fmlookup (ps_records s) k")
  case (Some r)
  assume wf: "presence_wf s"
  from presence_counter.agrees_drop [OF presence_wfD(1) [OF wf] Some]
  have "agrees pr_caller (ps_records (dropLocked k s)) (ps_callers (dropLocked k s))"
    using Some by (simp add: dropLocked_def)
  moreover have "go_len (fmdrop k (ps_records s)) \<le> ps_maxRecords s"
    using presence_wfD(2) [OF wf] go_len_drop_le [of k "ps_records s"] by simp
  ultimately show ?thesis using wf unfolding presence_wf_def by (auto split: if_splits)
qed (simp add: dropLocked_def)

lemma dropRevocation_wf: "presence_wf s \<Longrightarrow> presence_wf (dropRevocation k s)"
  using go_len_drop_le [of k "ps_revocations s"] unfolding presence_wf_def by (auto split: if_splits)

lemma prune_presence_wf: "presence_wf s \<Longrightarrow> presence_wf (presence_pruneLocked rng now s)"
  unfolding presence_pruneLocked_def
  by (rule sweep_invariant [where P = presence_wf], rule sweep_invariant [where P = presence_wf])
     (auto intro: drop_wf dropRevocation_wf)

lemma put_wf:
  assumes wf: "presence_wf s" and r: "record_ok (pr_grantHash r) r"
    and room: "fmlookup (ps_records s) (pr_grantHash r) \<noteq> None \<or> go_len (ps_records s) < ps_maxRecords s"
    and rev: "fmlookup (ps_revocations s) (pr_ownerHash r) = None"
  shows "presence_wf (putLocked r s)"
proof -
  have "go_len (ps_records (putLocked r s)) \<le> ps_maxRecords s"
    using room presence_wfD(2) [OF wf] by (auto simp: go_len_upd)
  with wf r rev agrees_put [OF presence_wfD(1) [OF wf]] show ?thesis
    unfolding presence_wf_def by (auto split: if_splits)
qed

section \<open>Finding a slot\<close>

text \<open>The claims a newcomer may displace.\<close>

definition weak_claim :: "time \<Rightarrow> string \<Rightarrow> PresenceStore \<Rightarrow> string \<Rightarrow> bool" where
  "weak_claim now caller s k \<longleftrightarrow>
     (\<exists>r. fmlookup (ps_records s) k = Some r \<and> claim_rank now caller (ps_callers s) r < 2)"

lemma claim_rank_le: "claim_rank now caller c r \<le> 2"
  by (simp add: claim_rank_def)

definition claim_key :: "time \<Rightarrow> string \<Rightarrow> PresenceStore \<Rightarrow> string \<Rightarrow> nat \<times> time" where
  "claim_key now caller s k =
     (case fmlookup (ps_records s) k of None \<Rightarrow> (2, 0) | Some r \<Rightarrow> (claim_rank now caller (ps_callers s) r, pr_lastSeen r))"

definition best_among :: "time \<Rightarrow> string \<Rightarrow> PresenceStore \<Rightarrow> string set \<Rightarrow> (string \<times> nat \<times> time) option \<Rightarrow> bool" where
  "best_among now caller s K best \<longleftrightarrow>
     (case best of
        None \<Rightarrow> \<forall>k\<in>K. \<not> weak_claim now caller s k
      | Some (v, rank, seen) \<Rightarrow> v \<in> K \<and> weak_claim now caller s v \<and> claim_key now caller s v = (rank, seen) \<and>
          (\<forall>k\<in>K. weak_claim now caller s k \<longrightarrow> (rank, seen) \<le> claim_key now caller s k))"

lemma weakerClaim_best:
  assumes "best_among now caller s K best"
  shows "best_among now caller s (insert k K) (weakerClaim now caller s k best)"
proof (cases "fmlookup (ps_records s) k")
  case None
  with assms show ?thesis
    by (auto simp: weakerClaim_def best_among_def weak_claim_def split: option.splits)
next
  case (Some r)
  let ?rank = "claim_rank now caller (ps_callers s) r"
  have w: "weak_claim now caller s k \<longleftrightarrow> ?rank \<noteq> 2"
    using Some claim_rank_le [of now caller "ps_callers s" r] by (auto simp: weak_claim_def)
  have key: "claim_key now caller s k = (?rank, pr_lastSeen r)" using Some by (simp add: claim_key_def)
  have step: "weakerClaim now caller s k best =
      (if ?rank = 2 then best else case best of None \<Rightarrow> Some (k, ?rank, pr_lastSeen r)
       | Some (v, rank, seen) \<Rightarrow> if (?rank, pr_lastSeen r) < (rank, seen) then Some (k, ?rank, pr_lastSeen r) else best)"
    using Some by (auto simp: weakerClaim_def Let_def split: option.split)
  show ?thesis
  proof (cases best)
    case None
    with assms w key show ?thesis unfolding step by (simp add: best_among_def)
  next
    case (Some b)
    obtain v rank seen where b: "best = Some (v, rank, seen)" using Some by (cases b) auto
    from assms [unfolded b best_among_def option.case prod.case]
    have v: "v \<in> K" "weak_claim now caller s v" "claim_key now caller s v = (rank, seen)"
      and le: "\<forall>k\<in>K. weak_claim now caller s k \<longrightarrow> (rank, seen) \<le> claim_key now caller s k" by blast+
    consider "?rank = 2" | "?rank \<noteq> 2" "(?rank, pr_lastSeen r) < (rank, seen)"
      | "?rank \<noteq> 2" "\<not> (?rank, pr_lastSeen r) < (rank, seen)" by blast
    then show ?thesis
    proof cases
      case 1
      with v le w show ?thesis unfolding b by (simp add: step [unfolded b] best_among_def)
    next
      case 2
      then have "\<forall>k\<in>K. weak_claim now caller s k \<longrightarrow> (?rank, pr_lastSeen r) \<le> claim_key now caller s k"
        using le by (meson less_le_trans less_imp_le)
      with 2 w key show ?thesis unfolding b by (simp add: step [unfolded b] best_among_def)
    next
      case 3
      with v le w key show ?thesis unfolding b by (auto simp add: step [unfolded b] best_among_def)
    qed
  qed
qed

lemma weakerClaim_fold:
  "best_among now caller s K best \<Longrightarrow>
   best_among now caller s (set ks \<union> K) (fold (weakerClaim now caller s) ks best)"
proof (induction ks arbitrary: K best)
  case (Cons k ks)
  from Cons.IH [OF weakerClaim_best [OF Cons.prems, of k]] show ?case by simp
qed simp

text \<open>
  What a search for a slot does in a full table: refuses a caller past its share and a caller no
  weaker claim gives way to, and otherwise evicts an offline lease if there is one, else the lease
  of another caller that is past its share; the one not seen for longest.
\<close>

lemma makeRoom_cases:
  assumes "range_order rng" and call: "makeRoomLocked rng now caller s = (room, s')"
  obtains (free) "go_len (ps_records s) < ps_maxRecords s" "room" "s' = s"
  | (share) "ps_maxRecords s \<le> go_len (ps_records s)" "maxRecordsPerCaller \<le> go_int (ps_callers s) caller" "\<not> room" "s' = s"
  | (full) "ps_maxRecords s \<le> go_len (ps_records s)" "go_int (ps_callers s) caller < maxRecordsPerCaller"
      "\<forall>k. \<not> weak_claim now caller s k" "\<not> room" "s' = s"
  | (evict) v where "ps_maxRecords s \<le> go_len (ps_records s)" "go_int (ps_callers s) caller < maxRecordsPerCaller"
      "weak_claim now caller s v" "room" "s' = dropLocked v s"
      "\<forall>k. weak_claim now caller s k \<longrightarrow> claim_key now caller s v \<le> claim_key now caller s k"
proof -
  let ?keys = "rng (fmdom (ps_records s))"
  have keys: "set ?keys = fmdom' (ps_records s)" using range_order.rng_dom [OF assms(1)] .
  have all: "k \<in> set ?keys" if "weak_claim now caller s k" for k
    using that unfolding keys by (auto simp: weak_claim_def fmlookup_dom'_iff)
  have "best_among now caller s (set ?keys) (fold (weakerClaim now caller s) ?keys None)"
    using weakerClaim_fold [of now caller s "{}" None ?keys] by (simp add: best_among_def)
  note best = this
  show ?thesis
  proof (cases "fold (weakerClaim now caller s) ?keys None")
    case None
    with best all have "\<forall>k. \<not> weak_claim now caller s k" by (auto simp: best_among_def)
    with call None that(1-3) show ?thesis
      by (auto simp: makeRoomLocked_def not_less not_le split: if_splits)
  next
    case (Some b)
    obtain v rank seen where b: "b = (v, rank, seen)" by (cases b)
    with best Some have "weak_claim now caller s v"
      and "\<forall>k\<in>set ?keys. weak_claim now caller s k \<longrightarrow> claim_key now caller s v \<le> claim_key now caller s k"
      by (simp_all add: best_among_def)
    with call Some b that(1,2) that(4) [of v] all show ?thesis
      by (auto simp: makeRoomLocked_def not_less not_le split: if_splits)
  qed
qed

section \<open>Operations keep the invariant\<close>

locale presence_order = range_order rng for rng :: "string fset \<Rightarrow> string list"

sublocale presence_order \<subseteq> record_sweep: sweepable rng ps_records dropLocked
  by unfold_locales simp

sublocale presence_order \<subseteq> revocation_sweep: sweepable rng ps_revocations dropRevocation
  by unfold_locales simp

lemma sweep_records_frame [simp]:
  "ps_revocations (sweep rng ps_records dead dropLocked s) = ps_revocations s"
  "ps_maxRecords (sweep rng ps_records dead dropLocked s) = ps_maxRecords s"
  "ps_lastSeenTTL (sweep rng ps_records dead dropLocked s) = ps_lastSeenTTL s"
  by (rule sweep_invariant; simp)+

lemma sweep_revocations_frame [simp]:
  "ps_records (sweep rng ps_revocations dead dropRevocation s) = ps_records s"
  "ps_callers (sweep rng ps_revocations dead dropRevocation s) = ps_callers s"
  "ps_maxRecords (sweep rng ps_revocations dead dropRevocation s) = ps_maxRecords s"
  "ps_lastSeenTTL (sweep rng ps_revocations dead dropRevocation s) = ps_lastSeenTTL s"
  by (rule sweep_invariant; simp)+

lemma presence_prune_frame [simp]:
  "ps_maxRecords (presence_pruneLocked rng now s) = ps_maxRecords s"
  "ps_lastSeenTTL (presence_pruneLocked rng now s) = ps_lastSeenTTL s"
  by (simp_all add: presence_pruneLocked_def)

context presence_order
begin

lemma prune_tables [simp]:
  "ps_records (presence_pruneLocked rng now s) = live_part (record_stale now (ps_lastSeenTTL s)) (ps_records s)"
  "ps_revocations (presence_pruneLocked rng now s) = live_part (revocation_dead now) (ps_revocations s)"
  by (simp_all add: presence_pruneLocked_def record_sweep.table_sweep revocation_sweep.table_sweep)

end

text \<open>The record an accepted heartbeat stores, and the checks that come before the search for a slot.\<close>

definition hb_record :: "time \<Rightarrow> PresenceHeartbeat \<Rightarrow> PresenceGrant \<Rightarrow> presence_record" where
  "hb_record now val grant =
     \<lparr>pr_ownerHash = TrimSpace (hb_OwnerHash val), pr_grantHash = TrimSpace (hb_GrantHash val),
      pr_caller = TrimSpace (pg_Caller grant), pr_lastSeen = now,
      pr_updatedAt = (if IsZero (hb_UpdatedAt val) then now else hb_UpdatedAt val), pr_expiresAt = hb_ExpiresAt val\<rparr>"

definition hb_valid :: "time \<Rightarrow> PresenceHeartbeat \<Rightarrow> bool" where
  "hb_valid now val \<longleftrightarrow> TrimSpace (hb_OwnerHash val) \<noteq> [] \<and> TrimSpace (hb_GrantHash val) \<noteq> [] \<and>
     now < hb_ExpiresAt val \<and> hb_ExpiresAt val \<le> now + 5 * Minute"

lemma hb_record_ok: "hb_valid now val \<Longrightarrow> record_ok (pr_grantHash (hb_record now val grant)) (hb_record now val grant)"
  by (simp add: hb_valid_def record_ok_def hb_record_def)

lemma Heartbeat_cases:
  fixes now val grant s rng
  defines "p \<equiv> presence_pruneLocked rng now s" and "r \<equiv> hb_record now val grant"
  defines "d \<equiv> dropRevocation (pr_ownerHash r) p"
  assumes call: "HeartbeatWithGrant rng now val grant s = (ok, s')"
  obtains (invalid) "\<not> hb_valid now val" "\<not> ok" "s' = s"
  | (revoked) "hb_valid now val" "supersededBy (pr_updatedAt r) (fmlookup (ps_revocations p) (pr_ownerHash r))"
      "\<not> ok" "s' = p"
  | (refresh) "hb_valid now val" "\<not> supersededBy (pr_updatedAt r) (fmlookup (ps_revocations p) (pr_ownerHash r))"
      "fmlookup (ps_records p) (pr_grantHash r) \<noteq> None" "ok" "s' = putLocked r d"
  | (search) room u where "hb_valid now val"
      "\<not> supersededBy (pr_updatedAt r) (fmlookup (ps_revocations p) (pr_ownerHash r))"
      "fmlookup (ps_records p) (pr_grantHash r) = None" "makeRoomLocked rng now (pr_caller r) d = (room, u)"
      "ok = room" "s' = (if room then putLocked r u else u)"
proof -
  obtain room u where mr: "makeRoomLocked rng now (pr_caller r) d = (room, u)"
    by (cases "makeRoomLocked rng now (pr_caller r) d")
  have shape: "HeartbeatWithGrant rng now val grant s =
    (if \<not> hb_valid now val then (False, s)
     else if supersededBy (pr_updatedAt r) (fmlookup (ps_revocations p) (pr_ownerHash r)) then (False, p)
     else if fmlookup (ps_records p) (pr_grantHash r) = None then (room, if room then putLocked r u else u)
     else (True, putLocked r d))"
    using mr unfolding HeartbeatWithGrant_def p_def r_def d_def
    by (simp add: Let_def hb_record_def hb_valid_def not_le not_less)
  show ?thesis
    using call that(1-3) that(4) [OF _ _ _ mr] unfolding shape by (auto split: if_splits)
qed

lemma weak_claim_room:
  assumes "weak_claim now caller s v" "go_len (ps_records s) \<le> ps_maxRecords s"
  shows "go_len (ps_records (dropLocked v s)) < ps_maxRecords (dropLocked v s)"
  using assms by (auto simp: weak_claim_def go_len_drop)

context presence_order
begin

lemma makeRoom_wf:
  assumes "presence_wf s" "makeRoomLocked rng now caller s = (room, u)"
  shows "presence_wf u" "room \<Longrightarrow> go_len (ps_records u) < ps_maxRecords u"
    "ps_revocations u = ps_revocations s"
proof -
  from makeRoom_cases [OF range_order_axioms assms(2)] consider "u = s" "\<not> room \<or> go_len (ps_records s) < ps_maxRecords s"
    | v where "weak_claim now caller s v" "u = dropLocked v s" by (cases rule: makeRoom_cases [OF range_order_axioms assms(2)]) blast+
  then have "presence_wf u \<and> (room \<longrightarrow> go_len (ps_records u) < ps_maxRecords u) \<and> ps_revocations u = ps_revocations s"
  proof cases
    case 2
    then show ?thesis
      using weak_claim_room [OF 2(1) presence_wfD(2) [OF assms(1)]] drop_wf [OF assms(1), of v] by simp
  qed (use assms(1) in auto)
  then show "presence_wf u" "room \<Longrightarrow> go_len (ps_records u) < ps_maxRecords u"
    "ps_revocations u = ps_revocations s" by blast+
qed

lemma Heartbeat_wf:
  assumes "presence_wf s"
  shows "presence_wf (snd (HeartbeatWithGrant rng now val grant s))"
proof -
  obtain ok s' where call: "HeartbeatWithGrant rng now val grant s = (ok, s')" by (cases "HeartbeatWithGrant rng now val grant s")
  let ?p = "presence_pruneLocked rng now s" and ?r = "hb_record now val grant"
  let ?d = "dropRevocation (pr_ownerHash ?r) ?p"
  have p: "presence_wf ?p" by (rule prune_presence_wf [OF assms])
  then have d: "presence_wf ?d" by (rule dropRevocation_wf)
  from call have "presence_wf s'"
  proof (cases rule: Heartbeat_cases)
    case refresh
    then show "presence_wf s'" using put_wf [OF d hb_record_ok [OF refresh(1), of grant]] by simp
  next
    case (search room u)
    note u = makeRoom_wf [OF d search(4)]
    show "presence_wf s'"
    proof (cases room)
      case True
      with put_wf [OF u(1) hb_record_ok [OF search(1), of grant]] u(2,3) search(6) show ?thesis by simp
    qed (use u(1) search(6) in simp)
  qed (use p assms in simp_all)
  then show ?thesis by (simp add: call)
qed

lemma storeRevocation_wf:
  assumes "presence_wf s" "\<And>k r. fmlookup (ps_records s) k = Some r \<Longrightarrow> pr_ownerHash r = rev_OwnerHash v \<Longrightarrow> rev_UpdatedAt v < pr_updatedAt r"
  shows "presence_wf (storeRevocationLocked v s)"
  using assms unfolding presence_wf_def storeRevocationLocked_def
  by (auto simp: go_len_upd not_le)

end

text \<open>Revoking is a sweep of the owner's records that counts them.\<close>

lemma revoke_fold:
  "snd (fold (revokeStep o') ks (n, s)) =
     fold (\<lambda>k s. case fmlookup (ps_records s) k of None \<Rightarrow> s
        | Some v \<Rightarrow> if pr_ownerHash v = TrimSpace o' then dropLocked k s else s) ks s"
proof (induction ks arbitrary: n s)
  case (Cons k ks)
  then show ?case by (cases "fmlookup (ps_records s) k") (simp_all add: revokeStep_def [of o' k])
qed simp

lemma Revoke_state:
  "snd (Revoke rng now o' s) =
     (let u = sweep rng ps_records (\<lambda>item. pr_ownerHash item = TrimSpace o') dropLocked s
      in storeRevocationLocked \<lparr>rev_OwnerHash = TrimSpace o', rev_UpdatedAt = now, rev_ExpiresAt = now + ps_lastSeenTTL s\<rparr> u)"
proof -
  let ?u = "sweep rng ps_records (\<lambda>item. pr_ownerHash item = TrimSpace o') dropLocked s"
  obtain n u where fold: "fold (revokeStep o') (rng (fmdom (ps_records s))) (0, s) = (n, u)"
    by (cases "fold (revokeStep o') (rng (fmdom (ps_records s))) (0, s)")
  then have "u = ?u" using revoke_fold [of o' "rng (fmdom (ps_records s))" 0 s] by (simp add: sweep_def)
  with fold show ?thesis by (simp add: Revoke_def Let_def)
qed

context presence_order
begin

lemma sweep_wf: "presence_wf s \<Longrightarrow> presence_wf (sweep rng ps_records dead dropLocked s)"
  by (rule sweep_invariant [where P = presence_wf]) (auto intro: drop_wf)

lemma Revoke_wf: "presence_wf s \<Longrightarrow> presence_wf (snd (Revoke rng now o' s))"
  unfolding Revoke_state Let_def
  by (rule storeRevocation_wf [OF sweep_wf]) (auto simp: record_sweep.table_sweep)

lemma importRevocation_wf:
  assumes "presence_wf s"
  shows "presence_wf (importRevocationStep rng now val s)"
proof -
  let ?dead = "\<lambda>item. pr_ownerHash item = rev_OwnerHash val \<and> \<not> After (pr_updatedAt item) (rev_UpdatedAt val)"
  let ?s = "s\<lparr>ps_revocations := fmupd (rev_OwnerHash val) val (ps_revocations s)\<rparr>"
  let ?u = "sweep rng ps_records ?dead dropLocked s"
  have comm: "sweep rng ps_records ?dead dropLocked (s\<lparr>ps_revocations := m\<rparr>) = ?u\<lparr>ps_revocations := m\<rparr>" for m
  proof -
    have "fold f ks (s\<lparr>ps_revocations := m\<rparr>) = (fold f ks s)\<lparr>ps_revocations := m\<rparr>"
      if "f = (\<lambda>k s. case fmlookup (ps_records s) k of None \<Rightarrow> s | Some v \<Rightarrow> if ?dead v then dropLocked k s else s)" for f ks s
      unfolding that
      by (induction ks arbitrary: s) (auto simp: dropLocked_revocations split: option.splits)
    then show ?thesis unfolding sweep_def by simp
  qed
  have u: "presence_wf ?u" by (rule sweep_wf [OF assms])
  have "presence_wf (?u\<lparr>ps_revocations := fmupd (rev_OwnerHash val) val (ps_revocations s)\<rparr>)"
    if "fmlookup (ps_revocations s) (rev_OwnerHash val) \<noteq> None \<or> go_len (ps_revocations s) < ps_maxRecords s"
    using u that unfolding presence_wf_def
    by (auto simp: record_sweep.table_sweep go_len_upd)
  with assms comm show ?thesis
    by (auto simp: importRevocationStep_def Let_def not_le)
qed

lemma ImportRevocations_wf: "presence_wf s \<Longrightarrow> presence_wf (ImportRevocations rng now values s)"
  unfolding ImportRevocations_def by (rule fold_invariant) (auto intro: importRevocation_wf)

end

sublocale presence_order \<subseteq> bookkeeping: machine "presence_step rng" "\<lambda>_. True" presence_wf
proof unfold_locales
  fix s r es' s'
  assume "presence_wf s" "presence_step rng r s = (es', s')"
  then show "presence_wf s'"
    by (cases r) (auto simp: Let_def Query_def presence_Prune_def presence_Count_def presence_Snapshot_def
        Revocations_def prune_presence_wf Heartbeat_wf Revoke_wf ImportRevocations_wf)
qed

context presence_order
begin

lemma presence_wf_run: "presence_wf s \<Longrightarrow> presence_wf (snd (trace (presence_step rng) rs s))"
  by (rule bookkeeping.run_keeps) (simp_all add: list_all_iff)

end

interpretation sorted_presence: presence_order "sorted_list_of_fset :: string fset \<Rightarrow> string list"
  by unfold_locales

end
