(* ===== verification/Presence_Props.thy ===== *)
theory Presence_Props
  imports Presence_Inv
begin

text \<open>The properties of the presence store.\<close>

section \<open>Concrete inputs\<close>

definition ps_ex_rng :: "string fset \<Rightarrow> string list" where
  "ps_ex_rng = sorted_list_of_fset"

lemma ps_ex_order: "presence_order ps_ex_rng"
  unfolding ps_ex_rng_def by (rule sorted_presence.presence_order_axioms)

lemma ps_ex_range: "range_order ps_ex_rng"
  unfolding ps_ex_rng_def by (rule sorted_range.range_order_axioms)

definition ps_ex_beat :: "string \<Rightarrow> string \<Rightarrow> time \<Rightarrow> time \<Rightarrow> PresenceHeartbeat" where
  "ps_ex_beat owner grant updated expires =
     \<lparr>hb_OwnerHash = owner, hb_GrantHash = grant, hb_UpdatedAt = updated, hb_ExpiresAt = expires\<rparr>"

definition ps_ex_history :: "presence_request list" where
  "ps_ex_history =
     [HeartbeatReq 10 (ps_ex_beat ''o1'' ''g1'' 10 20) \<lparr>pg_Caller = ''tag:a''\<rparr>,
      HeartbeatReq 12 (ps_ex_beat ''o2'' ''g2'' 0 900) \<lparr>pg_Caller = []\<rparr>]"

definition ps_ex_store :: PresenceStore where
  "ps_ex_store = snd (trace (presence_step ps_ex_rng) ps_ex_history (presence_NewStore 2 1000))"

section \<open>Bookkeeping\<close>

lemma presence_New_fields [simp]:
  "ps_records (presence_NewStore m t) = fmempty"
  "ps_callers (presence_NewStore m t) = fmempty"
  "ps_revocations (presence_NewStore m t) = fmempty"
  "0 < ps_maxRecords (presence_NewStore m t)"
  "0 < ps_lastSeenTTL (presence_NewStore m t)"
  by (simp_all add: presence_NewStore_def Hour_def Minute_def Second_def)

lemma presence_wf_New: "presence_wf (presence_NewStore m t)"
  by (simp add: presence_wf_def less_imp_le)

lemma presence_wf_reached:
  "presence_order rng \<Longrightarrow> presence_wf (snd (trace (presence_step rng) rs (presence_NewStore m t)))"
  by (rule presence_order.presence_wf_run) (simp_all add: presence_wf_New)

text \<open>
  C12. Along every history of heartbeats, queries, revocations, imports and prunes, whatever the order
  of ranging over the tables: the per-caller counts are exactly the number of records each caller
  holds, both tables stay within the cap, every record is filed under its own trimmed grant hash
  with a lease of at most five minutes past its last sight, and no record is older than a
  revocation held for its owner.
\<close>

theorem presence_bookkeeping:
  assumes "range_order rng"
  shows "presence_wf (snd (trace (presence_step rng) rs (presence_NewStore maxRecords ttl)))"
  using presence_wf_reached assms by (simp add: presence_order_def)

theorem presence_bookkeeping_witness: "presence_wf ps_ex_store"
  unfolding ps_ex_store_def by (rule presence_bookkeeping [OF ps_ex_range])

section \<open>Accepting a heartbeat\<close>

text \<open>
  The claims a full table gives up, stated on the table alone: an offline lease, or a lease of
  another caller that holds more than its share.
\<close>

definition displaceable :: "time \<Rightarrow> string \<Rightarrow> (string, presence_record) gomap \<Rightarrow> string \<Rightarrow> bool" where
  "displaceable now caller m k \<longleftrightarrow>
     (\<exists>r. fmlookup m k = Some r \<and>
        (pr_expiresAt r \<le> now \<or> pr_caller r \<noteq> caller \<and> maxRecordsPerCaller < int (count_with pr_caller m (pr_caller r))))"

lemma weak_claim_displaceable:
  assumes "presence_wf s"
  shows "weak_claim now caller s k \<longleftrightarrow> displaceable now caller (ps_records s) k"
proof -
  have "claim_rank now caller (ps_callers s) r < 2 \<longleftrightarrow> pr_expiresAt r \<le> now \<or>
      pr_caller r \<noteq> caller \<and> maxRecordsPerCaller < int (count_with pr_caller (ps_records s) (pr_caller r))" for r
    unfolding claim_rank_def agrees_go_int [OF presence_wfD(1) [OF assms]] by (simp add: not_less)
  then show ?thesis by (simp add: weak_claim_def displaceable_def)
qed

text \<open>
  C30. A heartbeat is accepted exactly when it is well-formed, its owner has no revocation at least
  as new, and its grant is already listed, or the table has a free slot, or its caller is within
  its share and some claim is displaceable. An accepted heartbeat is listed; besides expired
  records it removes at most one other, which is displaceable, so a live lease whose caller is
  within its share is never evicted. A refused one lists nothing.
\<close>

theorem heartbeat_outcome:
  assumes "range_order rng" "presence_wf s" "HeartbeatWithGrant rng now val grant s = (ok, s')"
    and "r = hb_record now val grant"
    and "m = live_part (record_stale now (ps_lastSeenTTL s)) (ps_records s)"
  shows "(ok \<longleftrightarrow> hb_valid now val \<and>
      \<not> supersededBy (pr_updatedAt r) (fmlookup (live_part (revocation_dead now) (ps_revocations s)) (pr_ownerHash r)) \<and>
      (fmlookup m (pr_grantHash r) \<noteq> None \<or> go_len m < ps_maxRecords s \<or>
       int (count_with pr_caller m (pr_caller r)) < maxRecordsPerCaller \<and> (\<exists>k. displaceable now (pr_caller r) m k))) \<and>
    (ok \<longrightarrow> ps_records s' = fmupd (pr_grantHash r) r m \<or>
       (\<exists>v. displaceable now (pr_caller r) m v \<and> ps_maxRecords s \<le> go_len m \<and>
          ps_records s' = fmupd (pr_grantHash r) r (fmdrop v m))) \<and>
    (\<not> ok \<longrightarrow> ps_records s' = ps_records s \<or> ps_records s' = m)"
proof -
  have order: "presence_order rng" using assms(1) by (simp add: presence_order_def)
  let ?p = "presence_pruneLocked rng now s"
  let ?d = "dropRevocation (pr_ownerHash r) ?p"
  note tables = presence_order.prune_tables [OF order]
  have wf: "presence_wf ?d" by (rule dropRevocation_wf [OF prune_presence_wf [OF assms(2)]])
  have m: "ps_records ?d = m" "ps_records ?p = m" by (simp_all add: tables assms(5))
  note claim = weak_claim_displaceable [OF wf, unfolded m] agrees_go_int [OF presence_wfD(1) [OF wf], unfolded m dropRevocation_fields(2)]
  from assms(3) show ?thesis
  proof (cases rule: Heartbeat_cases)
    case (search room u)
    note s = search [folded assms(4), unfolded tables, folded assms(5)]
    from assms(1) s(4) show ?thesis
    proof (cases rule: makeRoom_cases)
      case (evict v)
      then show ?thesis using s(1-3,5,6) by (auto simp: m claim)
    qed (use s(1-3,5,6) in \<open>auto simp: m claim\<close>)
  qed (simp_all add: tables assms(4) [symmetric] assms(5) [symmetric])
qed


theorem heartbeat_outcome_witness:
  "fst (HeartbeatWithGrant ps_ex_rng 20 (ps_ex_beat ''o3'' ''g3'' 0 60) \<lparr>pg_Caller = []\<rparr> ps_ex_store) \<and>
   (\<exists>k. displaceable 20 [] (live_part (record_stale 20 (ps_lastSeenTTL ps_ex_store)) (ps_records ps_ex_store)) k)"
proof -
  let ?m = "live_part (record_stale 20 (ps_lastSeenTTL ps_ex_store)) (ps_records ps_ex_store)"
  let ?b = "ps_ex_beat ''o3'' ''g3'' 0 60"
  let ?h = "HeartbeatWithGrant ps_ex_rng 20 ?b \<lparr>pg_Caller = []\<rparr> ps_ex_store"
  let ?p = "presence_pruneLocked ps_ex_rng 20 ps_ex_store"
  have wf: "presence_wf ps_ex_store"
    unfolding ps_ex_store_def by (rule presence_wf_reached [OF ps_ex_order])
  have m: "ps_records ?p = ?m" by (simp add: presence_order.prune_tables [OF ps_ex_order])
  have ok: "fst ?h" by code_simp
  have "go_len (ps_records ?p) = 2" "fmlookup (ps_records ?p) ''g3'' = None" by code_simp+
  then have full: "go_len ?m = 2" "fmlookup ?m ''g3'' = None" unfolding m .
  have "pr_grantHash (hb_record 20 ?b \<lparr>pg_Caller = []\<rparr>) = ''g3''"
    "pr_caller (hb_record 20 ?b \<lparr>pg_Caller = []\<rparr>) = []" "ps_maxRecords ps_ex_store = 2" by code_simp+
  with heartbeat_outcome [OF ps_ex_range wf prod.collapse [symmetric] refl refl, where now = 20 and val = ?b
      and grant = "\<lparr>pg_Caller = []\<rparr>"] ok full
  show ?thesis by simp
qed

section \<open>Revocation\<close>

text \<open>
  Requests during the life of a revocation of \<open>owner\<close> at \<open>t\<close>: the clock is between \<open>t\<close> and its
  expiry, the owner's heartbeats are no newer than the revocation, and revocations of the owner
  that peers send do not expire earlier.
\<close>

fun within_revocation :: "string \<Rightarrow> time \<Rightarrow> duration \<Rightarrow> presence_request \<Rightarrow> bool" where
  "within_revocation owner t ttl (HeartbeatReq now val grant) \<longleftrightarrow> t \<le> now \<and> now < t + ttl \<and>
     (TrimSpace (hb_OwnerHash val) = owner \<longrightarrow> hb_UpdatedAt val \<noteq> 0 \<and> hb_UpdatedAt val \<le> t)"
| "within_revocation owner t ttl (ImportRevocationsReq now values) \<longleftrightarrow> t \<le> now \<and> now < t + ttl \<and>
     list_all (\<lambda>v. rev_OwnerHash v = owner \<longrightarrow> t + ttl \<le> rev_ExpiresAt v) values"
| "within_revocation owner t ttl r \<longleftrightarrow> t \<le> presence_time r \<and> presence_time r < t + ttl"

definition revoked_out :: "string \<Rightarrow> time \<Rightarrow> duration \<Rightarrow> PresenceStore \<Rightarrow> bool" where
  "revoked_out owner t ttl s \<longleftrightarrow> ps_lastSeenTTL s = ttl \<and>
     (\<forall>k r. fmlookup (ps_records s) k = Some r \<longrightarrow> pr_ownerHash r \<noteq> owner) \<and>
     (\<exists>v. fmlookup (ps_revocations s) owner = Some v \<and> t \<le> rev_UpdatedAt v \<and> t + ttl \<le> rev_ExpiresAt v)"

context presence_order
begin

lemma revoked_prune:
  "revoked_out owner t ttl s \<Longrightarrow> now < t + ttl \<Longrightarrow> revoked_out owner t ttl (presence_pruneLocked rng now s)"
  by (auto simp: revoked_out_def revocation_dead_def)

lemma makeRoom_sub:
  assumes "makeRoomLocked rng now caller s = (room, u)"
  shows "ps_revocations u = ps_revocations s" "ps_lastSeenTTL u = ps_lastSeenTTL s"
    "fmlookup (ps_records u) k = Some r \<Longrightarrow> fmlookup (ps_records s) k = Some r"
  by (cases rule: makeRoom_cases [OF range_order_axioms assms]; auto split: if_splits)+

lemma revoked_heartbeat:
  assumes "revoked_out owner t ttl s" "within_revocation owner t ttl (HeartbeatReq now val grant)"
  shows "revoked_out owner t ttl (snd (HeartbeatWithGrant rng now val grant s))"
proof -
  obtain ok s' where call: "HeartbeatWithGrant rng now val grant s = (ok, s')"
    by (cases "HeartbeatWithGrant rng now val grant s")
  let ?p = "presence_pruneLocked rng now s" and ?r = "hb_record now val grant"
  have p: "revoked_out owner t ttl ?p" using revoked_prune [OF assms(1)] assms(2) by simp
  then obtain v where v: "fmlookup (ps_revocations ?p) owner = Some v" "t \<le> rev_UpdatedAt v"
    by (auto simp: revoked_out_def)
  have other: "pr_ownerHash ?r \<noteq> owner"
    if "\<not> supersededBy (pr_updatedAt ?r) (fmlookup (ps_revocations ?p) (pr_ownerHash ?r))"
  proof
    assume o': "pr_ownerHash ?r = owner"
    then have "pr_updatedAt ?r \<le> t" using assms(2) by (simp add: hb_record_def)
    with v(2) that [unfolded o' v(1)] show False by (simp add: supersededBy_def)
  qed
  from call have "revoked_out owner t ttl s'"
  proof (cases rule: Heartbeat_cases)
    case refresh
    then show ?thesis using p other by (auto simp: revoked_out_def split: if_splits)
  next
    case (search room u)
    then show ?thesis using p other makeRoom_sub [OF search(4)]
      by (auto simp: revoked_out_def split: if_splits)
  qed (use p assms in simp_all)
  then show ?thesis by (simp add: call)
qed

lemma revoked_revoke:
  assumes "revoked_out owner t ttl s" "t \<le> now"
  shows "revoked_out owner t ttl (snd (Revoke rng now o' s))"
  using assms
  by (auto simp: revoked_out_def Revoke_state Let_def record_sweep.table_sweep storeRevocationLocked_def)

lemma revoked_import:
  assumes "revoked_out owner t ttl s" "rev_OwnerHash v = owner \<longrightarrow> t + ttl \<le> rev_ExpiresAt v"
  shows "revoked_out owner t ttl (importRevocationStep rng now v s)"
  using assms
  by (auto simp: revoked_out_def importRevocationStep_def Let_def record_sweep.table_sweep supersededBy_def
      split: option.splits)

end

sublocale presence_order \<subseteq> revoked: machine "presence_step rng" "within_revocation owner t ttl" "revoked_out owner t ttl"
  for owner t ttl
proof unfold_locales
  fix s r es' s'
  assume a: "revoked_out owner t ttl s" "within_revocation owner t ttl r" "presence_step rng r s = (es', s')"
  have imp: "revoked_out owner t ttl (ImportRevocations rng now vals s)"
    if "list_all (\<lambda>v. rev_OwnerHash v = owner \<longrightarrow> t + ttl \<le> rev_ExpiresAt v) vals" for now vals
    unfolding ImportRevocations_def
    by (rule fold_invariant) (use that a(1) in \<open>auto simp: list_all_iff intro: revoked_import\<close>)
  from a show "revoked_out owner t ttl s'"
    by (cases r) (auto simp: Let_def Query_def presence_Prune_def presence_Count_def presence_Snapshot_def
        Revocations_def revoked_prune revoked_heartbeat revoked_revoke imp)
qed

context presence_order
begin

lemma revoked_run:
  "revoked_out owner t ttl s \<Longrightarrow> list_all (within_revocation owner t ttl) rs \<Longrightarrow>
   revoked_out owner t ttl (snd (trace (presence_step rng) rs s))"
  by (rule revoked.run_keeps)

lemma revoke_starts:
  assumes "fmlookup (ps_revocations s) (TrimSpace o') \<noteq> None \<or> go_len (ps_revocations s) < ps_maxRecords s"
  shows "revoked_out (TrimSpace o') t (ps_lastSeenTTL s) (snd (Revoke rng t o' s))"
  using assms
  by (auto simp: revoked_out_def Revoke_state Let_def record_sweep.table_sweep storeRevocationLocked_def)

end

text \<open>
  C31. Once an owner is revoked and the revocation is stored, no lease of that owner is listed again
  for the whole life of the revocation, whatever other requests come in, unless the owner itself
  sends a heartbeat newer than the revocation: replayed and replicated older heartbeats bounce.
\<close>

theorem revocation_holds:
  assumes "range_order rng" "fmlookup (ps_revocations s) (TrimSpace owner) \<noteq> None \<or> go_len (ps_revocations s) < ps_maxRecords s"
    and "list_all (within_revocation (TrimSpace owner) t (ps_lastSeenTTL s)) rs"
    and "s' = snd (trace (presence_step rng) rs (snd (Revoke rng t owner s)))"
    and "fmlookup (ps_records s') k = Some r"
  shows "pr_ownerHash r \<noteq> TrimSpace owner"
proof -
  have order: "presence_order rng" using assms(1) by (simp add: presence_order_def)
  from presence_order.revoked_run [OF order presence_order.revoke_starts [OF order assms(2)] assms(3)] assms(4,5)
  show ?thesis by (auto simp: revoked_out_def)
qed

theorem revocation_holds_witness:
  "pr_ownerHash (the (fmlookup (ps_records (snd (trace (presence_step ps_ex_rng)
      [HeartbeatReq 16 (ps_ex_beat ''o1'' ''g1'' 10 20) \<lparr>pg_Caller = []\<rparr>, QueryReq 17 [''g1'']]
      (snd (Revoke ps_ex_rng 15 ''o1'' ps_ex_store))))) ''g2'')) \<noteq> ''o1''"
proof -
  let ?rs = "[HeartbeatReq 16 (ps_ex_beat ''o1'' ''g1'' 10 20) \<lparr>pg_Caller = []\<rparr>, QueryReq 17 [''g1'']]"
  let ?s = "snd (trace (presence_step ps_ex_rng) ?rs (snd (Revoke ps_ex_rng 15 ''o1'' ps_ex_store)))"
  have o1: "TrimSpace ''o1'' = ''o1''" by code_simp
  have "go_len (ps_revocations ps_ex_store) < ps_maxRecords ps_ex_store" by code_simp
  then have room: "fmlookup (ps_revocations ps_ex_store) (TrimSpace ''o1'') \<noteq> None \<or>
      go_len (ps_revocations ps_ex_store) < ps_maxRecords ps_ex_store" ..
  have rs: "list_all (within_revocation (TrimSpace ''o1'') 15 (ps_lastSeenTTL ps_ex_store)) ?rs" by code_simp
  have "\<not> Option.is_none (fmlookup (ps_records ?s) ''g2'')" by code_simp
  then have "fmlookup (ps_records ?s) ''g2'' = Some (the (fmlookup (ps_records ?s) ''g2''))"
    by (cases "fmlookup (ps_records ?s) ''g2''") simp_all
  from revocation_holds [OF ps_ex_range room rs refl this] show ?thesis unfolding o1 .
qed

section \<open>Replicating the table\<close>

lemma presence_Import_trace:
  "presence_Import rng clock hbs s =
     snd (trace (presence_step rng) (map (\<lambda>(i, v). HeartbeatReq (clock i) v \<lparr>pg_Caller = []\<rparr>) (enumerate 0 hbs)) s)"
proof -
  have "fold (\<lambda>(i, v) s. snd (Heartbeat rng (clock i) v s)) xs s =
      snd (trace (presence_step rng) (map (\<lambda>(i, v). HeartbeatReq (clock i) v \<lparr>pg_Caller = []\<rparr>) xs) s)" for xs
    by (induction xs arbitrary: s) (auto simp: Let_def Heartbeat_def split: prod.splits)
  then show ?thesis by (simp add: presence_Import_def)
qed

lemma presence_Import_instant:
  "presence_Import rng (\<lambda>_. now) hbs s = fold (\<lambda>v s. snd (Heartbeat rng now v s)) hbs s"
proof -
  have "fold (\<lambda>(i, v) s. snd (Heartbeat rng now v s)) (enumerate n hbs) s = fold (\<lambda>v s. snd (Heartbeat rng now v s)) hbs s" for n
    by (induction hbs arbitrary: n s) simp_all
  then show ?thesis by (simp add: presence_Import_def)
qed

text \<open>Records are never seen in the future.\<close>

definition seen_by :: "time \<Rightarrow> PresenceStore \<Rightarrow> bool" where
  "seen_by T s \<longleftrightarrow> (\<forall>k r. fmlookup (ps_records s) k = Some r \<longrightarrow> pr_lastSeen r \<le> T)"

context presence_order
begin

lemma seen_heartbeat:
  assumes "seen_by T s" "now \<le> T"
  shows "seen_by T (snd (HeartbeatWithGrant rng now val grant s))"
proof -
  obtain ok s' where call: "HeartbeatWithGrant rng now val grant s = (ok, s')"
    by (cases "HeartbeatWithGrant rng now val grant s")
  from call have "seen_by T s'"
  proof (cases rule: Heartbeat_cases)
    case (search room u)
    then show ?thesis using assms makeRoom_sub(3) [OF search(4)]
      by (auto simp: seen_by_def hb_record_def split: if_splits)
  qed (use assms in \<open>auto simp: seen_by_def hb_record_def split: if_splits\<close>)
  then show ?thesis by (simp add: call)
qed

lemma seen_import: "seen_by T s \<Longrightarrow> seen_by T (importRevocationStep rng now v s)"
  by (auto simp: seen_by_def importRevocationStep_def Let_def record_sweep.table_sweep)

end

sublocale presence_order \<subseteq> seen: machine "presence_step rng" "\<lambda>r. presence_time r \<le> T" "seen_by T" for T
proof unfold_locales
  fix s r es' s'
  assume a: "seen_by T s" "presence_time r \<le> T" "presence_step rng r s = (es', s')"
  have prune: "seen_by T (presence_pruneLocked rng now s)" for now using a(1) by (auto simp: seen_by_def)
  have imp: "seen_by T (ImportRevocations rng now vals s)" for now vals
    unfolding ImportRevocations_def by (rule fold_invariant) (use a(1) in \<open>auto intro: seen_import\<close>)
  have revoke: "seen_by T (snd (Revoke rng now o' s))" for now o'
    using a(1) by (auto simp: seen_by_def Revoke_state Let_def record_sweep.table_sweep)
  from a show "seen_by T s'"
    by (cases r) (auto simp: Let_def Query_def presence_Prune_def presence_Count_def presence_Snapshot_def
        Revocations_def prune imp revoke seen_heartbeat)
qed

text \<open>The copy a peer makes of a record: charged to nobody and seen when imported.\<close>

definition replica :: "time \<Rightarrow> presence_record \<Rightarrow> presence_record" where
  "replica now r = r\<lparr>pr_caller := [], pr_lastSeen := now,
     pr_updatedAt := (if IsZero (pr_updatedAt r) then now else pr_updatedAt r)\<rparr>"

definition fresh_at :: "time \<Rightarrow> PresenceStore \<Rightarrow> bool" where
  "fresh_at now b \<longleftrightarrow> ps_revocations b = fmempty \<and> 0 \<le> ps_lastSeenTTL b \<and>
     (\<forall>k r. fmlookup (ps_records b) k = Some r \<longrightarrow> pr_lastSeen r = now)"

context presence_order
begin

lemma seen_run: "seen_by T s \<Longrightarrow> list_all (\<lambda>r. presence_time r \<le> T) rs \<Longrightarrow> seen_by T (snd (trace (presence_step rng) rs s))"
  by (rule seen.run_keeps)

lemma import_one:
  assumes "fresh_at now b" "record_ok k r" "pr_lastSeen r \<le> now" "go_len (ps_records b) < ps_maxRecords b"
  defines "b' \<equiv> snd (Heartbeat rng now (heartbeatOf r) b)"
  shows "fresh_at now b' \<and> ps_maxRecords b' = ps_maxRecords b \<and>
    ps_records b' = (if now < pr_expiresAt r then fmupd k (replica now r) (ps_records b) else ps_records b)"
proof -
  let ?p = "presence_pruneLocked rng now b" and ?g = "\<lparr>pg_Caller = []\<rparr>"
  obtain ok s' where call: "HeartbeatWithGrant rng now (heartbeatOf r) ?g b = (ok, s')"
    by (cases "HeartbeatWithGrant rng now (heartbeatOf r) ?g b")
  have b': "b' = s'" by (simp add: b'_def Heartbeat_def call)
  have r: "hb_record now (heartbeatOf r) ?g = replica now r" "pr_grantHash r = k"
    using assms(2) by (simp_all add: hb_record_def heartbeatOf_def replica_def record_ok_def)
  have valid: "hb_valid now (heartbeatOf r) \<longleftrightarrow> now < pr_expiresAt r"
    using assms(2,3) by (auto simp: hb_valid_def heartbeatOf_def record_ok_def)
  have g: "pr_grantHash (replica now r) = k" by (simp add: replica_def r)
  have tables: "live_part (record_stale now (ps_lastSeenTTL b)) (ps_records b) = ps_records b"
    "ps_revocations b = fmempty"
    using assms(1) by (auto simp: fresh_at_def lookup_live_part record_stale_def intro!: fmap_ext split: option.split)
  have new: "fresh_at now s'" if "ps_records s' = fmupd k (replica now r) (ps_records b)"
    "ps_revocations s' = fmempty" "ps_lastSeenTTL s' = ps_lastSeenTTL b"
    using assms(1) that by (auto simp: fresh_at_def replica_def split: if_splits)
  from call show ?thesis
  proof (cases rule: Heartbeat_cases)
    case invalid
    with valid assms(1) show ?thesis by (simp add: b')
  next
    case revoked
    then show ?thesis by (simp add: tables supersededBy_def)
  next
    case refresh
    with new valid show ?thesis by (simp add: b' r(1) tables g)
  next
    case (search room u)
    then have "room" "u = dropRevocation (pr_ownerHash (replica now r)) ?p"
      using assms(4) by (simp_all add: makeRoomLocked_def r(1) tables)
    with new valid search show ?thesis by (simp add: b' r(1) tables g)
  qed
qed

lemma import_all:
  assumes "fresh_at now b" "\<forall>r\<in>set rs. record_ok (pr_grantHash r) r \<and> pr_lastSeen r \<le> now"
    and "go_len (ps_records b) + int (length rs) \<le> ps_maxRecords b" "distinct (map pr_grantHash rs)"
  defines "b' \<equiv> fold (\<lambda>v s. snd (Heartbeat rng now v s)) (map heartbeatOf rs) b"
  shows "(\<forall>r\<in>set rs. now < pr_expiresAt r \<longrightarrow> fmlookup (ps_records b') (pr_grantHash r) = Some (replica now r)) \<and>
    (\<forall>g. (\<forall>r\<in>set rs. now < pr_expiresAt r \<longrightarrow> pr_grantHash r \<noteq> g) \<longrightarrow> fmlookup (ps_records b') g = fmlookup (ps_records b) g)"
  using assms(1-4) unfolding b'_def
proof (induction rs arbitrary: b)
  case (Cons r rs)
  let ?c = "snd (Heartbeat rng now (heartbeatOf r) b)"
  let ?b' = "fold (\<lambda>v s. snd (Heartbeat rng now v s)) (map heartbeatOf rs) ?c"
  from Cons.prems have c: "fresh_at now ?c \<and> ps_maxRecords ?c = ps_maxRecords b \<and>
    ps_records ?c = (if now < pr_expiresAt r then fmupd (pr_grantHash r) (replica now r) (ps_records b) else ps_records b)"
    by (intro import_one) auto
  then have "go_len (ps_records ?c) + int (length rs) \<le> ps_maxRecords ?c"
    using Cons.prems(3) by (auto simp: go_len_upd)
  with Cons.IH [of ?c] Cons.prems c
  have rest: "\<forall>r\<in>set rs. now < pr_expiresAt r \<longrightarrow> fmlookup (ps_records ?b') (pr_grantHash r) = Some (replica now r)"
    and old: "\<forall>g. (\<forall>r\<in>set rs. now < pr_expiresAt r \<longrightarrow> pr_grantHash r \<noteq> g) \<longrightarrow> fmlookup (ps_records ?b') g = fmlookup (ps_records ?c) g"
    by simp_all
  have "fmlookup (ps_records ?b') (pr_grantHash r) = fmlookup (ps_records ?c) (pr_grantHash r)"
    by (rule old [rule_format]) (use Cons.prems(4) in \<open>force simp: image_iff\<close>)
  with rest old c show ?case by auto
qed simp

end

text \<open>
  C32. Presence replicates: when a relay takes a snapshot and a fresh peer with at least as large a
  table imports it at the same instant, the peer lists exactly the leases that are online there,
  each with its owner and expiry, and nothing else.
\<close>

theorem snapshot_import_online:
  assumes "range_order rng" "range_order rng'"
    and "list_all (\<lambda>r. presence_time r \<le> now) rs"
    and "s = snd (trace (presence_step rng) rs (presence_NewStore maxRecords ttl))"
    and "presence_Snapshot rng now s = (hbs, s')"
    and "ps_maxRecords s \<le> ps_maxRecords (presence_NewStore maxRecords' ttl')"
    and "b = presence_Import rng' (\<lambda>_. now) hbs (presence_NewStore maxRecords' ttl')"
  shows "fmlookup (ps_records b) g =
    (case fmlookup (ps_records s') g of
       None \<Rightarrow> None
     | Some r \<Rightarrow> if now < pr_expiresAt r then Some (replica now r) else None)"
proof -
  let ?new = "presence_NewStore maxRecords' ttl'" and ?keys = "rng (fmdom (ps_records s'))"
  let ?items = "picked (ps_records s') (\<lambda>_. True) ?keys"
  have order: "presence_order rng" "presence_order rng'" using assms(1,2) by (simp_all add: presence_order_def)
  have s': "s' = presence_pruneLocked rng now s" "hbs = map heartbeatOf ?items"
    using assms(5) by (auto simp: presence_Snapshot_def Let_def)
  have wf: "presence_wf s'" unfolding s' assms(4) by (intro prune_presence_wf presence_wf_reached order)
  have "seen_by now s" unfolding assms(4)
    by (rule presence_order.seen_run [OF order(1) _ assms(3)]) (simp add: seen_by_def)
  then have seen: "seen_by now s'" unfolding s' by (auto simp: seen_by_def presence_order.prune_tables [OF order(1)])
  have mem: "r \<in> set ?items \<longleftrightarrow> (\<exists>k. fmlookup (ps_records s') k = Some r)" for r
    by (auto simp: set_picked range_order.rng_dom [OF assms(1)] fmlookup_dom'_iff)
  have keyed: "fmlookup (ps_records s') k = Some r \<Longrightarrow> pr_grantHash r = k" for k r
    using presence_wfD(4) [OF wf] by (simp add: record_ok_def)
  have ok: "\<forall>r\<in>set ?items. record_ok (pr_grantHash r) r \<and> pr_lastSeen r \<le> now"
    using presence_wfD(4) [OF wf] keyed seen unfolding seen_by_def by (auto simp: mem)
  have dist: "distinct (map pr_grantHash ?items)"
    by (rule distinct_picked_keys [OF range_order.rng_distinct [OF assms(1)] keyed])
  have len: "go_len (ps_records ?new) + int (length ?items) \<le> ps_maxRecords ?new"
  proof -
    have "int (length ?items) \<le> go_len (ps_records s')"
      using length_picked_le [of "ps_records s'" "\<lambda>_. True" ?keys] range_order.length_rng_dom [OF assms(1), of "ps_records s'"] by simp
    with presence_wfD(2) [OF wf] assms(6) show ?thesis by (simp add: s')
  qed
  have fresh: "fresh_at now ?new" by (simp add: fresh_at_def less_imp_le)
  note all = presence_order.import_all [OF order(2) fresh ok len dist, folded s'(2) presence_Import_instant assms(7)]
  show ?thesis
  proof (cases "fmlookup (ps_records s') g")
    case None
    then have "\<forall>r\<in>set ?items. now < pr_expiresAt r \<longrightarrow> pr_grantHash r \<noteq> g" using keyed by (auto simp: mem)
    with all None show ?thesis by simp
  next
    case (Some r)
    show ?thesis
    proof (cases "now < pr_expiresAt r")
      case True
      with all Some keyed [OF Some] mem [of r] show ?thesis by auto
    next
      case False
      then have "\<forall>r\<in>set ?items. now < pr_expiresAt r \<longrightarrow> pr_grantHash r \<noteq> g" using keyed Some by (auto simp: mem)
      with all Some False show ?thesis by simp
    qed
  qed
qed

theorem snapshot_import_online_witness:
  "fmlookup (ps_records (presence_Import ps_ex_rng (\<lambda>_. 20) (fst (presence_Snapshot ps_ex_rng 20 ps_ex_store))
      (presence_NewStore 2 1000))) ''g1'' = None"
proof -
  have hist: "list_all (\<lambda>r. presence_time r \<le> 20) ps_ex_history" by code_simp
  have room: "ps_maxRecords ps_ex_store \<le> ps_maxRecords (presence_NewStore 2 1000)" by code_simp
  have "\<not> Option.is_none (fmlookup (ps_records (snd (presence_Snapshot ps_ex_rng 20 ps_ex_store))) ''g1'')"
    "pr_expiresAt (the (fmlookup (ps_records (snd (presence_Snapshot ps_ex_rng 20 ps_ex_store))) ''g1'')) \<le> 20"
    by code_simp+
  with snapshot_import_online [OF ps_ex_range ps_ex_range hist ps_ex_store_def prod.collapse [symmetric] room refl, of "''g1''"]
  show ?thesis by (auto split: option.splits)
qed

end
