(* ===== verification/Attachment.thy ===== *)
theory Attachment
  imports Go_Maps Model_Types
begin

unbundle bit_operations_syntax

text \<open>
  \<open>internal/attachment/relay.go\<close>: the live pass-through for attachment chunks. Sessions are keyed by
  the capability of the transfer; a session buffers a window of chunks, remembers the accepted
  indices in a bitmap of 64-bit words, and is charged to the circle that opened it. The byte totals
  count bytes that were really received, so they are integers of HOL. Sessions and transit windows
  are held by pointer and by nothing but their map, so a write through the pointer is an update of
  the map.
\<close>

section \<open>State\<close>

datatype attachment_error =
    AttErrDuplicate
  | AttErrWindowFull
  | AttErrTooManySessions
  | AttErrInvalid
  | AttErrTooLarge
  | AttErrTransitExhausted
  | AttErrTooManyChunks

definition maxChunksPerTransfer :: int where
  "maxChunksPerTransfer = 8192"

record AttGrant =
  ag_Credential :: uint32
  ag_AttachmentBytes :: int
  ag_ConcurrentTransfers :: int
  ag_TransitBytesPerDay :: int

definition zero_AttGrant :: AttGrant where
  "zero_AttGrant = \<lparr>ag_Credential = 0, ag_AttachmentBytes = 0, ag_ConcurrentTransfers = 0, ag_TransitBytesPerDay = 0\<rparr>"

definition att_lowerOf :: "int \<Rightarrow> int \<Rightarrow> int" where
  "att_lowerOf box credential = (if credential \<le> 0 \<or> credential > box then box else credential)"

record Chunk =
  ch_ID :: string
  ch_TransferID :: string
  ch_Capability :: string
  ch_Recipient :: string
  ch_Index :: int
  ch_TotalChunks :: int
  ch_EncryptedPayload :: string
  ch_SizeBytes :: int
  ch_CreatedAt :: time
  ch_ExpiresAt :: time

record AttStats =
  as_Sessions :: int
  as_Chunks :: int
  as_Bytes :: int

record session =
  se_transferID :: string
  se_capability :: string
  se_recipient :: string
  se_window :: "Chunk list"
  se_bytes :: int
  se_totalChunks :: int
  se_seen :: "uint64 list"
  se_lastActivity :: time
  se_credential :: uint32
  se_pushedBytes :: int

text \<open>The two arrays of 24 hourly slots.\<close>

record transitWindow =
  tw_bytes :: "int list"
  tw_hour :: "int list"

record Relay =
  re_maxWindow :: int
  re_maxChunkBytes :: int
  re_maxAttachmentBytes :: int
  re_maxSessions :: int
  re_idleTimeout :: duration
  re_sessions :: "(string, session) gomap"
  re_transit :: "(uint32, transitWindow) gomap"

section \<open>The rolling transit total\<close>

text \<open>
  Go's division truncates; the clock of a running relay is past 1970, where it is \<open>div\<close>, and the
  slot \<open>hour % 24\<close> is an index of the array.
\<close>

definition unix_hour :: "time \<Rightarrow> int" where
  "unix_hour now = time_Unix now div 3600"

definition transit_add :: "time \<Rightarrow> int \<Rightarrow> transitWindow \<Rightarrow> transitWindow" where
  "transit_add now n w =
     (let hour = unix_hour now;
          slot = nat (hour mod 24);
          w = (if tw_hour w ! slot \<noteq> hour
               then w\<lparr>tw_hour := (tw_hour w)[slot := hour], tw_bytes := (tw_bytes w)[slot := 0]\<rparr> else w)
      in w\<lparr>tw_bytes := (tw_bytes w)[slot := tw_bytes w ! slot + n]\<rparr>)"

definition transit_total :: "time \<Rightarrow> transitWindow \<Rightarrow> int" where
  "transit_total now w =
     (let oldest = unix_hour now - 23
      in fold (\<lambda>slot sum. if tw_hour w ! slot \<ge> oldest then sum + tw_bytes w ! slot else sum) [0..<24] 0)"

definition zero_transitWindow :: transitWindow where
  "zero_transitWindow = \<lparr>tw_bytes = replicate 24 0, tw_hour = replicate 24 0\<rparr>"

section \<open>Construction\<close>

definition NewRelay :: "int \<Rightarrow> int \<Rightarrow> int \<Rightarrow> int \<Rightarrow> duration \<Rightarrow> Relay" where
  "NewRelay maxWindow maxChunkBytes maxAttachmentBytes maxSessions idleTimeout =
     \<lparr>re_maxWindow = (if maxWindow \<le> 0 then 8 else maxWindow),
      re_maxChunkBytes = (if maxChunkBytes \<le> 0 then 1024 * 1024 else maxChunkBytes),
      re_maxAttachmentBytes = (if maxAttachmentBytes \<le> 0 then 50 * 1024 * 1024 else maxAttachmentBytes),
      re_maxSessions = (if maxSessions \<le> 0 then 256 else maxSessions),
      re_idleTimeout = (if idleTimeout \<le> 0 then 30 * Second else idleTimeout),
      re_sessions = fmempty, re_transit = fmempty\<rparr>"

definition MaxAttachmentBytes :: "Relay \<Rightarrow> int" where
  "MaxAttachmentBytes r = re_maxAttachmentBytes r"

section \<open>Pushing\<close>

text \<open>The sweep deletes idle sessions only, each under its own key, so the order does not matter.\<close>

definition session_idle :: "time \<Rightarrow> duration \<Rightarrow> session \<Rightarrow> bool" where
  "session_idle now idle sess \<longleftrightarrow> time_Sub now (se_lastActivity sess) > idle"

definition sweepLocked :: "time \<Rightarrow> Relay \<Rightarrow> Relay" where
  "sweepLocked now r = r\<lparr>re_sessions := live_part (session_idle now (re_idleTimeout r)) (re_sessions r)\<rparr>"

definition sessionsForLocked :: "uint32 \<Rightarrow> Relay \<Rightarrow> int" where
  "sessionsForLocked credential r =
     int (fcard (ffilter (\<lambda>k. case fmlookup (re_sessions r) k of
        None \<Rightarrow> False | Some sess \<Rightarrow> se_credential sess = credential) (fmdom (re_sessions r))))"

definition trimChunk :: "Chunk \<Rightarrow> Chunk" where
  "trimChunk chunk = chunk
     \<lparr>ch_ID := TrimSpace (ch_ID chunk), ch_TransferID := TrimSpace (ch_TransferID chunk),
      ch_Capability := TrimSpace (ch_Capability chunk), ch_Recipient := TrimSpace (ch_Recipient chunk),
      ch_EncryptedPayload := TrimSpace (ch_EncryptedPayload chunk)\<rparr>"

definition payloadBytes :: "Chunk \<Rightarrow> int" where
  "payloadBytes chunk = int (length (ch_EncryptedPayload chunk))"

text \<open>The checks made before the lock is taken.\<close>

definition checkChunk :: "Relay \<Rightarrow> Chunk \<Rightarrow> attachment_error option" where
  "checkChunk r chunk =
     (if ch_ID chunk = [] \<or> ch_TransferID chunk = [] \<or> ch_Capability chunk = [] \<or>
         ch_Recipient chunk = [] \<or> ch_EncryptedPayload chunk = [] \<or>
         ch_Index chunk < 0 \<or> ch_TotalChunks chunk \<le> 0 \<or> ch_Index chunk \<ge> ch_TotalChunks chunk \<or>
         ch_SizeBytes chunk \<le> 0 \<or> ch_SizeBytes chunk > re_maxChunkBytes r
      then Some AttErrInvalid
      else if payloadBytes chunk > re_maxChunkBytes r then Some AttErrInvalid
      else if ch_TotalChunks chunk > maxChunksPerTransfer then Some AttErrTooManyChunks
      else None)"

text \<open>The session of a chunk: the live one, or a new one within the caps of the box and the circle.\<close>

definition openSession :: "time \<Rightarrow> Chunk \<Rightarrow> AttGrant \<Rightarrow> Relay \<Rightarrow> attachment_error + session" where
  "openSession now chunk grant r =
     (case fmlookup (re_sessions r) (ch_Capability chunk) of
        Some sess \<Rightarrow> Inr sess
      | None \<Rightarrow>
          if go_len (re_sessions r) \<ge> re_maxSessions r then Inl AttErrTooManySessions
          else if ag_Credential grant \<noteq> 0 \<and> ag_ConcurrentTransfers grant > 0 \<and>
                  sessionsForLocked (ag_Credential grant) r \<ge> att_lowerOf (re_maxSessions r) (ag_ConcurrentTransfers grant)
          then Inl AttErrTooManySessions
          else Inr \<lparr>se_transferID = ch_TransferID chunk, se_capability = ch_Capability chunk,
                 se_recipient = ch_Recipient chunk, se_window = [], se_bytes = 0,
                 se_totalChunks = ch_TotalChunks chunk,
                 se_seen = replicate (nat ((ch_TotalChunks chunk + 63) div 64)) 0,
                 se_lastActivity = now, se_credential = ag_Credential grant, se_pushedBytes = 0\<rparr>)"

definition seen_bit :: "session \<Rightarrow> int \<Rightarrow> bool" where
  "seen_bit sess index \<longleftrightarrow> se_seen sess ! nat (index div 64) AND push_bit (nat (index mod 64)) 1 \<noteq> 0"

text \<open>The checks made on the session.\<close>

definition checkSession :: "time \<Rightarrow> Chunk \<Rightarrow> AttGrant \<Rightarrow> session \<Rightarrow> Relay \<Rightarrow> attachment_error option" where
  "checkSession now chunk grant sess r =
     (if se_transferID sess \<noteq> ch_TransferID chunk \<or> se_recipient sess \<noteq> ch_Recipient chunk \<or>
         se_totalChunks sess \<noteq> ch_TotalChunks chunk then Some AttErrInvalid
      else if seen_bit sess (ch_Index chunk) then Some AttErrDuplicate
      else if int (length (se_window sess)) \<ge> re_maxWindow r then Some AttErrWindowFull
      else if se_credential sess \<noteq> 0 \<and> ag_TransitBytesPerDay grant > 0 \<and>
              (case fmlookup (re_transit r) (se_credential sess) of
                 None \<Rightarrow> False
               | Some window \<Rightarrow> transit_total now window + payloadBytes chunk > ag_TransitBytesPerDay grant)
      then Some AttErrTransitExhausted
      else if se_pushedBytes sess + payloadBytes chunk > att_lowerOf (re_maxAttachmentBytes r) (ag_AttachmentBytes grant)
      then Some AttErrTooLarge
      else None)"

definition acceptChunk :: "time \<Rightarrow> Chunk \<Rightarrow> session \<Rightarrow> session" where
  "acceptChunk now chunk sess =
     (let word = nat (ch_Index chunk div 64); bit = nat (ch_Index chunk mod 64)
      in sess\<lparr>se_window := se_window sess @ [chunk],
              se_bytes := se_bytes sess + payloadBytes chunk,
              se_pushedBytes := se_pushedBytes sess + payloadBytes chunk,
              se_seen := (se_seen sess)[word := se_seen sess ! word OR push_bit bit 1],
              se_lastActivity := now\<rparr>)"

definition chargeTransit :: "time \<Rightarrow> uint32 \<Rightarrow> int \<Rightarrow> Relay \<Rightarrow> Relay" where
  "chargeTransit now credential n r =
     (if credential = 0 then r
      else
        let window = (case fmlookup (re_transit r) credential of None \<Rightarrow> zero_transitWindow | Some w \<Rightarrow> w)
        in r\<lparr>re_transit := fmupd credential (transit_add now n window) (re_transit r)\<rparr>)"

definition putSession :: "string \<Rightarrow> session \<Rightarrow> Relay \<Rightarrow> Relay" where
  "putSession capability sess r = r\<lparr>re_sessions := fmupd capability sess (re_sessions r)\<rparr>"

definition PushWithGrant :: "time \<Rightarrow> Chunk \<Rightarrow> AttGrant \<Rightarrow> Relay \<Rightarrow> attachment_error option \<times> Relay" where
  "PushWithGrant now chunk grant r =
     (let chunk = trimChunk chunk in
      case checkChunk r chunk of
        Some e \<Rightarrow> (Some e, r)
      | None \<Rightarrow>
          let r = sweepLocked now r in
          case openSession now chunk grant r of
            Inl e \<Rightarrow> (Some e, r)
          | Inr sess \<Rightarrow>
              let r = putSession (ch_Capability chunk) sess r in
              case checkSession now chunk grant sess r of
                Some e \<Rightarrow> (Some e, r)
              | None \<Rightarrow>
                  (None, chargeTransit now (se_credential sess) (payloadBytes chunk)
                           (putSession (ch_Capability chunk) (acceptChunk now chunk sess) r)))"

definition Push :: "time \<Rightarrow> Chunk \<Rightarrow> Relay \<Rightarrow> attachment_error option \<times> Relay" where
  "Push now chunk r = PushWithGrant now chunk zero_AttGrant r"

definition TransitToday :: "time \<Rightarrow> uint32 \<Rightarrow> Relay \<Rightarrow> int" where
  "TransitToday now credential r =
     (case fmlookup (re_transit r) credential of None \<Rightarrow> 0 | Some window \<Rightarrow> transit_total now window)"

section \<open>Draining, completing, pruning\<close>

text \<open>\<open>Drain\<close> reads the clock for the sweep and again for the session's last activity.\<close>

definition Drain :: "time \<Rightarrow> time \<Rightarrow> string \<Rightarrow> string \<Rightarrow> Relay \<Rightarrow> Chunk list \<times> Relay" where
  "Drain now now' recipient capability r =
     (let recipient = TrimSpace recipient; capability = TrimSpace capability in
      if recipient = [] \<or> capability = [] then ([], r)
      else
        let r = sweepLocked now r in
        case fmlookup (re_sessions r) capability of
          None \<Rightarrow> ([], r)
        | Some sess \<Rightarrow>
            if se_recipient sess \<noteq> recipient \<or> se_window sess = [] then ([], r)
            else (se_window sess,
                  putSession capability (sess\<lparr>se_window := [], se_bytes := 0, se_lastActivity := now'\<rparr>) r))"

definition Complete :: "string \<Rightarrow> string \<Rightarrow> Relay \<Rightarrow> int \<times> Relay" where
  "Complete transferID capability r =
     (let transferID = TrimSpace transferID; capability = TrimSpace capability in
      case fmlookup (re_sessions r) capability of
        None \<Rightarrow> (0, r)
      | Some sess \<Rightarrow>
          if se_transferID sess \<noteq> transferID then (0, r)
          else (int (length (se_window sess)), r\<lparr>re_sessions := fmdrop capability (re_sessions r)\<rparr>))"

definition att_statsLocked :: "(string fset \<Rightarrow> string list) \<Rightarrow> Relay \<Rightarrow> AttStats" where
  "att_statsLocked rng r =
     fold (\<lambda>k stats. case fmlookup (re_sessions r) k of
             None \<Rightarrow> stats
           | Some sess \<Rightarrow> stats\<lparr>as_Chunks := as_Chunks stats + int (length (se_window sess)),
                               as_Bytes := as_Bytes stats + se_bytes sess\<rparr>)
       (rng (fmdom (re_sessions r))) \<lparr>as_Sessions = go_len (re_sessions r), as_Chunks = 0, as_Bytes = 0\<rparr>"

definition att_Prune :: "(string fset \<Rightarrow> string list) \<Rightarrow> time \<Rightarrow> Relay \<Rightarrow> AttStats \<times> Relay" where
  "att_Prune rng now r =
     (let r = sweepLocked now r;
          r = r\<lparr>re_transit := live_part (\<lambda>window. transit_total now window = 0) (re_transit r)\<rparr>
      in (att_statsLocked rng r, r))"

definition att_Stats :: "(string fset \<Rightarrow> string list) \<Rightarrow> time \<Rightarrow> Relay \<Rightarrow> AttStats \<times> Relay" where
  "att_Stats rng now r = att_Prune rng now r"

section \<open>Requests and what they make visible\<close>

datatype relay_request =
    PushReq time Chunk AttGrant
  | DrainReq time time string string
  | CompleteReq time string string
  | AttPruneReq time

datatype relay_event =
    Opened string
  | Accepted string time uint32 Chunk
  | Delivered string "Chunk list"

text \<open>The instant a request is served at; \<open>Complete\<close> does not read it.\<close>

fun relay_time :: "relay_request \<Rightarrow> time" where
  "relay_time (PushReq now chunk grant) = now"
| "relay_time (DrainReq now now' recipient capability) = now"
| "relay_time (CompleteReq now transferID capability) = now"
| "relay_time (AttPruneReq now) = now"

text \<open>The circle a capability's live session is charged to.\<close>

definition charged_to :: "string \<Rightarrow> Relay \<Rightarrow> uint32" where
  "charged_to cap r = (case fmlookup (re_sessions r) cap of None \<Rightarrow> 0 | Some sess \<Rightarrow> se_credential sess)"

text \<open>A push opens a session when the sweep leaves none under its capability and one is there afterwards.\<close>

definition opens :: "time \<Rightarrow> Chunk \<Rightarrow> AttGrant \<Rightarrow> Relay \<Rightarrow> bool" where
  "opens now chunk grant r \<longleftrightarrow>
     fmlookup (re_sessions (sweepLocked now r)) (ch_Capability (trimChunk chunk)) = None \<and>
     fmlookup (re_sessions (snd (PushWithGrant now chunk grant r))) (ch_Capability (trimChunk chunk)) \<noteq> None \<and>
     checkChunk r (trimChunk chunk) = None"

fun relay_step :: "(string fset \<Rightarrow> string list) \<Rightarrow> relay_request \<Rightarrow> Relay \<Rightarrow> relay_event list \<times> Relay" where
  "relay_step rng (PushReq now chunk grant) r =
     (let (e, r') = PushWithGrant now chunk grant r; c = trimChunk chunk
      in ((if opens now chunk grant r then [Opened (ch_Capability c)] else []) @
          (if e = None then [Accepted (ch_Capability c) now (charged_to (ch_Capability c) r') c] else []), r'))"
| "relay_step rng (DrainReq now now' recipient capability) r =
     (let (out, r') = Drain now now' recipient capability r in ([Delivered (TrimSpace capability) out], r'))"
| "relay_step rng (CompleteReq now transferID capability) r = ([], snd (Complete transferID capability r))"
| "relay_step rng (AttPruneReq now) r = ([], snd (att_Prune rng now r))"

end
