(* ===== verification/Attachment_Inv.thy ===== *)
theory Attachment_Inv
  imports Attachment Machine
begin

text \<open>
  The invariants of the attachment relay: the caps on sessions and windows, the bitmap as a set of
  indices, and the ledger that relates a live session to the chunks accepted and delivered since
  it was opened.
\<close>

section \<open>The bitmap\<close>

definition in_range :: "session \<Rightarrow> int \<Rightarrow> bool" where
  "in_range sess i \<longleftrightarrow> 0 \<le> i \<and> nat (i div 64) < length (se_seen sess)"

lemma seen_bit_bit: "seen_bit sess i \<longleftrightarrow> bit (se_seen sess ! nat (i div 64)) (nat (i mod 64))"
  by (simp add: seen_bit_def bit_iff_and_push_bit_not_eq_0)

lemma seen_bit_accept:
  assumes "in_range sess (ch_Index c)" "0 \<le> i"
  shows "seen_bit (acceptChunk now c sess) i \<longleftrightarrow> i = ch_Index c \<or> seen_bit sess i"
proof -
  let ?j = "ch_Index c"
  have j: "0 \<le> ?j" "nat (?j div 64) < length (se_seen sess)" using assms(1) by (simp_all add: in_range_def)
  have split: "i = ?j \<longleftrightarrow> nat (i div 64) = nat (?j div 64) \<and> nat (i mod 64) = nat (?j mod 64)"
  proof
    assume "nat (i div 64) = nat (?j div 64) \<and> nat (i mod 64) = nat (?j mod 64)"
    then have "i div 64 = ?j div 64" "i mod 64 = ?j mod 64" using assms(2) j(1) by (simp_all add: eq_nat_nat_iff pos_imp_zdiv_nonneg_iff)
    then show "i = ?j" by (metis div_mult_mod_eq)
  qed simp
  have lt: "nat (?j mod 64) < 64" by (simp add: nat_less_iff)
  show ?thesis
  proof (cases "nat (i div 64) = nat (?j div 64)")
    case True
    with lt j(2) show ?thesis unfolding split
      by (auto simp: seen_bit_bit acceptChunk_def Let_def bit_or_iff bit_exp_iff)
  next
    case False
    then show ?thesis unfolding split by (simp add: seen_bit_bit acceptChunk_def Let_def)
  qed
qed

lemma word_index_less: "i < n \<Longrightarrow> i div 64 < (n + 63) div (64 :: int)"
  using div_add_self2 [of 64 "n - 1"] zdiv_mono1 [of i "n - 1" 64] by (simp add: algebra_simps)

lemma seen_bit_new: "0 \<le> i \<Longrightarrow> i < n \<Longrightarrow> se_seen sess = replicate (nat ((n + 63) div 64)) 0 \<Longrightarrow> \<not> seen_bit sess i"
proof -
  assume i: "0 \<le> i" "i < n" and seen: "se_seen sess = replicate (nat ((n + 63) div 64)) 0"
  from word_index_less [OF i(2)] have "nat (i div 64) < nat ((n + 63) div 64)" using i(1) by (simp add: nat_less_eq_zless)
  then show ?thesis by (simp add: seen_bit_bit seen)
qed

lemma index_word_in_range:
  assumes "0 \<le> i" "i < n" "length (se_seen sess) = nat ((n + 63) div 64)"
  shows "in_range sess i"
proof -
  from word_index_less [OF assms(2)] show ?thesis using assms(1,3) by (simp add: in_range_def nat_less_eq_zless)
qed

section \<open>Sessions\<close>

abbreviation payload_sum :: "Chunk list \<Rightarrow> int" where
  "payload_sum cs \<equiv> sum_list (map payloadBytes cs)"

definition session_ok :: "Relay \<Rightarrow> string \<Rightarrow> session \<Rightarrow> bool" where
  "session_ok r cap sess \<longleftrightarrow>
     se_capability sess = cap \<and> 0 < se_totalChunks sess \<and> se_totalChunks sess \<le> maxChunksPerTransfer \<and>
     length (se_seen sess) = nat ((se_totalChunks sess + 63) div 64) \<and>
     int (length (se_window sess)) \<le> re_maxWindow r \<and>
     se_bytes sess = payload_sum (se_window sess) \<and>
     (\<forall>c\<in>set (se_window sess). payloadBytes c \<le> re_maxChunkBytes r) \<and>
     se_pushedBytes sess \<le> re_maxAttachmentBytes r"

definition relay_wf :: "Relay \<Rightarrow> bool" where
  "relay_wf r \<longleftrightarrow>
     0 < re_maxWindow r \<and> 0 < re_maxChunkBytes r \<and> 0 < re_maxAttachmentBytes r \<and> 0 < re_maxSessions r \<and>
     go_len (re_sessions r) \<le> re_maxSessions r \<and>
     (\<forall>cap sess. fmlookup (re_sessions r) cap = Some sess \<longrightarrow> session_ok r cap sess)"

lemma relay_wfD:
  assumes "relay_wf r"
  shows "0 < re_maxWindow r" "0 < re_maxChunkBytes r" "0 < re_maxAttachmentBytes r" "0 < re_maxSessions r"
    "go_len (re_sessions r) \<le> re_maxSessions r"
    "fmlookup (re_sessions r) cap = Some sess \<Longrightarrow> session_ok r cap sess"
  using assms by (auto simp: relay_wf_def)

text \<open>The caps, which no operation changes.\<close>

definition relay_caps :: "Relay \<Rightarrow> int \<times> int \<times> int \<times> int \<times> duration" where
  "relay_caps r = (re_maxWindow r, re_maxChunkBytes r, re_maxAttachmentBytes r, re_maxSessions r, re_idleTimeout r)"

lemma session_ok_caps: "relay_caps r = relay_caps r' \<Longrightarrow> session_ok r cap sess = session_ok r' cap sess"
  by (simp add: session_ok_def relay_caps_def)

lemma relay_fields [simp]:
  "re_sessions (sweepLocked now r) = live_part (session_idle now (re_idleTimeout r)) (re_sessions r)"
  "re_transit (sweepLocked now r) = re_transit r"
  "relay_caps (sweepLocked now r) = relay_caps r"
  "re_sessions (putSession cap sess r) = fmupd cap sess (re_sessions r)"
  "re_transit (putSession cap sess r) = re_transit r"
  "relay_caps (putSession cap sess r) = relay_caps r"
  "re_sessions (chargeTransit now cred n r) = re_sessions r"
  "relay_caps (chargeTransit now cred n r) = relay_caps r"
  by (simp_all add: sweepLocked_def putSession_def chargeTransit_def Let_def relay_caps_def)

lemma caps_fields:
  assumes "relay_caps r = relay_caps r'"
  shows "re_maxWindow r = re_maxWindow r'" "re_maxChunkBytes r = re_maxChunkBytes r'"
    "re_maxAttachmentBytes r = re_maxAttachmentBytes r'" "re_maxSessions r = re_maxSessions r'"
    "re_idleTimeout r = re_idleTimeout r'"
  using assms by (simp_all add: relay_caps_def)

lemmas cap_simps [simp] = relay_fields(3,6,8) [THEN caps_fields(1)] relay_fields(3,6,8) [THEN caps_fields(2)]
  relay_fields(3,6,8) [THEN caps_fields(3)] relay_fields(3,6,8) [THEN caps_fields(4)] relay_fields(3,6,8) [THEN caps_fields(5)]

lemma relay_wf_sessions:
  assumes "relay_wf r" "relay_caps r' = relay_caps r" "go_len (re_sessions r') \<le> re_maxSessions r"
    and "\<And>cap sess. fmlookup (re_sessions r') cap = Some sess \<Longrightarrow>
      fmlookup (re_sessions r) cap = Some sess \<or> session_ok r cap sess"
  shows "relay_wf r'"
proof -
  have "session_ok r cap sess" if "fmlookup (re_sessions r') cap = Some sess" for cap sess
    using assms(4) [OF that] relay_wfD(6) [OF assms(1)] by blast
  with assms(1,3) caps_fields [OF assms(2)] session_ok_caps [OF assms(2)] show ?thesis
    by (simp add: relay_wf_def)
qed

lemma sweep_relay_wf: "relay_wf r \<Longrightarrow> relay_wf (sweepLocked now r)"
  by (rule relay_wf_sessions) (auto intro: order_trans [OF go_len_live_part_le] dest: relay_wfD(5))

section \<open>The outcomes of a push\<close>

lemma checkSession_put [simp]: "checkSession now c g sess (putSession cap sess' r) = checkSession now c g sess r"
  by (simp add: checkSession_def)

lemma Push_cases:
  fixes now chunk grant r
  defines "c \<equiv> trimChunk chunk" and "q \<equiv> sweepLocked now r"
  assumes call: "PushWithGrant now chunk grant r = (e, r')"
  obtains (invalid) x where "checkChunk r c = Some x" "e = Some x" "r' = r"
  | (slots) x where "checkChunk r c = None" "openSession now c grant q = Inl x" "e = Some x" "r' = q"
  | (refused) sess x where "checkChunk r c = None" "openSession now c grant q = Inr sess"
      "checkSession now c grant sess q = Some x" "e = Some x" "r' = putSession (ch_Capability c) sess q"
  | (stored) sess where "checkChunk r c = None" "openSession now c grant q = Inr sess"
      "checkSession now c grant sess q = None" "e = None"
      "r' = chargeTransit now (se_credential sess) (payloadBytes c)
              (putSession (ch_Capability c) (acceptChunk now c sess) (putSession (ch_Capability c) sess q))"
proof -
  have shape: "PushWithGrant now chunk grant r = (case checkChunk r c of Some e \<Rightarrow> (Some e, r)
     | None \<Rightarrow> (case openSession now c grant q of Inl e \<Rightarrow> (Some e, q)
        | Inr sess \<Rightarrow> (case checkSession now c grant sess q of Some e \<Rightarrow> (Some e, putSession (ch_Capability c) sess q)
           | None \<Rightarrow> (None, chargeTransit now (se_credential sess) (payloadBytes c)
               (putSession (ch_Capability c) (acceptChunk now c sess) (putSession (ch_Capability c) sess q))))))"
    unfolding PushWithGrant_def c_def q_def Let_def checkSession_put by (rule refl)
  note eq = call [unfolded shape]
  show ?thesis
  proof (cases "checkChunk r c")
    case (Some x)
    show ?thesis by (rule that(1) [OF Some]) (use eq Some in simp_all)
  next
    case None
    note cc = this
    show ?thesis
    proof (cases "openSession now c grant q")
      case (Inl x)
      show ?thesis by (rule that(2) [OF cc Inl]) (use eq cc Inl in simp_all)
    next
      case (Inr sess)
      show ?thesis
      proof (cases "checkSession now c grant sess q")
        case None
        show ?thesis by (rule that(4) [OF cc Inr None]) (use eq cc Inr None in simp_all)
      next
        case (Some x)
        show ?thesis by (rule that(3) [OF cc Inr Some]) (use eq cc Inr Some in simp_all)
      qed
    qed
  qed
qed

lemma openSession_Inr:
  assumes "openSession now c grant q = Inr sess"
  shows "(fmlookup (re_sessions q) (ch_Capability c) = Some sess) \<or>
    (fmlookup (re_sessions q) (ch_Capability c) = None \<and> go_len (re_sessions q) < re_maxSessions q \<and>
     sess = \<lparr>se_transferID = ch_TransferID c, se_capability = ch_Capability c,
                 se_recipient = ch_Recipient c, se_window = [], se_bytes = 0,
                 se_totalChunks = ch_TotalChunks c,
                 se_seen = replicate (nat ((ch_TotalChunks c + 63) div 64)) 0,
                 se_lastActivity = now, se_credential = ag_Credential grant, se_pushedBytes = 0\<rparr>)"
  using assms by (auto simp: openSession_def split: option.splits if_splits)

lemma checkChunk_None:
  assumes "checkChunk r c = None"
  shows "ch_Capability c \<noteq> []" "0 \<le> ch_Index c" "ch_Index c < ch_TotalChunks c" "0 < ch_TotalChunks c"
    "ch_TotalChunks c \<le> maxChunksPerTransfer" "payloadBytes c \<le> re_maxChunkBytes r"
  using assms by (auto simp: checkChunk_def split: if_splits)

lemma att_lowerOf_le: "att_lowerOf box credential \<le> box"
  by (simp add: att_lowerOf_def)

lemma checkSession_None:
  assumes "checkSession now c grant sess r = None"
  shows "se_transferID sess = ch_TransferID c" "se_recipient sess = ch_Recipient c"
    "se_totalChunks sess = ch_TotalChunks c" "\<not> seen_bit sess (ch_Index c)"
    "int (length (se_window sess)) < re_maxWindow r"
    "se_pushedBytes sess + payloadBytes c \<le> re_maxAttachmentBytes r"
  using assms att_lowerOf_le [of "re_maxAttachmentBytes r" "ag_AttachmentBytes grant"]
  by (auto simp: checkSession_def split: if_splits)

lemma opened_ok:
  assumes "relay_wf q" "checkChunk r c = None" "openSession now c grant q = Inr sess"
  shows "session_ok q (ch_Capability c) sess"
  using openSession_Inr [OF assms(3)] relay_wfD [OF assms(1)] checkChunk_None [OF assms(2)]
  by (auto simp: session_ok_def intro: less_imp_le)

lemma put_ok:
  assumes "relay_wf q" "session_ok q cap sess"
    and "fmlookup (re_sessions q) cap \<noteq> None \<or> go_len (re_sessions q) < re_maxSessions q"
  shows "relay_wf (putSession cap sess q)"
  by (rule relay_wf_sessions [OF assms(1)])
     (use assms relay_wfD(5) [OF assms(1)] in \<open>auto simp: go_len_upd split: if_splits\<close>)

lemma opened_room:
  assumes "relay_wf q" "openSession now c grant q = Inr sess"
  shows "fmlookup (re_sessions q) (ch_Capability c) \<noteq> None \<or> go_len (re_sessions q) < re_maxSessions q"
  using openSession_Inr [OF assms(2)] by auto

lemma accept_ok:
  assumes "session_ok q cap sess" "checkChunk q c = None" "checkSession now c grant sess q = None"
  shows "session_ok q cap (acceptChunk now c sess)"
  using assms(1) checkChunk_None [OF assms(2)] checkSession_None [OF assms(3)]
  by (auto simp: session_ok_def acceptChunk_def Let_def)

lemma checkChunk_caps: "relay_caps r = relay_caps r' \<Longrightarrow> checkChunk r c = checkChunk r' c"
  by (simp add: checkChunk_def relay_caps_def)

lemma Push_wf:
  assumes "relay_wf r" "PushWithGrant now chunk grant r = (e, r')"
  shows "relay_wf r'"
proof -
  let ?q = "sweepLocked now r" and ?c = "trimChunk chunk"
  have q: "relay_wf ?q" by (rule sweep_relay_wf [OF assms(1)])
  from assms(2) show ?thesis
  proof (cases rule: Push_cases)
    case (refused sess x)
    show ?thesis unfolding refused(5)
      by (rule put_ok [OF q opened_ok [OF q refused(1,2)] opened_room [OF q refused(2)]])
  next
    case (stored sess)
    let ?p = "putSession (ch_Capability ?c) sess ?q"
    have ok: "session_ok ?q (ch_Capability ?c) sess" by (rule opened_ok [OF q stored(1,2)])
    have p: "relay_wf ?p" by (rule put_ok [OF q ok opened_room [OF q stored(2)]])
    have "checkChunk ?q ?c = None" using stored(1) by (simp add: checkChunk_caps [of ?q r])
    from accept_ok [OF ok this stored(3)] have "session_ok ?p (ch_Capability ?c) (acceptChunk now ?c sess)"
      by (simp add: session_ok_caps [of ?p ?q])
    then have w: "relay_wf (putSession (ch_Capability ?c) (acceptChunk now ?c sess) ?p)"
      by (rule put_ok [OF p]) simp
    show ?thesis unfolding stored(5)
      by (rule relay_wf_sessions [OF w]) (use relay_wfD(5) [OF w] in simp_all)
  qed (use assms(1) q in simp_all)
qed

lemma Drain_wf: "relay_wf r \<Longrightarrow> relay_wf (snd (Drain now now' rc cap r))"
proof -
  assume r: "relay_wf r"
  let ?q = "sweepLocked now r"
  have q: "relay_wf ?q" by (rule sweep_relay_wf [OF r])
  have "relay_wf (putSession k (sess\<lparr>se_window := [], se_bytes := 0, se_lastActivity := now'\<rparr>) ?q)"
    if "fmlookup (re_sessions ?q) k = Some sess" for k sess
    by (rule put_ok [OF q]) (use that relay_wfD [OF q] in \<open>auto simp: session_ok_def intro: less_imp_le\<close>)
  with r q show ?thesis
    by (auto simp: Drain_def Let_def simp del: relay_fields(1) split: option.split)
qed

lemma Complete_wf: "relay_wf r \<Longrightarrow> relay_wf (snd (Complete t cap r))"
  by (rule relay_wf_sessions [of r])
     (auto simp: Complete_def Let_def relay_caps_def dest: relay_wfD(5)
       intro: order_trans [OF go_len_drop_le] split: option.splits if_splits)

lemma att_Prune_wf: "relay_wf r \<Longrightarrow> relay_wf (snd (att_Prune rng now r))"
  by (rule relay_wf_sessions [of r])
     (auto simp: att_Prune_def Let_def relay_caps_def sweepLocked_def dest: relay_wfD(5)
       intro: order_trans [OF go_len_live_part_le])

lemma step_relay_wf:
  assumes "relay_wf r" "relay_step rng rq r = (es, r')"
  shows "relay_wf r'"
proof (cases rq)
  case (PushReq now chunk grant)
  with assms show ?thesis by (auto simp: Let_def intro: Push_wf split: prod.splits)
next
  case (DrainReq now now' rc cap)
  with assms Drain_wf [OF assms(1), of now now' rc cap] show ?thesis by (auto split: prod.splits)
qed (use assms in \<open>auto simp: Complete_wf att_Prune_wf\<close>)

end
