(* ===== verification/Attachment_Ledger.thy ===== *)
theory Attachment_Ledger
  imports Attachment_Inv
begin

text \<open>
  The ledger of a live transfer: the chunks accepted and the chunks delivered since its session was
  opened.
\<close>

section \<open>The life of a session in the events\<close>

fun life_step :: "string \<Rightarrow> relay_event \<Rightarrow> Chunk list \<times> Chunk list \<Rightarrow> Chunk list \<times> Chunk list" where
  "life_step cap (Opened k) (acc, del) = (if k = cap then ([], []) else (acc, del))"
| "life_step cap (Accepted k t cred c) (acc, del) = (if k = cap then (acc @ [c], del) else (acc, del))"
| "life_step cap (Delivered k cs) (acc, del) = (if k = cap then (acc, del @ cs) else (acc, del))"

definition life :: "string \<Rightarrow> relay_event list \<Rightarrow> Chunk list \<times> Chunk list" where
  "life cap es = fold (life_step cap) es ([], [])"

lemma life_append: "life cap (es @ es') = fold (life_step cap) es' (life cap es)"
  by (simp add: life_def)

definition ledger_session :: "Chunk list \<times> Chunk list \<Rightarrow> session \<Rightarrow> bool" where
  "ledger_session l sess \<longleftrightarrow>
     fst l = snd l @ se_window sess \<and> distinct (map ch_Index (fst l)) \<and>
     (\<forall>c\<in>set (fst l). 0 \<le> ch_Index c \<and> ch_Index c < se_totalChunks sess \<and>
        ch_TransferID c = se_transferID sess \<and> ch_Recipient c = se_recipient sess) \<and>
     (\<forall>i. 0 \<le> i \<and> i < se_totalChunks sess \<longrightarrow> (seen_bit sess i \<longleftrightarrow> i \<in> ch_Index ` set (fst l))) \<and>
     se_pushedBytes sess = payload_sum (fst l)"

definition relay_ledger :: "relay_event list \<Rightarrow> Relay \<Rightarrow> bool" where
  "relay_ledger es r \<longleftrightarrow> relay_wf r \<and>
     (\<forall>cap sess. fmlookup (re_sessions r) cap = Some sess \<longrightarrow> ledger_session (life cap es) sess)"

lemma acceptChunk_fields [simp]:
  "se_transferID (acceptChunk now c sess) = se_transferID sess"
  "se_recipient (acceptChunk now c sess) = se_recipient sess"
  "se_totalChunks (acceptChunk now c sess) = se_totalChunks sess"
  "se_window (acceptChunk now c sess) = se_window sess @ [c]"
  "se_pushedBytes (acceptChunk now c sess) = se_pushedBytes sess + payloadBytes c"
  "se_credential (acceptChunk now c sess) = se_credential sess"
  by (simp_all add: acceptChunk_def Let_def)

lemma ledger_accept:
  assumes "ledger_session l sess" "session_ok q cap sess" "checkChunk q c = None" "checkSession now c grant sess q = None"
  shows "ledger_session (fst l @ [c], snd l) (acceptChunk now c sess)"
proof -
  note cs = checkSession_None [OF assms(4)] and cc = checkChunk_None [OF assms(3)]
  have range: "in_range sess (ch_Index c)"
    by (rule index_word_in_range [of _ "se_totalChunks sess"]) (use cs cc assms(2) in \<open>auto simp: session_ok_def\<close>)
  from assms(1) have win: "fst l = snd l @ se_window sess" and dist: "distinct (map ch_Index (fst l))"
    and ok: "\<forall>c\<in>set (fst l). 0 \<le> ch_Index c \<and> ch_Index c < se_totalChunks sess \<and>
        ch_TransferID c = se_transferID sess \<and> ch_Recipient c = se_recipient sess"
    and seen: "\<forall>i. 0 \<le> i \<and> i < se_totalChunks sess \<longrightarrow> (seen_bit sess i \<longleftrightarrow> i \<in> ch_Index ` set (fst l))"
    and sum: "se_pushedBytes sess = payload_sum (fst l)"
    unfolding ledger_session_def by blast+
  have fresh: "ch_Index c \<notin> ch_Index ` set (fst l)" using seen cs(3,4) cc(2,3) by simp
  have "fst l @ [c] = snd l @ se_window (acceptChunk now c sess)" using win by simp
  moreover have "distinct (map ch_Index (fst l @ [c]))" using dist fresh by simp
  moreover have "\<forall>i. 0 \<le> i \<and> i < se_totalChunks sess \<longrightarrow>
      (seen_bit (acceptChunk now c sess) i \<longleftrightarrow> i \<in> ch_Index ` set (fst l @ [c]))"
    using seen seen_bit_accept [OF range] by simp
  ultimately show ?thesis
    using ok cs(1-3) cc(2,3) sum unfolding ledger_session_def by simp
qed

lemma ledger_new:
  assumes "openSession now c grant q = Inr sess" "fmlookup (re_sessions q) (ch_Capability c) = None"
  shows "ledger_session ([], []) sess"
proof -
  have new: "se_totalChunks sess = ch_TotalChunks c" "se_window sess = []" "se_pushedBytes sess = 0"
    "se_seen sess = replicate (nat ((ch_TotalChunks c + 63) div 64)) 0"
    using openSession_Inr [OF assms(1)] assms(2) by auto
  with seen_bit_new [OF _ _ new(4)] show ?thesis by (simp add: ledger_session_def)
qed

lemma ledger_sweep: "relay_ledger es r \<Longrightarrow> relay_ledger es (sweepLocked now r)"
  by (auto simp: relay_ledger_def sweep_relay_wf)

text \<open>Events of one transfer leave the life of another alone.\<close>

fun event_cap :: "relay_event \<Rightarrow> string" where
  "event_cap (Opened k) = k"
| "event_cap (Accepted k t cred c) = k"
| "event_cap (Delivered k cs) = k"

lemma life_other: "\<forall>e\<in>set es'. event_cap e \<noteq> cap \<Longrightarrow> fold (life_step cap) es' l = l"
proof (induction es' arbitrary: l)
  case (Cons e es')
  then show ?case by (cases e; cases l) simp_all
qed simp

lemma ledger_put:
  assumes "relay_ledger es q" "relay_wf r'" "re_sessions r' = fmupd cap sess (re_sessions q)"
    and "\<forall>e\<in>set es'. event_cap e = cap" "ledger_session (fold (life_step cap) es' (life cap es)) sess"
  shows "relay_ledger (es @ es') r'"
  unfolding relay_ledger_def
proof (intro conjI allI impI)
  fix k x assume l: "fmlookup (re_sessions r') k = Some x"
  show "ledger_session (life k (es @ es')) x"
  proof (cases "k = cap")
    case True
    with l assms(3,5) show ?thesis by (simp add: life_append)
  next
    case False
    then have "fold (life_step k) es' (life k es) = life k es" using assms(4) by (intro life_other) auto
    with l False assms(1,3) show ?thesis by (auto simp: relay_ledger_def life_append)
  qed
qed (rule assms(2))

lemma ledger_push:
  assumes "relay_ledger es r" "relay_step rng (PushReq now chunk grant) r = (es', r')"
  shows "relay_ledger (es @ es') r'"
proof -
  let ?c = "trimChunk chunk" and ?q = "sweepLocked now r"
  let ?cap = "ch_Capability ?c"
  obtain e where call: "PushWithGrant now chunk grant r = (e, r')"
    using assms(2) by (auto simp: Let_def split: prod.splits)
  have wf: "relay_wf r'" by (rule step_relay_wf [OF _ assms(2)]) (use assms(1) in \<open>simp add: relay_ledger_def\<close>)
  have es': "es' = (if opens now chunk grant r then [Opened ?cap] else []) @ (if e = None then [Accepted ?cap now (charged_to ?cap r') ?c] else [])"
    using assms(2) call by (simp add: Let_def)
  note q = ledger_sweep [OF assms(1), of now]
  have qwf: "relay_wf ?q" using q by (simp add: relay_ledger_def)
  have opened: "ledger_session (fold (life_step ?cap) (if fmlookup (re_sessions ?q) ?cap = None then [Opened ?cap] else [])
      (life ?cap es)) sess" if "openSession now ?c grant ?q = Inr sess" for sess
  proof (cases "fmlookup (re_sessions ?q) ?cap")
    case None
    with ledger_new [OF that None] show ?thesis by (cases "life ?cap es") simp
  next
    case (Some x)
    with openSession_Inr [OF that] q show ?thesis by (auto simp: relay_ledger_def simp del: relay_fields)
  qed
  from call show ?thesis
  proof (cases rule: Push_cases)
    case (invalid x)
    with assms(1) show ?thesis by (simp add: es' opens_def)
  next
    case (slots x)
    with q call show ?thesis by (auto simp add: es' opens_def simp del: relay_fields)
  next
    case (refused sess x)
    have "es' = (if fmlookup (re_sessions ?q) ?cap = None then [Opened ?cap] else [])"
      using refused call by (simp add: es' opens_def)
    with ledger_put [OF q wf, of ?cap sess es'] opened [OF refused(2)] refused(5) show ?thesis by simp
  next
    case (stored sess)
    let ?o = "if fmlookup (re_sessions ?q) ?cap = None then [Opened ?cap] else []"
    have es: "es' = ?o @ [Accepted ?cap now (charged_to ?cap r') ?c]" using stored call by (simp add: es' opens_def)
    have "checkChunk ?q ?c = None" using stored(1) by (simp add: checkChunk_caps [of ?q r])
    from ledger_accept [OF opened [OF stored(2)] opened_ok [OF qwf stored(1,2)] this stored(3)]
    have "ledger_session (fold (life_step ?cap) es' (life ?cap es)) (acceptChunk now ?c sess)"
      unfolding es fold_append comp_def by (cases "fold (life_step ?cap) ?o (life ?cap es)") simp
    moreover have "re_sessions r' = fmupd ?cap (acceptChunk now ?c sess) (re_sessions ?q)"
      unfolding stored(5) by (rule fmap_ext) simp
    moreover have "\<forall>e\<in>set es'. event_cap e = ?cap" unfolding es by simp
    ultimately show ?thesis by (intro ledger_put [OF q wf])
  qed
qed

lemma Drain_cases:
  assumes "Drain now now' rc capability r = (out, r')"
  obtains (blank) "out = []" "r' = r"
  | (nothing) "out = []" "r' = sweepLocked now r"
  | (taken) sess where "fmlookup (re_sessions (sweepLocked now r)) (TrimSpace capability) = Some sess"
      "out = se_window sess"
      "r' = putSession (TrimSpace capability) (sess\<lparr>se_window := [], se_bytes := 0, se_lastActivity := now'\<rparr>) (sweepLocked now r)"
      "se_recipient sess = TrimSpace rc"
proof -
  let ?q = "sweepLocked now r"
  note eq = assms [unfolded Drain_def Let_def]
  show ?thesis
  proof (cases "TrimSpace rc = [] \<or> TrimSpace capability = []")
    case True
    show ?thesis by (rule that(1)) (use eq True in simp_all)
  next
    case args: False
    show ?thesis
    proof (cases "fmlookup (re_sessions ?q) (TrimSpace capability)")
      case None
      show ?thesis by (rule that(2)) (use eq args None in \<open>simp_all del: relay_fields\<close>)
    next
      case (Some sess)
      show ?thesis
      proof (cases "se_recipient sess \<noteq> TrimSpace rc \<or> se_window sess = []")
        case True
        show ?thesis by (rule that(2)) (use eq args Some True in \<open>simp_all del: relay_fields\<close>)
      next
        case False
        show ?thesis by (rule that(3) [OF Some]) (use eq args Some False in \<open>simp_all del: relay_fields\<close>)
      qed
    qed
  qed
qed

lemma ledger_drain:
  assumes "relay_ledger es r" "relay_step rng (DrainReq now now' rc capability) r = (es', r')"
  shows "relay_ledger (es @ es') r'"
proof -
  let ?q = "sweepLocked now r" and ?cap = "TrimSpace capability"
  obtain out where call: "Drain now now' rc capability r = (out, r')" and es': "es' = [Delivered ?cap out]"
    using assms(2) by (auto split: prod.splits)
  have wf: "relay_wf r'" by (rule step_relay_wf [OF _ assms(2)]) (use assms(1) in \<open>simp add: relay_ledger_def\<close>)
  note q = ledger_sweep [OF assms(1), of now]
  have idle: "life k (es @ [Delivered ?cap []]) = life k es" for k
    by (cases "life k es") (simp add: life_append)
  from call show ?thesis
  proof (cases rule: Drain_cases)
    case (taken sess)
    have "ledger_session (life ?cap es) sess" using q taken(1) by (simp add: relay_ledger_def del: relay_fields)
    then have "ledger_session (fold (life_step ?cap) es' (life ?cap es))
        (sess\<lparr>se_window := [], se_bytes := 0, se_lastActivity := now'\<rparr>)"
      unfolding es' taken(2) by (cases "life ?cap es") (auto simp: ledger_session_def seen_bit_def)
    with taken(3) show ?thesis by (intro ledger_put [OF q wf]) (simp_all add: es')
  qed (use assms(1) q idle in \<open>simp_all add: relay_ledger_def es'\<close>)
qed

interpretation relay_books: observed_machine "relay_step rng" "\<lambda>_. True" relay_ledger for rng
proof unfold_locales
  fix es r rq es' r'
  assume inv: "relay_ledger es r" and step: "relay_step rng rq r = (es', r')"
  have wf: "relay_wf r'" by (rule step_relay_wf [OF _ step]) (use inv in \<open>simp add: relay_ledger_def\<close>)
  show "relay_ledger (es @ es') r'"
  proof (cases rq)
    case (CompleteReq now t cap)
    with step inv wf show ?thesis
      by (auto simp: relay_ledger_def Complete_def Let_def split: option.splits if_splits)
  next
    case (AttPruneReq now)
    with step inv wf show ?thesis by (auto simp: relay_ledger_def att_Prune_def Let_def sweepLocked_def)
  qed (use step inv ledger_push ledger_drain in blast)+
qed

end
