(* ===== verification/Attachment_Transit.thy ===== *)
theory Attachment_Transit
  imports Attachment_Inv
begin

text \<open>
  The rolling transit total of a circle: the 24 hourly slots represent a log of charges, and along a
  history with a clock that does not go back the total is the sum of the charges of the last day.
\<close>

section \<open>The rolling transit total\<close>

text \<open>
  A transit window represents a log of charges when each slot holds the charges of the latest hour
  that fell into it.
\<close>

definition slot_of :: "time \<Rightarrow> nat" where
  "slot_of t = nat (unix_hour t mod 24)"

abbreviation log_sum :: "(time \<Rightarrow> bool) \<Rightarrow> (time \<times> int) list \<Rightarrow> int" where
  "log_sum P log \<equiv> sum_list (map (\<lambda>(t, n). if P t then n else 0) log)"

definition transit_rel :: "(time \<times> int) list \<Rightarrow> transitWindow \<Rightarrow> bool" where
  "transit_rel log w \<longleftrightarrow>
     length (tw_bytes w) = 24 \<and> length (tw_hour w) = 24 \<and>
     (\<forall>s<24. tw_bytes w ! s = log_sum (\<lambda>t. slot_of t = s \<and> unix_hour t = tw_hour w ! s) log) \<and>
     (\<forall>(t, n)\<in>set log. 0 \<le> unix_hour t \<and> unix_hour t \<le> tw_hour w ! slot_of t) \<and>
     (\<forall>s<24. tw_hour w ! s = 0 \<or> (\<exists>(t, n)\<in>set log. tw_hour w ! s = unix_hour t \<and> slot_of t = s))"

lemma log_sum_zero: "\<forall>(t, n)\<in>set log. \<not> P t \<Longrightarrow> log_sum P log = 0"
  by (induction log) auto

lemma log_sum_cong: "\<forall>(t, n)\<in>set log. P t = Q t \<Longrightarrow> log_sum P log = log_sum Q log"
  by (induction log) auto

lemma slot_of_less: "slot_of t < 24"
  by (simp add: slot_of_def nat_less_iff)

lemma transit_rel_zero: "transit_rel [] zero_transitWindow"
  by (simp add: transit_rel_def zero_transitWindow_def)

lemma transit_rel_hours:
  assumes "transit_rel log w" "\<forall>(t, n)\<in>set log. unix_hour t \<le> h" "0 \<le> h" "s < 24"
  shows "tw_hour w ! s \<le> h"
  using assms unfolding transit_rel_def by fastforce

lemma transit_add_fields:
  assumes "transit_rel log w" "\<forall>(t, n)\<in>set log. unix_hour t \<le> unix_hour now" "0 \<le> unix_hour now"
  shows "tw_hour (transit_add now n w) = (tw_hour w)[slot_of now := unix_hour now]"
    "tw_bytes (transit_add now n w) = (tw_bytes w)
       [slot_of now := log_sum (\<lambda>t. slot_of t = slot_of now \<and> unix_hour t = unix_hour now) log + n]"
proof -
  let ?s = "slot_of now" and ?h = "unix_hour now"
  have le: "tw_hour w ! ?s \<le> ?h" by (rule transit_rel_hours [OF assms slot_of_less])
  have len: "length (tw_bytes w) = 24" "length (tw_hour w) = 24" using assms(1) by (simp_all add: transit_rel_def)
  show "tw_hour (transit_add now n w) = (tw_hour w)[?s := ?h]"
    unfolding transit_add_def Let_def slot_of_def [symmetric]
    by (cases "tw_hour w ! ?s = ?h") (simp_all, metis list_update_id)
  have stale: "log_sum (\<lambda>t. slot_of t = ?s \<and> unix_hour t = ?h) log = 0" if "tw_hour w ! ?s \<noteq> ?h"
  proof -
    have "\<forall>(t, n)\<in>set log. \<not> (slot_of t = ?s \<and> unix_hour t = ?h)"
      using assms(1) le that unfolding transit_rel_def by fastforce
    then show ?thesis by (rule log_sum_zero)
  qed
  show "tw_bytes (transit_add now n w) =
      (tw_bytes w)[?s := log_sum (\<lambda>t. slot_of t = ?s \<and> unix_hour t = ?h) log + n]"
  proof (cases "tw_hour w ! ?s = ?h")
    case True
    then show ?thesis using assms(1) slot_of_less [of now]
      by (simp add: transit_add_def Let_def slot_of_def [symmetric] transit_rel_def)
  next
    case False
    then show ?thesis using stale len slot_of_less [of now]
      by (simp add: transit_add_def Let_def slot_of_def [symmetric])
  qed
qed

lemma transit_rel_add:
  assumes "transit_rel log w" "\<forall>(t, n)\<in>set log. unix_hour t \<le> unix_hour now" "0 \<le> unix_hour now"
  shows "transit_rel (log @ [(now, n)]) (transit_add now n w)"
proof -
  let ?s = "slot_of now" and ?h = "unix_hour now"
  have len: "length (tw_bytes w) = 24" "length (tw_hour w) = 24" using assms(1) by (simp_all add: transit_rel_def)
  have other: "0 \<le> unix_hour t \<and> unix_hour t \<le> (tw_hour w)[?s := ?h] ! slot_of t" if "(t, k) \<in> set log" for t k
  proof -
    have "0 \<le> unix_hour t" "unix_hour t \<le> tw_hour w ! slot_of t" "unix_hour t \<le> ?h"
      using assms(1,2) that unfolding transit_rel_def by auto
    then show ?thesis using len slot_of_less [of now] by (cases "slot_of t = ?s") simp_all
  qed
  have known: "(tw_hour w)[?s := ?h] ! s = 0 \<or>
      (\<exists>(t, k)\<in>set (log @ [(now, n)]). (tw_hour w)[?s := ?h] ! s = unix_hour t \<and> slot_of t = s)" if "s < 24" for s
  proof (cases "s = ?s")
    case True
    then show ?thesis using len slot_of_less [of now] by simp
  next
    case False
    moreover have "tw_hour w ! s = 0 \<or> (\<exists>(t, k)\<in>set log. tw_hour w ! s = unix_hour t \<and> slot_of t = s)"
      using assms(1) that unfolding transit_rel_def by blast
    ultimately show ?thesis by auto
  qed
  have slot: "(tw_bytes w)[?s := log_sum (\<lambda>t. slot_of t = ?s \<and> unix_hour t = ?h) log + n] ! s =
      log_sum (\<lambda>t. slot_of t = s \<and> unix_hour t = (tw_hour w)[?s := ?h] ! s) (log @ [(now, n)])" if "s < 24" for s
  proof (cases "s = ?s")
    case True
    then show ?thesis using len slot_of_less [of now] by simp
  next
    case False
    then show ?thesis using assms(1) that unfolding transit_rel_def by simp
  qed
  show ?thesis
    unfolding transit_rel_def transit_add_fields [OF assms]
  proof (intro conjI allI impI ballI)
    fix x assume "x \<in> set (log @ [(now, n)])"
    with other assms(3) len slot_of_less [of now]
    show "case x of (t, k) \<Rightarrow> 0 \<le> unix_hour t \<and> unix_hour t \<le> (tw_hour w)[?s := ?h] ! slot_of t" by auto
  qed (use len slot known in simp_all)
qed

lemma fold_sum_if:
  "fold (\<lambda>s sum. if P s then sum + f s else sum) ks (a :: int) = a + sum_list (map (\<lambda>s. if P s then f s else 0) ks)"
  by (induction ks arbitrary: a) simp_all

lemma sum_log_swap:
  "(\<Sum>s\<in>A. sum_list (map (f s) log)) = sum_list (map (\<lambda>e. \<Sum>s\<in>A. f s e) log :: int list)"
  by (induction log) (simp_all add: sum.distrib)

text \<open>An hour of the last day is the hour of its slot: no two of them share a slot.\<close>

lemma slot_hour_unique:
  assumes "transit_rel log w" "\<forall>(t, n)\<in>set log. unix_hour t \<le> h" "0 \<le> h" "slot_of t < 24"
    and "0 \<le> unix_hour t" "unix_hour t \<le> tw_hour w ! slot_of t" "h - 23 \<le> unix_hour t"
  shows "unix_hour t = tw_hour w ! slot_of t"
proof -
  let ?h' = "tw_hour w ! slot_of t"
  have le: "?h' \<le> h" by (rule transit_rel_hours [OF assms(1-4)])
  have "?h' = 0 \<or> (\<exists>t'. ?h' = unix_hour t' \<and> slot_of t' = slot_of t)"
    using assms(1,4) unfolding transit_rel_def by fastforce
  then show ?thesis
  proof
    assume "?h' = 0"
    with assms(5,6) show ?thesis by simp
  next
    assume "\<exists>t'. ?h' = unix_hour t' \<and> slot_of t' = slot_of t"
    then obtain t' where t': "?h' = unix_hour t'" "nat (unix_hour t' mod 24) = nat (unix_hour t mod 24)"
      by (auto simp: slot_of_def)
    then have "?h' mod 24 = unix_hour t mod 24" by (simp add: eq_nat_nat_iff)
    moreover have "0 \<le> ?h' - unix_hour t" "?h' - unix_hour t < 24" using le assms(6,7) by simp_all
    ultimately show ?thesis
      by (metis diff_eq_eq add_0 mod_eq_dvd_iff zdvd_not_zless linorder_not_le order_antisym)
  qed
qed

text \<open>The total is the sum of the charges of the last 24 hours.\<close>

lemma transit_total_log:
  assumes rel: "transit_rel log w" and le: "\<forall>(t, n)\<in>set log. unix_hour t \<le> unix_hour now" "0 \<le> unix_hour now"
  shows "transit_total now w = log_sum (\<lambda>t. unix_hour now - 23 \<le> unix_hour t) log"
proof -
  let ?o = "unix_hour now - 23"
  let ?f = "\<lambda>s (t, n). if ?o \<le> tw_hour w ! s \<and> slot_of t = s \<and> unix_hour t = tw_hour w ! s then n else (0 :: int)"
  have "transit_total now w = (\<Sum>s\<in>{0..<24}. if ?o \<le> tw_hour w ! s then tw_bytes w ! s else 0)"
    by (simp add: transit_total_def Let_def fold_sum_if interv_sum_list_conv_sum_set_nat del: upt_rec_numeral)
  also have "\<dots> = (\<Sum>s\<in>{0..<24}. sum_list (map (?f s) log))"
  proof (rule sum.cong)
    fix s :: nat assume "s \<in> {0..<24}"
    then have "tw_bytes w ! s = log_sum (\<lambda>t. slot_of t = s \<and> unix_hour t = tw_hour w ! s) log"
      using rel by (simp add: transit_rel_def)
    then show "(if ?o \<le> tw_hour w ! s then tw_bytes w ! s else 0) = sum_list (map (?f s) log)"
      using log_sum_zero [of log "\<lambda>t. False"] by simp
  qed simp
  also have "\<dots> = sum_list (map (\<lambda>e. \<Sum>s\<in>{0..<24}. ?f s e) log)" by (rule sum_log_swap)
  also have "\<dots> = log_sum (\<lambda>t. ?o \<le> unix_hour t) log"
  proof (intro arg_cong [where f = sum_list] map_cong refl)
    fix e assume "e \<in> set log"
    obtain t n where e: "e = (t, n)" by (cases e)
    let ?s = "slot_of t"
    have t: "0 \<le> unix_hour t" "unix_hour t \<le> tw_hour w ! ?s" using \<open>e \<in> set log\<close> rel unfolding e transit_rel_def by auto
    have "(\<Sum>s\<in>{0..<24}. ?f s e) = (\<Sum>s\<in>{0..<24}. if s = ?s then ?f ?s e else 0)"
      by (rule sum.cong) (auto simp: e)
    also have "\<dots> = ?f ?s e" using slot_of_less [of t] by (subst sum.delta) simp_all
    also have "\<dots> = (if ?o \<le> unix_hour t then n else 0)"
    proof (cases "?o \<le> unix_hour t")
      case True
      from slot_hour_unique [OF rel le slot_of_less t this] True show ?thesis
        unfolding e prod.case by simp
    next
      case False
      then show ?thesis unfolding e prod.case by auto
    qed
    finally show "(\<Sum>s\<in>{0..<24}. ?f s e) = (case e of (t, n) \<Rightarrow> if ?o \<le> unix_hour t then n else 0)"
      unfolding e prod.case .
  qed
  finally show ?thesis .
qed

section \<open>The charges of a history\<close>

fun charges :: "uint32 \<Rightarrow> relay_event list \<Rightarrow> (time \<times> int) list" where
  "charges cred [] = []"
| "charges cred (Accepted k t cr c # es) = (if cr = cred then [(t, payloadBytes c)] else []) @ charges cred es"
| "charges cred (Opened k # es) = charges cred es"
| "charges cred (Delivered k cs # es) = charges cred es"

lemma charges_append [simp]: "charges cred (es @ es') = charges cred es @ charges cred es'"
  by (induction es rule: charges.induct) simp_all

text \<open>
  A circle's window represents its charges except those that are out of the last day: a window is
  deleted when nothing of it is left.
\<close>

definition represents :: "time \<Rightarrow> (time \<times> int) list \<Rightarrow> transitWindow option \<Rightarrow> bool" where
  "represents T log w \<longleftrightarrow> (\<exists>old new. log = old @ new \<and> (\<forall>(t, n)\<in>set old. unix_hour t < unix_hour T - 23) \<and>
     (case w of None \<Rightarrow> new = [] | Some w \<Rightarrow> transit_rel new w))"

definition transit_books :: "relay_event list \<Rightarrow> time \<Rightarrow> Relay \<Rightarrow> bool" where
  "transit_books es T r \<longleftrightarrow> 0 \<le> unix_hour T \<and>
     (\<forall>cred. (\<forall>(t, n)\<in>set (charges cred es). unix_hour t \<le> unix_hour T \<and> 0 < n) \<and>
        (cred \<noteq> 0 \<longrightarrow> represents T (charges cred es) (fmlookup (re_transit r) cred)))"

lemma unix_hour_mono: "t \<le> u \<Longrightarrow> unix_hour t \<le> unix_hour u"
  by (simp add: unix_hour_def time_Unix_mono zdiv_mono1)

lemma represents_later: "represents T log w \<Longrightarrow> T \<le> T' \<Longrightarrow> represents T' log w"
  using unix_hour_mono [of T T'] unfolding represents_def by fastforce

lemma books_later:
  assumes "transit_books es T r" "T \<le> T'"
  shows "transit_books es T' r"
  using assms represents_later [OF _ assms(2)] unix_hour_mono [OF assms(2)]
  unfolding transit_books_def by fastforce

lemma represents_add:
  assumes "represents T log w" "\<forall>(t, n)\<in>set log. unix_hour t \<le> unix_hour T" "0 \<le> unix_hour T"
  shows "represents T (log @ [(T, n)])
    (Some (transit_add T n (case w of None \<Rightarrow> zero_transitWindow | Some w \<Rightarrow> w)))"
proof -
  obtain old new where log: "log = old @ new" "\<forall>(t, n)\<in>set old. unix_hour t < unix_hour T - 23"
    and new: "case w of None \<Rightarrow> new = [] | Some w \<Rightarrow> transit_rel new w"
    using assms(1) by (auto simp: represents_def)
  have "transit_rel new (case w of None \<Rightarrow> zero_transitWindow | Some w \<Rightarrow> w)"
    using new transit_rel_zero by (cases w) simp_all
  from transit_rel_add [OF this, of T n] assms(2,3) log show ?thesis
    unfolding represents_def by (intro exI [of _ old] exI [of _ "new @ [(T, n)]"]) auto
qed

lemma log_sum_pos:
  assumes "\<forall>(t, n)\<in>set log. 0 < (n :: int)"
  shows "0 \<le> log_sum P log" "log_sum P log = 0 \<Longrightarrow> \<forall>(t, n)\<in>set log. \<not> P t"
proof -
  have "0 \<le> log_sum P log \<and> (log_sum P log = 0 \<longrightarrow> (\<forall>(t, n)\<in>set log. \<not> P t))"
    using assms by (induction log) (auto split: if_splits)
  then show "0 \<le> log_sum P log" "log_sum P log = 0 \<Longrightarrow> \<forall>(t, n)\<in>set log. \<not> P t" by blast+
qed

lemma represents_total:
  assumes "represents T log w" "\<forall>(t, n)\<in>set log. unix_hour t \<le> unix_hour T" "0 \<le> unix_hour T"
  shows "(case w of None \<Rightarrow> 0 | Some w \<Rightarrow> transit_total T w) = log_sum (\<lambda>t. unix_hour T - 23 \<le> unix_hour t) log"
proof -
  obtain old new where log: "log = old @ new" "\<forall>(t, n)\<in>set old. unix_hour t < unix_hour T - 23"
    and new: "case w of None \<Rightarrow> new = [] | Some w \<Rightarrow> transit_rel new w"
    using assms(1) by (auto simp: represents_def)
  have "log_sum (\<lambda>t. unix_hour T - 23 \<le> unix_hour t) old = 0"
    by (rule log_sum_zero) (use log(2) in auto)
  moreover have "(case w of None \<Rightarrow> 0 | Some w \<Rightarrow> transit_total T w) = log_sum (\<lambda>t. unix_hour T - 23 \<le> unix_hour t) new"
  proof (cases w)
    case (Some v)
    with new have "transit_rel new v" by simp
    from transit_total_log [OF this, of T] assms(2,3) log(1) Some show ?thesis by auto
  qed (use new in simp)
  ultimately show ?thesis by (simp add: log(1))
qed

lemma represents_dropped:
  assumes "represents T log (Some w)" "\<forall>(t, n)\<in>set log. unix_hour t \<le> unix_hour T \<and> 0 < n" "0 \<le> unix_hour T"
    and "transit_total T w = 0"
  shows "represents T log None"
proof -
  have "log_sum (\<lambda>t. unix_hour T - 23 \<le> unix_hour t) log = 0"
    using represents_total [OF assms(1)] assms(2-4) by fastforce
  moreover have "\<forall>(t, n)\<in>set log. 0 < n" using assms(2) by auto
  ultimately have "\<forall>(t, n)\<in>set log. \<not> unix_hour T - 23 \<le> unix_hour t" by (intro log_sum_pos(2))
  then show ?thesis unfolding represents_def by (intro exI [of _ log] exI [of _ "[]"]) (auto simp: not_le)
qed

section \<open>Along a history\<close>

lemma books_push:
  assumes "transit_books es now r" "relay_step rng (PushReq now chunk grant) r = (es', r')"
  shows "transit_books (es @ es') now r'"
proof -
  let ?c = "trimChunk chunk"
  obtain e where call: "PushWithGrant now chunk grant r = (e, r')"
    using assms(2) by (auto simp: Let_def split: prod.splits)
  have es': "charges cred es' = (if e = None \<and> charged_to (ch_Capability ?c) r' = cred then [(now, payloadBytes ?c)] else [])" for cred
    using assms(2) call by (auto simp: Let_def)
  from call show ?thesis
  proof (cases rule: Push_cases)
    case (stored sess)
    have pos: "0 < payloadBytes ?c" using stored(1) by (auto simp: checkChunk_def payloadBytes_def split: if_splits)
    have cred: "charged_to (ch_Capability ?c) r' = se_credential sess"
      by (simp add: stored(5) charged_to_def acceptChunk_def Let_def)
    have "represents now (charges cred (es @ es')) (fmlookup (re_transit r') cred)" if "cred \<noteq> 0" for cred
    proof (cases "cred = se_credential sess")
      case True
      have "\<forall>(t, n)\<in>set (charges cred es). unix_hour t \<le> unix_hour now" "0 \<le> unix_hour now"
        "represents now (charges cred es) (fmlookup (re_transit r) cred)"
        using assms(1) that unfolding transit_books_def by auto
      moreover have "fmlookup (re_transit r') cred = Some (transit_add now (payloadBytes ?c)
          (case fmlookup (re_transit r) cred of None \<Rightarrow> zero_transitWindow | Some w \<Rightarrow> w))"
        using True that by (simp add: stored(5) chargeTransit_def Let_def)
      moreover have "charges cred es' = [(now, payloadBytes ?c)]" using True by (simp add: es' cred stored(4))
      ultimately show ?thesis using represents_add by simp
    next
      case False
      then have "fmlookup (re_transit r') cred = fmlookup (re_transit r) cred"
        by (simp add: stored(5) chargeTransit_def Let_def)
      with False assms(1) that show ?thesis by (simp add: transit_books_def es' cred stored(4))
    qed
    with assms(1) pos show ?thesis by (auto simp: transit_books_def es')
  qed (use assms(1) in \<open>simp_all add: transit_books_def es'\<close>)
qed

interpretation transit_run: clocked_machine "relay_step rng" relay_time transit_books for rng
proof unfold_locales
  fix es T r rq es' r'
  assume inv: "transit_books es T r" and later: "T \<le> relay_time rq" and step: "relay_step rng rq r = (es', r')"
  note now = books_later [OF inv later]
  show "transit_books (es @ es') (relay_time rq) r'"
  proof (cases rq)
    case (PushReq now chunk grant)
    with now step books_push show ?thesis by simp
  next
    case (DrainReq t t' rc cap)
    with step have "re_transit r' = re_transit r" "charges cred es' = []" for cred
      by (auto simp: Drain_def Let_def split: prod.splits option.splits if_splits)
    with now show ?thesis by (simp add: transit_books_def)
  next
    case (CompleteReq t tr cap)
    with step have "re_transit r' = re_transit r" "es' = []"
      by (auto simp: Complete_def Let_def split: option.splits if_splits)
    with now show ?thesis by (simp add: transit_books_def)
  next
    case (AttPruneReq t)
    then have r': "re_transit r' = live_part (\<lambda>w. transit_total t w = 0) (re_transit r)" "es' = []"
      using step by (auto simp: att_Prune_def Let_def)
    have "represents t (charges cred es) (fmlookup (re_transit r') cred)" if "cred \<noteq> 0" for cred
      using now AttPruneReq that represents_dropped [of t "charges cred es"]
      by (auto simp: transit_books_def r' lookup_live_part split: option.split)
    with now AttPruneReq r'(2) show ?thesis by (simp add: transit_books_def)
  qed
qed

end
