(* ===== verification/Attachment_Props.thy ===== *)
theory Attachment_Props
  imports Attachment_Ledger Attachment_Transit
begin

text \<open>The properties of the attachment relay.\<close>

section \<open>Concrete inputs\<close>

definition re_ex_chunk :: "int \<Rightarrow> string \<Rightarrow> Chunk" where
  "re_ex_chunk i payload = \<lparr>ch_ID = ''id'', ch_TransferID = ''t'', ch_Capability = ''cap'', ch_Recipient = ''bob'',
     ch_Index = i, ch_TotalChunks = 70, ch_EncryptedPayload = payload, ch_SizeBytes = 1, ch_CreatedAt = 0, ch_ExpiresAt = 0\<rparr>"

definition re_ex_grant :: AttGrant where
  "re_ex_grant = \<lparr>ag_Credential = 7, ag_AttachmentBytes = 0, ag_ConcurrentTransfers = 1, ag_TransitBytesPerDay = 5\<rparr>"

definition re_ex_now :: time where
  "re_ex_now = (unix_epoch_seconds + 3600) * Second"

definition re_ex_history :: "relay_request list" where
  "re_ex_history = [PushReq re_ex_now (re_ex_chunk 66 ''abc'') re_ex_grant, PushReq re_ex_now (re_ex_chunk 66 ''abc'') re_ex_grant,
     DrainReq re_ex_now re_ex_now ''bob'' ''cap'', PushReq re_ex_now (re_ex_chunk 66 ''abc'') re_ex_grant,
     PushReq re_ex_now (re_ex_chunk 1 ''x'') re_ex_grant]"

definition re_ex_rng :: "string fset \<Rightarrow> string list" where
  "re_ex_rng = sorted_list_of_fset"

definition re_ex_start :: Relay where
  "re_ex_start = NewRelay 2 10 15 2 Minute"

definition re_ex_run :: "relay_event list \<times> Relay" where
  "re_ex_run = trace (relay_step re_ex_rng) re_ex_history re_ex_start"

lemma relay_New_caps [simp]:
  "re_sessions (NewRelay a b c d e) = fmempty" "re_transit (NewRelay a b c d e) = fmempty"
  "0 < re_maxWindow (NewRelay a b c d e)" "0 < re_maxChunkBytes (NewRelay a b c d e)"
  "0 < re_maxAttachmentBytes (NewRelay a b c d e)" "0 < re_maxSessions (NewRelay a b c d e)"
  by (simp_all add: NewRelay_def)

lemma relay_ledger_New: "relay_ledger [] (NewRelay a b c d e)"
  by (simp add: relay_ledger_def relay_wf_def less_imp_le)

lemma relay_ledger_reached:
  assumes "trace (relay_step rng) rs (NewRelay a b c d e) = (es, r)"
  shows "relay_ledger es r"
  using relay_books.trace_inv [OF relay_ledger_New _ assms] by (simp add: list_all_iff)

section \<open>Memory\<close>

lemma att_stats_sum:
  "fold (\<lambda>k stats. case fmlookup m k of None \<Rightarrow> stats
      | Some sess \<Rightarrow> stats\<lparr>as_Chunks := as_Chunks stats + int (length (se_window sess)), as_Bytes := as_Bytes stats + se_bytes sess\<rparr>) ks st =
   st\<lparr>as_Chunks := as_Chunks st + sum_list (map (\<lambda>sess. int (length (se_window sess))) (picked m (\<lambda>_. True) ks)),
      as_Bytes := as_Bytes st + sum_list (map se_bytes (picked m (\<lambda>_. True) ks))\<rparr>"
  by (induction ks arbitrary: st) (simp_all add: picked_Cons split: option.split)

lemma sum_list_capped: "\<forall>x\<in>set xs. f x \<le> (b :: int) \<Longrightarrow> sum_list (map f xs) \<le> int (length xs) * b"
  by (induction xs) (auto simp: algebra_simps)

lemma picked_sum_capped:
  assumes "range_order rng" "\<forall>k v. fmlookup m k = Some v \<longrightarrow> f v \<le> b" "0 \<le> b" "go_len m \<le> n"
  shows "sum_list (map f (picked m (\<lambda>_. True) (rng (fmdom m)))) \<le> n * b"
proof -
  let ?xs = "picked m (\<lambda>_. True) (rng (fmdom m))"
  have "sum_list (map f ?xs) \<le> int (length ?xs) * b"
    by (rule sum_list_capped) (use assms(2) in \<open>auto simp: set_picked\<close>)
  also have "int (length ?xs) \<le> n"
    using length_picked_le [of m "\<lambda>_. True" "rng (fmdom m)"] range_order.length_rng_dom [OF assms(1), of m] assms(4) by simp
  then have "int (length ?xs) * b \<le> n * b" using assms(3) by (rule mult_right_mono)
  finally show ?thesis .
qed

text \<open>
  C33. Whatever the requests, the relay never holds more than its caps: at most the session cap of
  transfers, the window cap of chunks for each, and with them at most sessions times window times
  chunk size of payload bytes, measured on the bytes and not on a declared size; a session's replay
  bitmap has at most 128 words, and no transfer has pushed more than the attachment ceiling.
\<close>

theorem relay_memory_bounded:
  assumes "range_order rng" "r = snd (trace (relay_step rng) rs (NewRelay w cb ab n idle))"
    and "att_Stats rng now r = (st, r')"
  shows "as_Sessions st \<le> re_maxSessions r \<and> as_Chunks st \<le> re_maxSessions r * re_maxWindow r \<and>
    as_Bytes st \<le> re_maxSessions r * (re_maxWindow r * re_maxChunkBytes r) \<and>
    (\<forall>cap sess. fmlookup (re_sessions r) cap = Some sess \<longrightarrow>
       length (se_seen sess) \<le> 128 \<and> se_pushedBytes sess \<le> re_maxAttachmentBytes r)"
proof -
  have wf: "relay_wf r" unfolding assms(2)
    using relay_ledger_reached [OF prod.collapse [symmetric]] by (simp add: relay_ledger_def)
  let ?q = "sweepLocked now r"
  have q: "relay_wf ?q" by (rule sweep_relay_wf [OF wf])
  let ?m = "re_sessions ?q" and ?xs = "picked (re_sessions ?q) (\<lambda>_. True) (rng (fmdom (re_sessions ?q)))"
  have st: "st = \<lparr>as_Sessions = go_len ?m, as_Chunks = sum_list (map (\<lambda>sess. int (length (se_window sess))) ?xs),
      as_Bytes = sum_list (map se_bytes ?xs)\<rparr>"
    using assms(3) by (auto simp: att_Stats_def att_Prune_def Let_def att_statsLocked_def att_stats_sum)
  have ok: "fmlookup ?m k = Some sess \<Longrightarrow> session_ok r k sess" for k sess
    using relay_wfD(6) [OF q] session_ok_caps [of ?q r] by simp
  have len: "go_len ?m \<le> re_maxSessions r" using relay_wfD(5) [OF q] by simp
  have "as_Chunks st \<le> re_maxSessions r * re_maxWindow r" unfolding st AttStats.select_convs
    by (rule picked_sum_capped [OF assms(1) _ _ len]) (use ok relay_wfD(1) [OF wf] in \<open>auto simp: session_ok_def\<close>)
  moreover have "se_bytes sess \<le> re_maxWindow r * re_maxChunkBytes r" if "session_ok r k sess" for k sess
  proof -
    have "se_bytes sess \<le> int (length (se_window sess)) * re_maxChunkBytes r"
      using that sum_list_capped [of "se_window sess" payloadBytes] by (simp add: session_ok_def)
    also have "\<dots> \<le> re_maxWindow r * re_maxChunkBytes r"
      using that relay_wfD(2) [OF wf] by (intro mult_right_mono) (auto simp: session_ok_def)
    finally show ?thesis .
  qed
  then have "as_Bytes st \<le> re_maxSessions r * (re_maxWindow r * re_maxChunkBytes r)" unfolding st AttStats.select_convs
    by (intro picked_sum_capped [OF assms(1) _ _ len]) (use ok relay_wfD(1,2) [OF wf] in \<open>auto intro: mult_nonneg_nonneg\<close>)
  moreover have "length (se_seen sess) \<le> 128" if "session_ok r k sess" for k sess
    using that by (auto simp: session_ok_def maxChunksPerTransfer_def)
  ultimately show ?thesis using len relay_wfD(6) [OF wf] by (simp add: st) (auto simp: session_ok_def)
qed

lemma re_ex_range: "range_order re_ex_rng"
  unfolding re_ex_rng_def by (rule sorted_range.range_order_axioms)

theorem relay_memory_bounded_witness:
  "as_Bytes (fst (att_Stats re_ex_rng re_ex_now (snd re_ex_run))) \<le> 2 * (2 * 10)"
proof -
  have "re_maxSessions (snd re_ex_run) = 2" "re_maxWindow (snd re_ex_run) = 2" "re_maxChunkBytes (snd re_ex_run) = 10"
    by code_simp+
  with relay_memory_bounded [OF re_ex_range _ prod.collapse [symmetric], of "snd re_ex_run" re_ex_history 2 10 15 2 Minute re_ex_now]
  show ?thesis by (simp add: re_ex_run_def re_ex_start_def)
qed

section \<open>Exactly once\<close>

text \<open>
  C7. While a transfer's session lives, the chunks handed to the recipient followed by the chunks in
  the window are exactly the chunks accepted since the session was opened, in the order they were
  accepted: nothing is lost, reordered or delivered twice. No index is accepted twice, the bitmap is
  exactly the set of accepted indices, and together the payloads stay within the ceiling.
\<close>

theorem transfer_exactly_once:
  assumes "trace (relay_step rng) rs (NewRelay w cb ab n idle) = (es, r)"
    and "fmlookup (re_sessions r) cap = Some sess" "life cap es = (accepted, delivered)"
  shows "accepted = delivered @ se_window sess \<and> distinct (map ch_Index accepted) \<and>
    (\<forall>i. 0 \<le> i \<and> i < se_totalChunks sess \<longrightarrow> (seen_bit sess i \<longleftrightarrow> i \<in> ch_Index ` set accepted)) \<and>
    payload_sum accepted \<le> re_maxAttachmentBytes r"
proof -
  from relay_ledger_reached [OF assms(1)] assms(2)
  have "ledger_session (life cap es) sess" "session_ok r cap sess"
    by (simp_all add: relay_ledger_def relay_wf_def)
  then show ?thesis unfolding assms(3) ledger_session_def session_ok_def fst_conv snd_conv by metis
qed

theorem transfer_exactly_once_witness:
  "map ch_Index (fst (life ''cap'' (fst re_ex_run))) = [66, 1] \<and>
   distinct (map ch_Index (fst (life ''cap'' (fst re_ex_run))))"
proof -
  have run: "trace (relay_step re_ex_rng) re_ex_history (NewRelay 2 10 15 2 Minute) = (fst re_ex_run, snd re_ex_run)"
    by (simp add: re_ex_run_def re_ex_start_def)
  have "\<not> Option.is_none (fmlookup (re_sessions (snd re_ex_run)) ''cap'')" by code_simp
  then have "fmlookup (re_sessions (snd re_ex_run)) ''cap'' = Some (the (fmlookup (re_sessions (snd re_ex_run)) ''cap''))"
    by (cases "fmlookup (re_sessions (snd re_ex_run)) ''cap''") simp_all
  from transfer_exactly_once [OF run this prod.collapse [symmetric]]
  have "distinct (map ch_Index (fst (life ''cap'' (fst re_ex_run))))" by blast
  moreover have "map ch_Index (fst (life ''cap'' (fst re_ex_run))) = [66, 1]" by code_simp
  ultimately show ?thesis by blast
qed

section \<open>Refusals\<close>

text \<open>
  A refused push charges nothing and stores no chunk: besides idle sessions being swept, the only
  trace it can leave is an empty session under its own capability, and that only when the transfer
  was new and its first chunk was over the transit or the size ceiling. An accepted push appends
  exactly its trimmed chunk to the window of its session and leaves every other session alone.
\<close>

theorem push_frame:
  assumes "relay_wf r" "PushWithGrant now chunk grant r = (e, r')"
    and "cap = ch_Capability (trimChunk chunk)" "m = live_part (session_idle now (re_idleTimeout r)) (re_sessions r)"
  shows "(\<forall>x. e = Some x \<longrightarrow> re_transit r' = re_transit r \<and>
      (re_sessions r' = re_sessions r \<or> re_sessions r' = m \<or>
       fmlookup m cap = None \<and> x \<in> {AttErrTransitExhausted, AttErrTooLarge} \<and>
       (\<exists>sess. re_sessions r' = fmupd cap sess m \<and> se_window sess = [] \<and> se_pushedBytes sess = 0))) \<and>
    (e = None \<longrightarrow> (\<exists>sess. re_sessions r' = fmupd cap sess m \<and>
       se_window sess = (case fmlookup m cap of None \<Rightarrow> [] | Some old \<Rightarrow> se_window old) @ [trimChunk chunk]))"
proof -
  let ?c = "trimChunk chunk" and ?q = "sweepLocked now r"
  have q: "re_sessions ?q = m" by (simp add: assms(4))
  from assms(2) show ?thesis
  proof (cases rule: Push_cases)
    case (refused sess x)
    show ?thesis
    proof (cases "fmlookup m cap")
      case None
      with openSession_Inr [OF refused(2), unfolded q, folded assms(3)] have new: "se_window sess = []" "se_pushedBytes sess = 0"
        "se_transferID sess = ch_TransferID ?c" "se_recipient sess = ch_Recipient ?c"
        "se_totalChunks sess = ch_TotalChunks ?c" "se_seen sess = replicate (nat ((ch_TotalChunks ?c + 63) div 64)) 0"
        by auto
      have "\<not> seen_bit sess (ch_Index ?c)"
        using seen_bit_new [OF _ _ new(6)] checkChunk_None [OF refused(1)] by blast
      with refused(3) new relay_wfD(1) [OF assms(1)] have "x \<in> {AttErrTransitExhausted, AttErrTooLarge}"
        by (auto simp: checkSession_def split: if_splits)
      with refused(4,5) new None q show ?thesis by (simp add: assms(3) [symmetric] del: relay_fields(1)) auto
    next
      case (Some old)
      with openSession_Inr [OF refused(2), unfolded q, folded assms(3)] have "fmupd cap sess m = m"
        by (auto intro!: fmap_ext)
      with refused(4,5) q show ?thesis by (simp add: assms(3) [symmetric] del: relay_fields(1))
    qed
  next
    case (stored sess)
    have "re_sessions r' = fmupd cap (acceptChunk now ?c sess) m"
      by (rule fmap_ext) (simp add: stored(5) assms(3,4))
    moreover have "se_window sess = (case fmlookup m cap of None \<Rightarrow> [] | Some old \<Rightarrow> se_window old)"
      using openSession_Inr [OF stored(2), unfolded q, folded assms(3)] by auto
    ultimately show ?thesis using stored(4) by auto
  qed (simp_all add: assms(4))
qed

theorem push_frame_witness:
  "(\<exists>sess. re_sessions (snd (PushWithGrant re_ex_now (re_ex_chunk 3 ''0123456789'') zero_AttGrant re_ex_start)) =
       fmupd ''cap'' sess fmempty \<and> se_window sess = [re_ex_chunk 3 ''0123456789''])"
proof -
  let ?p = "PushWithGrant re_ex_now (re_ex_chunk 3 ''0123456789'') zero_AttGrant re_ex_start"
  have wf: "relay_wf re_ex_start"
    using relay_ledger_New [of 2 10 15 2 Minute] by (simp add: re_ex_start_def relay_ledger_def)
  have e: "Option.is_none (fst ?p)" by code_simp
  have c: "trimChunk (re_ex_chunk 3 ''0123456789'') = re_ex_chunk 3 ''0123456789''" by code_simp
  have cap: "ch_Capability (re_ex_chunk 3 ''0123456789'') = ''cap''" by code_simp
  have "re_sessions re_ex_start = fmempty" by (simp add: re_ex_start_def)
  with push_frame [OF wf prod.collapse [symmetric] refl refl, of re_ex_now "re_ex_chunk 3 ''0123456789''" zero_AttGrant] e
  show ?thesis by (simp add: c cap Option.is_none_def)
qed

section \<open>Transit\<close>

lemma transit_books_New: "0 \<le> unix_hour T \<Longrightarrow> transit_books [] T (NewRelay a b c d e)"
  by (simp add: transit_books_def represents_def)

lemma transit_books_reached:
  assumes "0 \<le> unix_hour T" "sorted (T # map relay_time rs)" "trace (relay_step rng) rs (NewRelay a b c d e) = (es, r)"
  shows "transit_books es (last (T # map relay_time rs)) r"
  using transit_run.trace_clocked [OF transit_books_New [OF assms(1)] assms(2,3)] by simp

lemma transit_rolls:
  assumes "0 \<le> unix_hour T" "sorted (T # map relay_time rs @ [now])" "cred \<noteq> 0"
    and "trace (relay_step rng) rs (NewRelay w cb ab n idle) = (es, r)"
  shows "TransitToday now cred r = log_sum (\<lambda>t. unix_hour now - 23 \<le> unix_hour t) (charges cred es)"
proof -
  have s: "sorted (T # map relay_time rs)" using assms(2) by (simp add: sorted_append)
  have "last (T # map relay_time rs) \<le> now"
    using assms(2) by (cases rs rule: rev_cases) (auto simp: sorted_append)
  from books_later [OF transit_books_reached [OF assms(1) s assms(4)] this]
  have "represents now (charges cred es) (fmlookup (re_transit r) cred)"
    "\<forall>(t, n)\<in>set (charges cred es). unix_hour t \<le> unix_hour now" "0 \<le> unix_hour now"
    using assms(3) unfolding transit_books_def by auto
  from represents_total [OF this] show ?thesis by (simp add: TransitToday_def)
qed

text \<open>
  C34. The transit total is a rolling sum: on a clock past 1970 that does not go back, what a circle has
  used at an instant is exactly the payload bytes of the chunks accepted for transfers it opened
  during the current and the previous 23 hours of the clock, although the relay keeps 24 numbers
  and forgets windows that are spent.
\<close>

theorem transit_rolling:
  assumes "0 \<le> unix_hour T" "sorted (T # map relay_time rs @ [now])" "cred \<noteq> 0"
    and "trace (relay_step rng) rs (NewRelay w cb ab n idle) = (es, r)"
  shows "TransitToday now cred r = log_sum (\<lambda>t. unix_hour now - 23 \<le> unix_hour t) (charges cred es)"
  by (rule transit_rolls [OF assms])

theorem transit_rolling_witness:
  "TransitToday (re_ex_now + 23 * 3600 * Second) 7 (snd re_ex_run) = 4 \<and>
   log_sum (\<lambda>t. unix_hour (re_ex_now + 23 * 3600 * Second) - 23 \<le> unix_hour t) (charges 7 (fst re_ex_run)) = 4"
proof -
  have run: "trace (relay_step re_ex_rng) re_ex_history (NewRelay 2 10 15 2 Minute) = (fst re_ex_run, snd re_ex_run)"
    by (simp add: re_ex_run_def re_ex_start_def)
  have "0 \<le> unix_hour re_ex_now" "sorted (re_ex_now # map relay_time re_ex_history @ [re_ex_now + 23 * 3600 * Second])"
    "(7 :: uint32) \<noteq> 0" by code_simp+
  from transit_rolling [OF this run]
  have "TransitToday (re_ex_now + 23 * 3600 * Second) 7 (snd re_ex_run) =
    log_sum (\<lambda>t. unix_hour (re_ex_now + 23 * 3600 * Second) - 23 \<le> unix_hour t) (charges 7 (fst re_ex_run))" .
  moreover have "TransitToday (re_ex_now + 23 * 3600 * Second) 7 (snd re_ex_run) = 4" by code_simp
  ultimately show ?thesis by simp
qed

text \<open>
  C35. A push accepted under a daily ceiling leaves its circle's rolling total within the ceiling, or,
  when the circle had no window yet, equal to that one chunk: the first chunk is not checked.
\<close>

theorem transit_ceiling:
  assumes "0 \<le> unix_hour T" "sorted (T # map relay_time rs @ [now])"
    and "trace (relay_step rng) rs (NewRelay w cb ab n idle) = (es, r)"
    and "PushWithGrant now chunk grant r = (None, r')" "0 < ag_TransitBytesPerDay grant"
    and "cred = charged_to (ch_Capability (trimChunk chunk)) r'" "cred \<noteq> 0"
  shows "TransitToday now cred r' =
      TransitToday now cred r + payloadBytes (trimChunk chunk) \<and>
    TransitToday now cred r' \<le>
      (if fmlookup (re_transit r) cred = None then payloadBytes (trimChunk chunk) else ag_TransitBytesPerDay grant)"
proof -
  let ?c = "trimChunk chunk" and ?rs = "rs @ [PushReq now chunk grant]"
  have "trace (relay_step rng) [PushReq now chunk grant] r =
      ((if opens now chunk grant r then [Opened (ch_Capability ?c)] else []) @ [Accepted (ch_Capability ?c) now cred ?c], r')"
    using assms(4) by (simp add: Let_def assms(6))
  from trace_append [OF assms(3) this]
  have run: "trace (relay_step rng) ?rs (NewRelay w cb ab n idle) =
      (es @ (if opens now chunk grant r then [Opened (ch_Capability ?c)] else []) @ [Accepted (ch_Capability ?c) now cred ?c], r')" .
  have s: "sorted (T # map relay_time ?rs @ [now])" using assms(2) by (auto simp: sorted_append)
  note before = transit_rolls [OF assms(1,2,7,3)] and after = transit_rolls [OF assms(1) s assms(7) run]
  have sum: "TransitToday now cred r' = TransitToday now cred r + payloadBytes ?c"
    unfolding before after by simp
  from assms(4) have "TransitToday now cred r' \<le>
      (if fmlookup (re_transit r) cred = None then payloadBytes ?c else ag_TransitBytesPerDay grant)"
  proof (cases rule: Push_cases)
    case (stored sess)
    have "cred = se_credential sess"
      by (simp add: assms(6) stored(5) charged_to_def)
    with stored(3) assms(5,7) sum show ?thesis
      by (auto simp: checkSession_def TransitToday_def split: if_splits option.splits)
  qed simp_all
  with sum show ?thesis by blast
qed

theorem transit_ceiling_witness:
  "TransitToday re_ex_now 7 (snd (PushWithGrant re_ex_now (re_ex_chunk 2 ''y'') re_ex_grant (snd re_ex_run))) \<le> 5"
proof -
  let ?p = "PushWithGrant re_ex_now (re_ex_chunk 2 ''y'') re_ex_grant (snd re_ex_run)"
  have run: "trace (relay_step re_ex_rng) re_ex_history (NewRelay 2 10 15 2 Minute) = (fst re_ex_run, snd re_ex_run)"
    by (simp add: re_ex_run_def re_ex_start_def)
  have hist: "0 \<le> unix_hour re_ex_now" "sorted (re_ex_now # map relay_time re_ex_history @ [re_ex_now])" by code_simp+
  have "Option.is_none (fst ?p)" by code_simp
  then have push: "?p = (None, snd ?p)" by (cases ?p) (simp add: Option.is_none_def)
  have "0 < ag_TransitBytesPerDay re_ex_grant" "7 = charged_to (ch_Capability (trimChunk (re_ex_chunk 2 ''y''))) (snd ?p)"
    "(7 :: uint32) \<noteq> 0" by code_simp+
  from transit_ceiling [OF hist run push this]
  have "TransitToday re_ex_now 7 (snd ?p) \<le> (if fmlookup (re_transit (snd re_ex_run)) 7 = None
      then payloadBytes (trimChunk (re_ex_chunk 2 ''y'')) else ag_TransitBytesPerDay re_ex_grant)" by blast
  moreover have "payloadBytes (trimChunk (re_ex_chunk 2 ''y'')) = 1" "ag_TransitBytesPerDay re_ex_grant = 5" by code_simp+
  ultimately show ?thesis by (simp split: if_splits)
qed


end
