(* ===== verification/Admission.thy ===== *)
theory Admission
  imports Go_Maps Base64
begin

unbundle bit_operations_syntax

text \<open>
  \<open>internal/admission\<close>: redemption codes and the credentials they stand for (\<open>credential.go\<close>), the
  challenge and session tables of the gate (\<open>session.go\<close>), and the set of admitted credentials
  (\<open>store.go\<close>). SHA-256 and Ed25519 are arguments, collected in a record; so are the bytes drawn
  from \<open>crypto/rand\<close>, where \<open>None\<close> is a failed draw.
\<close>

section \<open>Redemption codes\<close>

definition keyDomain :: string where
  "keyDomain = ''deechat.admission-key.v1|''"

definition proofDomain :: string where
  "proofDomain = ''deechat.admission-proof.v1|''"

definition codeAlphabet :: string where
  "codeAlphabet = ''0123456789ABCDEFGHJKMNPQRSTVWXYZ''"

definition CodeBytes :: nat where
  "CodeBytes = 16"

text \<open>
  The accumulator of \<open>NewCode\<close> is 32 bits wide and drops old bits off its top; the number of bits
  pending in it is below 13, and a natural number here.
\<close>

definition code_digit :: "uint32 \<Rightarrow> char" where
  "code_digit w = codeAlphabet ! unat (w AND 31)"

fun drainBits :: "uint32 \<Rightarrow> nat \<Rightarrow> string \<Rightarrow> nat \<times> string" where
  "drainBits acc bits out =
     (if bits \<ge> 5 then drainBits acc (bits - 5) (out @ [code_digit (drop_bit (bits - 5) acc)]) else (bits, out))"

declare drainBits.simps [simp del]

fun encodeBytes :: "string \<Rightarrow> uint32 \<Rightarrow> nat \<Rightarrow> string \<Rightarrow> uint32 \<times> nat \<times> string" where
  "encodeBytes [] acc bits out = (acc, bits, out)"
| "encodeBytes (b # raw) acc bits out =
     (let acc = push_bit 8 acc OR of_char b; (bits, out) = drainBits acc (bits + 8) out
      in encodeBytes raw acc bits out)"

definition NewCode :: "string option \<Rightarrow> string option" where
  "NewCode rand =
     (case rand of
        None \<Rightarrow> None
      | Some raw \<Rightarrow>
          let (acc, bits, out) = encodeBytes raw 0 0 []
          in Some (if bits > 0 then out @ [code_digit (push_bit (5 - bits) acc)] else out))"

text \<open>
  \<open>strings.ToUpper\<close> as far as \<open>NormalizeCode\<close> can see it. ASCII letters are mapped byte by byte.
  Of the other runes only dotless i (bytes C4 B1) and long s (C5 BF) have an ASCII upper case, I
  and S; bytes above 7F in any other sequence stand for runes outside the alphabet, before and
  after the mapping, and are dropped by the loop that follows. The result lists the ASCII runes.
\<close>

definition is_ascii :: "char \<Rightarrow> bool" where
  "is_ascii c \<longleftrightarrow> of_char c < (128 :: nat)"

definition upper_ascii :: "char \<Rightarrow> char" where
  "upper_ascii c = (if CHR ''a'' \<le> c \<and> c \<le> CHR ''z'' then char_of (of_char c - 32 :: nat) else c)"

fun upper_runes :: "string \<Rightarrow> string" where
  "upper_runes [] = []"
| "upper_runes [a] = (if is_ascii a then [upper_ascii a] else [])"
| "upper_runes (a # b # s) =
     (if is_ascii a then upper_ascii a # upper_runes (b # s)
      else if a = CHR 0xC4 \<and> b = CHR 0xB1 then CHR ''I'' # upper_runes s
      else if a = CHR 0xC5 \<and> b = CHR 0xBF then CHR ''S'' # upper_runes s
      else upper_runes (b # s))"

definition normalizeRune :: "char \<Rightarrow> string" where
  "normalizeRune r =
     (if r = CHR ''O'' then ''0''
      else if r = CHR ''I'' \<or> r = CHR ''L'' then ''1''
      else if r = CHR ''U'' then ''U''
      else if r \<in> set codeAlphabet then [r] else [])"

definition NormalizeCode :: "string \<Rightarrow> string" where
  "NormalizeCode code = concat (map normalizeRune (upper_runes (TrimSpace code)))"

section \<open>Credentials\<close>

text \<open>What the gate uses of \<open>crypto/sha256\<close> and \<open>crypto/ed25519\<close>.\<close>

record crypto =
  cr_sha256 :: "string \<Rightarrow> string"
  cr_public :: "string \<Rightarrow> string"
  cr_sign :: "string \<Rightarrow> string \<Rightarrow> string"
  cr_verify :: "string \<Rightarrow> string \<Rightarrow> string \<Rightarrow> bool"

definition CredentialID :: "string \<Rightarrow> string" where
  "CredentialID pub = b64url_encode pub"

text \<open>The private key is determined by the seed and represented by it.\<close>

definition KeyFromCode :: "crypto \<Rightarrow> string \<Rightarrow> string \<times> string" where
  "KeyFromCode cr code =
     (let seed = cr_sha256 cr (keyDomain @ NormalizeCode code) in (seed, CredentialID (cr_public cr seed)))"

definition Transcript :: "string \<Rightarrow> string \<Rightarrow> string" where
  "Transcript nonce credentialID = proofDomain @ nonce @ ''|'' @ credentialID"

definition Verify :: "crypto \<Rightarrow> string \<Rightarrow> string \<Rightarrow> string \<Rightarrow> bool" where
  "Verify cr credentialID nonce signature =
     (case b64url_decode credentialID of
        None \<Rightarrow> False
      | Some pub \<Rightarrow>
          if length pub \<noteq> 32 then False
          else if length signature \<noteq> 64 then False
          else cr_verify cr pub (Transcript nonce credentialID) signature)"

record Terms =
  te_Tier :: string
  te_NotAfter :: time
  te_QueueSlots :: int
  te_RetentionWindow :: duration
  te_AttachmentBytes :: int
  te_ConcurrentTransfers :: int
  te_TransitBytesPerDay :: int
  te_MaxPerPair :: int

record Credential =
  cred_ID :: string
  cred_Terms :: Terms

section \<open>Challenges and sessions\<close>

datatype admission_error =
    ErrUnknownCredential
  | ErrExpiredCredential
  | ErrBadProof
  | ErrGateBusy
  | ErrNoSession

definition nonceTTL :: duration where "nonceTTL = 30 * Second"
definition sessionTTL :: duration where "sessionTTL = 15 * Minute"
definition maxNonces :: int where "maxNonces = 8192"
definition maxSessionsPerCredential :: nat where "maxSessionsPerCredential = 128"
definition adm_maxSessions :: int where "adm_maxSessions = 16384"

record sessionEntry =
  en_credentialID :: string
  en_expiresAt :: time

record Sessions =
  ss_nonces :: "(string, time) gomap"
  ss_sessions :: "(string, sessionEntry) gomap"
  ss_byCredential :: "(string, string list) gomap"

definition NewSessions :: Sessions where
  "NewSessions = \<lparr>ss_nonces = fmempty, ss_sessions = fmempty, ss_byCredential = fmempty\<rparr>"

definition randomToken :: "string option \<Rightarrow> admission_error + string" where
  "randomToken rand = (case rand of None \<Rightarrow> Inl ErrGateBusy | Some raw \<Rightarrow> Inr (b64url_encode raw))"

definition tokensOf :: "Sessions \<Rightarrow> string \<Rightarrow> string list" where
  "tokensOf s credentialID = (case fmlookup (ss_byCredential s) credentialID of None \<Rightarrow> [] | Some ts \<Rightarrow> ts)"

definition adm_dropLocked :: "string \<Rightarrow> string \<Rightarrow> Sessions \<Rightarrow> Sessions" where
  "adm_dropLocked token credentialID s =
     (let s = s\<lparr>ss_sessions := fmdrop token (ss_sessions s)\<rparr>;
          remaining = filter (\<lambda>candidate. candidate \<noteq> token) (tokensOf s credentialID)
      in if remaining = [] then s\<lparr>ss_byCredential := fmdrop credentialID (ss_byCredential s)\<rparr>
         else s\<lparr>ss_byCredential := fmupd credentialID remaining (ss_byCredential s)\<rparr>)"

text \<open>The second loop of the sweep changes two tables; \<open>rng\<close> is the order it visits the tokens in.\<close>

definition sweepStep :: "time \<Rightarrow> string \<Rightarrow> Sessions \<Rightarrow> Sessions" where
  "sweepStep now token s =
     (case fmlookup (ss_sessions s) token of
        None \<Rightarrow> s
      | Some entry \<Rightarrow> if \<not> After (en_expiresAt entry) now then adm_dropLocked token (en_credentialID entry) s else s)"

definition adm_sweepLocked :: "(string fset \<Rightarrow> string list) \<Rightarrow> time \<Rightarrow> Sessions \<Rightarrow> Sessions" where
  "adm_sweepLocked rng now s =
     (let s = s\<lparr>ss_nonces := live_part (\<lambda>expiry. \<not> After expiry now) (ss_nonces s)\<rparr>
      in fold (sweepStep now) (rng (fmdom (ss_sessions s))) s)"

definition Challenge ::
  "(string fset \<Rightarrow> string list) \<Rightarrow> time \<Rightarrow> string option \<Rightarrow> Sessions \<Rightarrow> (admission_error + string \<times> duration) \<times> Sessions" where
  "Challenge rng now rand s =
     (let s = adm_sweepLocked rng now s in
      if go_len (ss_nonces s) \<ge> maxNonces then (Inl ErrGateBusy, s)
      else case randomToken rand of
             Inl e \<Rightarrow> (Inl e, s)
           | Inr nonce \<Rightarrow> (Inr (nonce, nonceTTL), s\<lparr>ss_nonces := fmupd nonce (now + nonceTTL) (ss_nonces s)\<rparr>))"

definition spendNonceLocked :: "string \<Rightarrow> time \<Rightarrow> Sessions \<Rightarrow> bool \<times> Sessions" where
  "spendNonceLocked nonce now s =
     (case fmlookup (ss_nonces s) nonce of
        None \<Rightarrow> (False, s)
      | Some expiry \<Rightarrow> (After expiry now, s\<lparr>ss_nonces := fmdrop nonce (ss_nonces s)\<rparr>))"

definition VerifyProof ::
  "crypto \<Rightarrow> time \<Rightarrow> string \<Rightarrow> string \<Rightarrow> string \<Rightarrow> Sessions \<Rightarrow> admission_error option \<times> Sessions" where
  "VerifyProof cr now credentialID nonce signature s =
     (let (spent, s) = spendNonceLocked nonce now s
      in (if \<not> spent \<or> \<not> Verify cr credentialID nonce signature then Some ErrBadProof else None, s))"

text \<open>The loop of \<open>Open\<close> that drops a circle's oldest tokens beyond its allowance.\<close>

fun trimTokens :: "string list \<Rightarrow> (string, sessionEntry) gomap \<Rightarrow> string list \<times> (string, sessionEntry) gomap" where
  "trimTokens [] m = ([], m)"
| "trimTokens (t # ts) m =
     (if length (t # ts) > maxSessionsPerCredential then trimTokens ts (fmdrop t m) else (t # ts, m))"

definition OpenSession ::
  "(string fset \<Rightarrow> string list) \<Rightarrow> time \<Rightarrow> string option \<Rightarrow> string \<Rightarrow> Sessions \<Rightarrow> (admission_error + string \<times> duration) \<times> Sessions" where
  "OpenSession rng now rand credentialID s =
     (let s = adm_sweepLocked rng now s in
      if go_len (ss_sessions s) \<ge> adm_maxSessions then (Inl ErrGateBusy, s)
      else case randomToken rand of
             Inl e \<Rightarrow> (Inl e, s)
           | Inr token \<Rightarrow>
               let sessions = fmupd token \<lparr>en_credentialID = credentialID, en_expiresAt = now + sessionTTL\<rparr> (ss_sessions s);
                   (tokens, sessions) = trimTokens (tokensOf s credentialID @ [token]) sessions
               in (Inr (token, sessionTTL),
                   s\<lparr>ss_sessions := sessions, ss_byCredential := fmupd credentialID tokens (ss_byCredential s)\<rparr>))"

definition Resolve :: "time \<Rightarrow> string \<Rightarrow> Sessions \<Rightarrow> (admission_error + string) \<times> Sessions" where
  "Resolve now token s =
     (if token = [] then (Inl ErrNoSession, s)
      else case fmlookup (ss_sessions s) token of
             None \<Rightarrow> (Inl ErrNoSession, s)
           | Some entry \<Rightarrow>
               if \<not> After (en_expiresAt entry) now
               then (Inl ErrNoSession, adm_dropLocked token (en_credentialID entry) s)
               else (Inr (en_credentialID entry), s))"

definition Forget :: "string \<Rightarrow> Sessions \<Rightarrow> Sessions" where
  "Forget credentialID s =
     s\<lparr>ss_sessions := fold fmdrop (tokensOf s credentialID) (ss_sessions s),
       ss_byCredential := fmdrop credentialID (ss_byCredential s)\<rparr>"

definition Counts :: "Sessions \<Rightarrow> int \<times> int" where
  "Counts s = (go_len (ss_nonces s), go_len (ss_sessions s))"

section \<open>The admitted credentials\<close>

record AdmStore =
  ad_credentials :: "(string, Credential) gomap"
  ad_index :: "(string, uint32) gomap"
  ad_nextIndex :: uint32
  ad_loaded :: int

definition adm_NewStore :: AdmStore where
  "adm_NewStore = \<lparr>ad_credentials = fmempty, ad_index = fmempty, ad_nextIndex = 0, ad_loaded = 0\<rparr>"

definition adm_Count :: "AdmStore \<Rightarrow> int" where
  "adm_Count s = ad_loaded s"

record AdmGrant =
  gr_Index :: uint32
  gr_ID :: string
  gr_Terms :: Terms

definition zero_Terms :: Terms where
  "zero_Terms = \<lparr>te_Tier = [], te_NotAfter = 0, te_QueueSlots = 0, te_RetentionWindow = 0, te_AttachmentBytes = 0,
     te_ConcurrentTransfers = 0, te_TransitBytesPerDay = 0, te_MaxPerPair = 0\<rparr>"

definition zero_AdmGrant :: AdmGrant where
  "zero_AdmGrant = \<lparr>gr_Index = 0, gr_ID = [], gr_Terms = zero_Terms\<rparr>"

definition Admitted :: "AdmGrant \<Rightarrow> bool" where
  "Admitted g \<longleftrightarrow> gr_Index g \<noteq> 0"

definition adm_Lookup :: "string \<Rightarrow> time \<Rightarrow> AdmStore \<Rightarrow> admission_error + AdmGrant" where
  "adm_Lookup i now s =
     (let index = (case fmlookup (ad_index s) i of None \<Rightarrow> 0 | Some n \<Rightarrow> n) in
      case fmlookup (ad_credentials s) i of
        None \<Rightarrow> Inl ErrUnknownCredential
      | Some credential \<Rightarrow>
          if \<not> After (te_NotAfter (cred_Terms credential)) now then Inl ErrExpiredCredential
          else Inr \<lparr>gr_Index = index, gr_ID = i, gr_Terms = cred_Terms credential\<rparr>)"

definition replaceStep ::
  "Credential \<Rightarrow> (string, Credential) gomap \<times> AdmStore \<Rightarrow> (string, Credential) gomap \<times> AdmStore" where
  "replaceStep credential = (\<lambda>(nxt, s).
     (fmupd (cred_ID credential) credential nxt,
      if fmlookup (ad_index s) (cred_ID credential) = None
      then s\<lparr>ad_nextIndex := ad_nextIndex s + 1,
             ad_index := fmupd (cred_ID credential) (ad_nextIndex s + 1) (ad_index s)\<rparr>
      else s))"

definition Replace :: "Credential list \<Rightarrow> AdmStore \<Rightarrow> AdmStore" where
  "Replace credentials s =
     (let (nxt, s) = fold replaceStep credentials (fmempty, s)
      in s\<lparr>ad_credentials := nxt, ad_loaded := go_len nxt\<rparr>)"

text \<open>
  \<open>ParseCredentials\<close> after the JSON decoder: the checks, in order, and the sort by id. The fields
  that must not be negative are ranged over as a map, so which one is reported is open; that one is
  reported is not, and the error carries no field.
\<close>

datatype credential_error = NotBase64 | WrongKeySize | NoExpiry | NegativeTerm | AppearsTwice

definition validateCredential :: "Credential \<Rightarrow> credential_error option" where
  "validateCredential credential =
     (case b64url_decode (cred_ID credential) of
        None \<Rightarrow> Some NotBase64
      | Some pub \<Rightarrow>
          if length pub \<noteq> 32 then Some WrongKeySize
          else if IsZero (te_NotAfter (cred_Terms credential)) then Some NoExpiry
          else if te_QueueSlots (cred_Terms credential) < 0 \<or> te_AttachmentBytes (cred_Terms credential) < 0 \<or>
                  te_ConcurrentTransfers (cred_Terms credential) < 0 \<or> te_TransitBytesPerDay (cred_Terms credential) < 0 \<or>
                  te_MaxPerPair (cred_Terms credential) < 0
          then Some NegativeTerm
          else None)"

fun checkCredentials :: "Credential list \<Rightarrow> string fset \<Rightarrow> credential_error option" where
  "checkCredentials [] seen = None"
| "checkCredentials (credential # rest) seen =
     (case validateCredential credential of
        Some e \<Rightarrow> Some e
      | None \<Rightarrow>
          if cred_ID credential |\<in>| seen then Some AppearsTwice
          else checkCredentials rest (finsert (cred_ID credential) seen))"

definition ParseCredentials :: "Credential list \<Rightarrow> credential_error + Credential list" where
  "ParseCredentials decoded =
     (case checkCredentials decoded {||} of
        Some e \<Rightarrow> Inl e
      | None \<Rightarrow> Inr (sort_key cred_ID decoded))"

definition LoadFile :: "('e + Credential list) \<Rightarrow> AdmStore \<Rightarrow> ('e + int) \<times> AdmStore" where
  "LoadFile parsed s =
     (case parsed of
        Inl e \<Rightarrow> (Inl e, s)
      | Inr credentials \<Rightarrow> (Inr (int (length credentials)), Replace credentials s))"

end
