(* ===== verification/Admission_Inv.thy ===== *)
theory Admission_Inv
  imports Admission Machine
begin

text \<open>
  The tables of the gate along histories of atomic calls: nonces are spent at most once, sessions
  stand for credentials they were opened for, the per-circle token lists agree with the session
  table, and both tables are bounded. Then the per-boot index of the credential store.
\<close>

section \<open>Requests and events\<close>

datatype gate_request =
    ChallengeReq time "string option"
  | VerifyReq time string string string
  | OpenReq time "string option" string
  | ResolveReq time string
  | ForgetReq string

datatype gate_event =
    NonceIssued string time
  | NonceProved string time
  | SessionOpened string string time

fun gate_step :: "(string fset \<Rightarrow> string list) \<Rightarrow> crypto \<Rightarrow> gate_request \<Rightarrow> Sessions \<Rightarrow> gate_event list \<times> Sessions" where
  "gate_step rng cr (ChallengeReq now rand) s =
     (let (a, s') = Challenge rng now rand s
      in (case a of Inl e \<Rightarrow> [] | Inr (nonce, ttl) \<Rightarrow> [NonceIssued nonce now], s'))"
| "gate_step rng cr (VerifyReq now credentialID nonce signature) s =
     (let (e, s') = VerifyProof cr now credentialID nonce signature s
      in (if e = None then [NonceProved nonce now] else [], s'))"
| "gate_step rng cr (OpenReq now rand credentialID) s =
     (let (a, s') = OpenSession rng now rand credentialID s
      in (case a of Inl e \<Rightarrow> [] | Inr (token, ttl) \<Rightarrow> [SessionOpened token credentialID now], s'))"
| "gate_step rng cr (ResolveReq now token) s = ([], snd (Resolve now token s))"
| "gate_step rng cr (ForgetReq credentialID) s = ([], Forget credentialID s)"

section \<open>Fields\<close>

lemma adm_drop_fields [simp]:
  "ss_nonces (adm_dropLocked t c s) = ss_nonces s"
  "ss_sessions (adm_dropLocked t c s) = fmdrop t (ss_sessions s)"
  by (simp_all add: adm_dropLocked_def Let_def)

lemma tokens_drop: "tokensOf (adm_dropLocked t c s) c' = (if c' = c then filter (\<lambda>x. x \<noteq> t) (tokensOf s c) else tokensOf s c')"
  by (auto simp: adm_dropLocked_def Let_def tokensOf_def split: option.splits)

lemma byCredential_drop:
  "fmlookup (ss_byCredential (adm_dropLocked t c s)) c' =
     (if c' = c then (if filter (\<lambda>x. x \<noteq> t) (tokensOf s c) = [] then None else Some (filter (\<lambda>x. x \<noteq> t) (tokensOf s c)))
      else fmlookup (ss_byCredential s) c')"
  by (auto simp: adm_dropLocked_def Let_def tokensOf_def)

lemma sweepStep_cases: "sweepStep now t s = s \<or> (\<exists>e. fmlookup (ss_sessions s) t = Some e \<and> en_expiresAt e \<le> now \<and>
    sweepStep now t s = adm_dropLocked t (en_credentialID e) s)"
  by (auto simp: sweepStep_def not_less split: option.split)

lemma sweep_induct:
  assumes "P (s\<lparr>ss_nonces := live_part (\<lambda>expiry. \<not> After expiry now) (ss_nonces s)\<rparr>)"
    and "\<And>t e s. P s \<Longrightarrow> fmlookup (ss_sessions s) t = Some e \<Longrightarrow> P (adm_dropLocked t (en_credentialID e) s)"
  shows "P (adm_sweepLocked rng now s)"
  unfolding adm_sweepLocked_def Let_def
proof (rule fold_invariant)
  fix t s assume "P s"
  then show "P (sweepStep now t s)" using sweepStep_cases [of now t s] assms(2) by (metis (no_types))
qed (rule assms(1))

text \<open>A sweep only removes: what it leaves was there.\<close>

definition shrinks :: "Sessions \<Rightarrow> Sessions \<Rightarrow> bool" where
  "shrinks s s' \<longleftrightarrow>
     (\<forall>k v. fmlookup (ss_nonces s') k = Some v \<longrightarrow> fmlookup (ss_nonces s) k = Some v) \<and>
     (\<forall>k v. fmlookup (ss_sessions s') k = Some v \<longrightarrow> fmlookup (ss_sessions s) k = Some v)"

lemma sweep_shrinks: "shrinks s (adm_sweepLocked rng now s)"
  by (rule sweep_induct) (auto simp: shrinks_def split: if_splits)

lemma shrinks_len:
  assumes "shrinks s s'"
  shows "go_len (ss_nonces s') \<le> go_len (ss_nonces s)" "go_len (ss_sessions s') \<le> go_len (ss_sessions s)"
proof -
  have "fmdom' (ss_nonces s') \<subseteq> fmdom' (ss_nonces s)" "fmdom' (ss_sessions s') \<subseteq> fmdom' (ss_sessions s)"
    using assms by (auto simp: shrinks_def fmlookup_dom'_iff)
  then show "go_len (ss_nonces s') \<le> go_len (ss_nonces s)" "go_len (ss_sessions s') \<le> go_len (ss_sessions s)"
    by (simp_all add: go_len_mono)
qed

section \<open>Outcomes of the calls\<close>

lemma Challenge_cases:
  assumes "Challenge rng now rand s = (a, s')"
  obtains (busy) e where "a = Inl e" "s' = adm_sweepLocked rng now s"
  | (issued) raw where "rand = Some raw" "a = Inr (b64url_encode raw, nonceTTL)"
      "go_len (ss_nonces (adm_sweepLocked rng now s)) < maxNonces"
      "s' = (adm_sweepLocked rng now s)\<lparr>ss_nonces :=
         fmupd (b64url_encode raw) (now + nonceTTL) (ss_nonces (adm_sweepLocked rng now s))\<rparr>"
  using assms
  by (cases rand) (auto simp: Challenge_def Let_def randomToken_def not_le split: if_splits)

lemma VerifyProof_cases:
  assumes "VerifyProof cr now c n sig s = (e, s')"
  obtains (unknown) "fmlookup (ss_nonces s) n = None" "e = Some ErrBadProof" "s' = s"
  | (spent) expiry where "fmlookup (ss_nonces s) n = Some expiry"
      "e = None \<longleftrightarrow> now < expiry \<and> Verify cr c n sig" "s' = s\<lparr>ss_nonces := fmdrop n (ss_nonces s)\<rparr>"
  using assms
  by (cases "fmlookup (ss_nonces s) n") (auto simp: VerifyProof_def spendNonceLocked_def Let_def split: if_splits)

lemma trimTokens_drop:
  assumes "trimTokens ts m = (ts', m')"
  shows "\<exists>old. ts = old @ ts' \<and> length ts' \<le> maxSessionsPerCredential \<and> m' = fold fmdrop old m \<and>
    (old \<noteq> [] \<longrightarrow> length ts' = maxSessionsPerCredential)"
  using assms
proof (induction ts m rule: trimTokens.induct)
  case (2 t ts m)
  show ?case
  proof (cases "length (t # ts) > maxSessionsPerCredential")
    case True
    with 2 obtain old where "ts = old @ ts'" "length ts' \<le> maxSessionsPerCredential" "m' = fold fmdrop old (fmdrop t m)"
      "old \<noteq> [] \<longrightarrow> length ts' = maxSessionsPerCredential" by auto
    with True show ?thesis by (intro exI [of _ "t # old"]) auto
  qed (use 2 in auto)
qed simp

lemma Open_cases:
  assumes "OpenSession rng now rand c s = (a, s')"
  obtains (busy) e where "a = Inl e" "s' = adm_sweepLocked rng now s"
  | (opened) raw old kept where "rand = Some raw" "a = Inr (b64url_encode raw, sessionTTL)"
      "go_len (ss_sessions (adm_sweepLocked rng now s)) < adm_maxSessions"
      "tokensOf (adm_sweepLocked rng now s) c @ [b64url_encode raw] = old @ kept"
      "length kept \<le> maxSessionsPerCredential" "old \<noteq> [] \<longrightarrow> length kept = maxSessionsPerCredential"
      "ss_nonces s' = ss_nonces (adm_sweepLocked rng now s)"
      "ss_sessions s' = fold fmdrop old (fmupd (b64url_encode raw)
         \<lparr>en_credentialID = c, en_expiresAt = now + sessionTTL\<rparr> (ss_sessions (adm_sweepLocked rng now s)))"
      "ss_byCredential s' = fmupd c kept (ss_byCredential (adm_sweepLocked rng now s))"
proof (cases "go_len (ss_sessions (adm_sweepLocked rng now s)) \<ge> adm_maxSessions \<or> rand = None")
  case True
  then show ?thesis using assms that(1) by (auto simp: OpenSession_def Let_def randomToken_def split: if_splits)
next
  case False
  let ?q = "adm_sweepLocked rng now s"
  obtain raw where raw: "rand = Some raw" using False by auto
  let ?t = "b64url_encode raw"
  let ?m = "fmupd ?t \<lparr>en_credentialID = c, en_expiresAt = now + sessionTTL\<rparr> (ss_sessions ?q)"
  obtain ts m where trim: "trimTokens (tokensOf ?q c @ [?t]) ?m = (ts, m)" by (cases "trimTokens (tokensOf ?q c @ [?t]) ?m")
  from trimTokens_drop [OF trim] obtain old where old: "tokensOf ?q c @ [?t] = old @ ts" "length ts \<le> maxSessionsPerCredential"
    "m = fold fmdrop old ?m" "old \<noteq> [] \<longrightarrow> length ts = maxSessionsPerCredential" by blast
  have "a = Inr (?t, sessionTTL)" "s' = ?q\<lparr>ss_sessions := m, ss_byCredential := fmupd c ts (ss_byCredential ?q)\<rparr>"
    using assms False trim by (auto simp: OpenSession_def Let_def randomToken_def raw)
  with False raw old show ?thesis by (intro that(2) [of raw old ts]) (auto simp: not_le)
qed

lemma lookup_fold_drop: "fmlookup (fold fmdrop ks m) x = (if x \<in> set ks then None else fmlookup m x)"
  by (induction ks arbitrary: m) auto

lemma Resolve_cases:
  assumes "Resolve now t s = (a, s')"
  obtains (none) "a = Inl ErrNoSession" "s' = s"
  | (expired) e where "fmlookup (ss_sessions s) t = Some e" "a = Inl ErrNoSession" "s' = adm_dropLocked t (en_credentialID e) s"
  | (live) e where "fmlookup (ss_sessions s) t = Some e" "now < en_expiresAt e" "a = Inr (en_credentialID e)" "s' = s"
proof (cases "t = [] \<or> fmlookup (ss_sessions s) t = None")
  case True
  show ?thesis by (rule that(1)) (use assms True in \<open>auto simp: Resolve_def split: if_splits\<close>)
next
  case False
  then obtain e where e: "fmlookup (ss_sessions s) t = Some e" by auto
  show ?thesis
  proof (cases "now < en_expiresAt e")
    case True
    show ?thesis by (rule that(3) [OF e True]) (use assms False e True in \<open>simp_all add: Resolve_def\<close>)
  next
    case old: False
    show ?thesis by (rule that(2) [OF e]) (use assms False e old in \<open>simp_all add: Resolve_def\<close>)
  qed
qed

section \<open>Bounds\<close>

definition gate_bounded :: "Sessions \<Rightarrow> bool" where
  "gate_bounded s \<longleftrightarrow> go_len (ss_nonces s) \<le> maxNonces \<and> go_len (ss_sessions s) \<le> adm_maxSessions"

lemma go_len_fold_drop: "go_len (fold fmdrop ks m) \<le> go_len m"
  by (rule go_len_mono) (auto simp: fmlookup_dom'_iff lookup_fold_drop split: if_splits)

interpretation gate_bounds: machine "gate_step rng cr" "\<lambda>_. True" gate_bounded for rng cr
proof unfold_locales
  fix s r es' s'
  assume inv: "gate_bounded s" and step: "gate_step rng cr r s = (es', s')"
  have q: "gate_bounded (adm_sweepLocked rng now s)" for now
    using inv shrinks_len [OF sweep_shrinks [of s rng now]] by (simp add: gate_bounded_def)
  have drop: "gate_bounded (adm_dropLocked t c s)" for t c
    using inv go_len_drop_le [of t "ss_sessions s"] by (simp add: gate_bounded_def)
  show "gate_bounded s'"
  proof (cases r)
    case (ChallengeReq now rand)
    with step obtain a where "Challenge rng now rand s = (a, s')" by (auto simp: Let_def split: prod.splits)
    then show ?thesis by (cases rule: Challenge_cases) (use q [of now] in \<open>auto simp: gate_bounded_def go_len_upd\<close>)
  next
    case (VerifyReq now c n sig)
    with step obtain e where "VerifyProof cr now c n sig s = (e, s')" by (auto simp: Let_def split: prod.splits)
    then show ?thesis
      by (cases rule: VerifyProof_cases) (use inv in \<open>auto simp: gate_bounded_def intro: order_trans [OF go_len_drop_le]\<close>)
  next
    case (OpenReq now rand c)
    with step obtain a where "OpenSession rng now rand c s = (a, s')" by (auto simp: Let_def split: prod.splits)
    then show ?thesis
    proof (cases rule: Open_cases)
      case (opened raw old kept)
      have "go_len (ss_sessions s') \<le> adm_maxSessions" unfolding opened(8)
        by (rule order_trans [OF go_len_fold_drop]) (use opened(3) in \<open>simp add: go_len_upd\<close>)
      then show ?thesis using q [of now] opened(7) by (simp add: gate_bounded_def)
    qed (use q [of now] in simp)
  next
    case (ResolveReq now t)
    obtain a where "Resolve now t s = (a, s')" using step ResolveReq by (cases "Resolve now t s") simp
    then show ?thesis by (cases rule: Resolve_cases) (use inv drop in auto)
  next
    case (ForgetReq c)
    then show ?thesis using step inv
      by (auto simp: gate_bounded_def Forget_def intro: order_trans [OF go_len_fold_drop])
  qed
qed

section \<open>Nonces are single-use\<close>

fun nonces_issued :: "gate_event list \<Rightarrow> (string \<times> time) list" where
  "nonces_issued [] = []"
| "nonces_issued (NonceIssued n t # es) = (n, t) # nonces_issued es"
| "nonces_issued (NonceProved n t # es) = nonces_issued es"
| "nonces_issued (SessionOpened k c t # es) = nonces_issued es"

fun nonces_proved :: "gate_event list \<Rightarrow> (string \<times> time) list" where
  "nonces_proved [] = []"
| "nonces_proved (NonceProved n t # es) = (n, t) # nonces_proved es"
| "nonces_proved (NonceIssued n t # es) = nonces_proved es"
| "nonces_proved (SessionOpened k c t # es) = nonces_proved es"

lemma issued_proved_append [simp]:
  "nonces_issued (es @ es') = nonces_issued es @ nonces_issued es'"
  "nonces_proved (es @ es') = nonces_proved es @ nonces_proved es'"
  by (induction es rule: nonces_issued.induct) simp_all

abbreviation count_fst :: "(string \<times> time) list \<Rightarrow> string \<Rightarrow> nat" where
  "count_fst xs n \<equiv> count (mset (map fst xs)) n"

definition held :: "Sessions \<Rightarrow> string \<Rightarrow> nat" where
  "held s n = (if fmlookup (ss_nonces s) n = None then 0 else 1)"

definition nonce_books :: "gate_event list \<Rightarrow> Sessions \<Rightarrow> bool" where
  "nonce_books es s \<longleftrightarrow>
     (\<forall>n. count_fst (nonces_proved es) n + held s n \<le> count_fst (nonces_issued es) n) \<and>
     (\<forall>n x. fmlookup (ss_nonces s) n = Some x \<longrightarrow> (n, x - nonceTTL) \<in> set (nonces_issued es)) \<and>
     (\<forall>(n, t)\<in>set (nonces_proved es). \<exists>t0. (n, t0) \<in> set (nonces_issued es) \<and> t < t0 + nonceTTL)"

lemma nonce_books_less:
  assumes "nonce_books es s" "\<And>k v. fmlookup (ss_nonces s') k = Some v \<Longrightarrow> fmlookup (ss_nonces s) k = Some v"
  shows "nonce_books es s'"
proof -
  have "held s' n \<le> held s n" for n
    using assms(2) [of n] by (cases "fmlookup (ss_nonces s') n") (auto simp: held_def)
  with assms show ?thesis unfolding nonce_books_def by (meson add_left_mono order_trans)
qed

lemma nonce_books_challenge:
  assumes inv: "nonce_books es s" and call: "Challenge rng now rand s = (a, s')"
  shows "nonce_books (es @ (case a of Inl e \<Rightarrow> [] | Inr (nonce, ttl) \<Rightarrow> [NonceIssued nonce now])) s'"
proof -
  have q: "nonce_books es (adm_sweepLocked rng now s)"
    by (rule nonce_books_less [OF inv]) (use sweep_shrinks [of s rng now] in \<open>simp add: shrinks_def\<close>)
  from call show ?thesis
  proof (cases rule: Challenge_cases)
    case (busy e)
    with q show ?thesis by simp
  next
    case (issued raw)
    have cnt: "count_fst (nonces_proved es) n + held s' n \<le> count_fst (nonces_issued es @ [(b64url_encode raw, now)]) n" for n
      using q [unfolded nonce_books_def, THEN conjunct1, THEN spec, of n] by (auto simp: held_def issued(4))
    show ?thesis unfolding nonce_books_def issued_proved_append issued(2) sum.case prod.case nonces_issued.simps nonces_proved.simps append_Nil2
      by (intro conjI) (rule allI, rule cnt, use q in \<open>auto simp: nonce_books_def issued(4)\<close>)
  qed
qed

lemma nonce_books_verify:
  assumes inv: "nonce_books es s" and call: "VerifyProof cr now c n sig s = (e, s')"
  shows "nonce_books (es @ (if e = None then [NonceProved n now] else [])) s'"
  using call
proof (cases rule: VerifyProof_cases)
  case unknown
  with inv show ?thesis by simp
next
  case (spent expiry)
  show ?thesis
  proof (cases e)
    case None
    with spent have "now < expiry" by simp
    moreover have "(n, expiry - nonceTTL) \<in> set (nonces_issued es)" using inv spent(1) by (simp add: nonce_books_def)
    moreover have cnt: "count_fst (nonces_proved es @ [(n, now)]) k + held s' k \<le> count_fst (nonces_issued es) k" for k
      using inv [unfolded nonce_books_def, THEN conjunct1, THEN spec, of k] spent(1) by (auto simp: held_def spent(3))
    ultimately show ?thesis unfolding nonce_books_def issued_proved_append None if_P [OF refl] nonces_issued.simps nonces_proved.simps append_Nil2
      by (intro conjI) (rule allI, rule cnt, use inv in \<open>auto simp: nonce_books_def spent(3) split: if_splits\<close>)
  next
    case (Some x)
    have "nonce_books es s'" by (rule nonce_books_less [OF inv]) (simp add: spent(3) split: if_splits)
    then show ?thesis by (simp add: Some)
  qed
qed

lemma nonce_books_step:
  assumes inv: "nonce_books es s" and step: "gate_step rng cr r s = (es', s')"
  shows "nonce_books (es @ es') s'"
proof (cases r)
  case (ChallengeReq now rand)
  with step show ?thesis using nonce_books_challenge [OF inv, of rng now rand] by (auto simp: Let_def split: prod.splits)
next
  case (VerifyReq now c n sig)
  with step show ?thesis using nonce_books_verify [OF inv, of cr now c n sig] by (auto simp: Let_def split: prod.splits)
next
  case (OpenReq now rand c)
  with step obtain a where call: "OpenSession rng now rand c s = (a, s')"
    and es': "es' = (case a of Inl e \<Rightarrow> [] | Inr (token, ttl) \<Rightarrow> [SessionOpened token c now])"
    by (auto simp: Let_def split: prod.splits)
  have "ss_nonces s' = ss_nonces (adm_sweepLocked rng now s)" using call by (cases rule: Open_cases) simp_all
  then have "nonce_books es s'"
    by (intro nonce_books_less [OF inv]) (use sweep_shrinks [of s rng now] in \<open>simp add: shrinks_def\<close>)
  moreover have "nonces_issued es' = []" "nonces_proved es' = []" by (auto simp: es' split: sum.split)
  ultimately show ?thesis by (simp add: nonce_books_def)
next
  case (ResolveReq now t)
  obtain a where "Resolve now t s = (a, s')" using step ResolveReq by (cases "Resolve now t s") simp
  then have "ss_nonces s' = ss_nonces s" by (cases rule: Resolve_cases) simp_all
  with inv step ResolveReq show ?thesis by (auto simp: nonce_books_def held_def)
next
  case (ForgetReq c)
  with step have s': "s' = Forget c s" "es' = []" by simp_all
  have "nonce_books es s'" unfolding s' by (rule nonce_books_less [OF inv]) (simp add: Forget_def)
  then show ?thesis by (simp add: s')
qed

interpretation gate_nonces: observed_machine "gate_step rng cr" "\<lambda>_. True" nonce_books for rng cr
  by unfold_locales (rule nonce_books_step)

section \<open>Sessions stand for what they were opened for\<close>

definition session_books :: "gate_event list \<Rightarrow> Sessions \<Rightarrow> bool" where
  "session_books es s \<longleftrightarrow> (\<forall>t e. fmlookup (ss_sessions s) t = Some e \<longrightarrow>
     SessionOpened t (en_credentialID e) (en_expiresAt e - sessionTTL) \<in> set es)"

lemma session_books_less:
  assumes "session_books es s" "\<And>k v. fmlookup (ss_sessions s') k = Some v \<Longrightarrow> fmlookup (ss_sessions s) k = Some v"
  shows "session_books (es @ es') s'"
  using assms unfolding session_books_def by auto

lemma session_books_step:
  assumes inv: "session_books es s" and step: "gate_step rng cr r s = (es', s')"
  shows "session_books (es @ es') s'"
proof (cases r)
  case (OpenReq now rand c)
  with step obtain a where call: "OpenSession rng now rand c s = (a, s')"
    and es': "es' = (case a of Inl e \<Rightarrow> [] | Inr (token, ttl) \<Rightarrow> [SessionOpened token c now])"
    by (auto simp: Let_def split: prod.splits)
  have q: "fmlookup (ss_sessions (adm_sweepLocked rng now s)) k = Some v \<Longrightarrow> fmlookup (ss_sessions s) k = Some v" for k v
    using sweep_shrinks [of s rng now] by (simp add: shrinks_def)
  from call show ?thesis
  proof (cases rule: Open_cases)
    case (opened raw old kept)
    then show ?thesis using inv q unfolding session_books_def es'
      by (auto simp: lookup_fold_drop split: if_splits)
  qed (use q in \<open>auto intro: session_books_less [OF inv]\<close>)
next
  case (ChallengeReq now rand)
  with step obtain a where "Challenge rng now rand s = (a, s')" by (auto simp: Let_def split: prod.splits)
  then have "ss_sessions s' = ss_sessions (adm_sweepLocked rng now s)" by (cases rule: Challenge_cases) simp_all
  then show ?thesis
    by (intro session_books_less [OF inv]) (use sweep_shrinks [of s rng now] in \<open>simp add: shrinks_def\<close>)
next
  case (VerifyReq now c n sig)
  with step obtain e where "VerifyProof cr now c n sig s = (e, s')" by (auto simp: Let_def split: prod.splits)
  then have "ss_sessions s' = ss_sessions s" by (cases rule: VerifyProof_cases) simp_all
  then show ?thesis by (intro session_books_less [OF inv]) simp
next
  case (ResolveReq now t)
  obtain a where "Resolve now t s = (a, s')" using step ResolveReq by (cases "Resolve now t s") simp
  then show ?thesis
    by (cases rule: Resolve_cases) (auto intro!: session_books_less [OF inv] split: if_splits)
next
  case (ForgetReq c)
  with step show ?thesis
    by (intro session_books_less [OF inv]) (auto simp: Forget_def lookup_fold_drop split: if_splits)
qed

interpretation gate_sessions: observed_machine "gate_step rng cr" "\<lambda>_. True" session_books for rng cr
  by unfold_locales (rule session_books_step)

section \<open>Token lists\<close>

text \<open>Each circle's list holds exactly its live tokens, once each and at most the allowance.\<close>

definition tokens_ok :: "Sessions \<Rightarrow> string \<Rightarrow> bool" where
  "tokens_ok s c \<longleftrightarrow> distinct (tokensOf s c) \<and> length (tokensOf s c) \<le> maxSessionsPerCredential \<and>
     fmlookup (ss_byCredential s) c \<noteq> Some [] \<and>
     set (tokensOf s c) = {t. \<exists>e. fmlookup (ss_sessions s) t = Some e \<and> en_credentialID e = c}"

definition lists_ok :: "Sessions \<Rightarrow> bool" where
  "lists_ok s \<longleftrightarrow> (\<forall>c. tokens_ok s c)"

lemma lists_drop:
  assumes "lists_ok s" "fmlookup (ss_sessions s) t = Some e"
  shows "lists_ok (adm_dropLocked t (en_credentialID e) s)"
  unfolding lists_ok_def
proof
  fix c
  have ok: "tokens_ok s c" using assms(1) by (simp add: lists_ok_def)
  show "tokens_ok (adm_dropLocked t (en_credentialID e) s) c"
  proof (cases "c = en_credentialID e")
    case True
    with ok show ?thesis
      by (auto simp: tokens_ok_def tokens_drop byCredential_drop intro: order_trans [OF length_filter_le])
  next
    case False
    with ok assms(2) show ?thesis by (auto simp: tokens_ok_def tokens_drop byCredential_drop)
  qed
qed

lemma lists_nonces: "lists_ok (s\<lparr>ss_nonces := m\<rparr>) = lists_ok s"
  by (simp add: lists_ok_def tokens_ok_def tokensOf_def)

lemma lists_sweep: "lists_ok s \<Longrightarrow> lists_ok (adm_sweepLocked rng now s)"
  by (rule sweep_induct) (simp_all add: lists_nonces lists_drop)

lemma lists_open:
  assumes q: "lists_ok q" and fresh: "fmlookup (ss_sessions q) t = None"
    and split: "tokensOf q c @ [t] = old @ kept"
    and len: "length kept \<le> maxSessionsPerCredential" "old \<noteq> [] \<longrightarrow> length kept = maxSessionsPerCredential"
    and s': "ss_sessions s' = fold fmdrop old (fmupd t \<lparr>en_credentialID = c, en_expiresAt = x\<rparr> (ss_sessions q))"
      "ss_byCredential s' = fmupd c kept (ss_byCredential q)"
  shows "lists_ok s'"
  unfolding lists_ok_def
proof
  fix c'
  have ok: "tokens_ok q c'" "tokens_ok q c" using q by (simp_all add: lists_ok_def)
  have t: "t \<notin> set (tokensOf q c)" using ok(2) fresh by (auto simp: tokens_ok_def)
  have kept: "kept \<noteq> []" using split len(2) by (auto simp: maxSessionsPerCredential_def)
  have dist: "distinct (old @ kept)" using t ok(2) unfolding split [symmetric] by (simp add: tokens_ok_def)
  have old: "set old \<subseteq> set (tokensOf q c)"
  proof -
    have "set (butlast (old @ kept)) = set (tokensOf q c)" unfolding split [symmetric] by simp
    then show ?thesis using kept by (auto simp: butlast_append)
  qed
  have toks: "tokensOf s' c' = (if c' = c then kept else tokensOf q c')" by (simp add: tokensOf_def s'(2))
  have table: "(\<exists>e. fmlookup (ss_sessions s') k = Some e \<and> en_credentialID e = c') \<longleftrightarrow>
      k \<notin> set old \<and> (if k = t then c' = c else \<exists>e. fmlookup (ss_sessions q) k = Some e \<and> en_credentialID e = c')" for k
    unfolding s'(1) lookup_fold_drop by auto
  have sets: "set kept = (set (tokensOf q c) \<union> {t}) - set old"
    using dist arg_cong [OF split, of set] by auto
  show "tokens_ok s' c'"
  proof (cases "c' = c")
    case True
    have "set kept = {k. k \<notin> set old \<and> (k = t \<or> k \<in> set (tokensOf q c))}" unfolding sets by auto
    with True dist len(1) kept ok(2) t show ?thesis
      unfolding tokens_ok_def toks table by (auto simp: s'(2) tokens_ok_def)
  next
    case False
    have "k \<notin> set old" if "k \<in> set (tokensOf q c')" for k
      using that old ok False by (auto simp: tokens_ok_def)
    with False ok(1) fresh show ?thesis
      unfolding tokens_ok_def toks table by (auto simp: s'(2) tokens_ok_def)
  qed
qed

lemma lists_forget:
  assumes "lists_ok s"
  shows "lists_ok (Forget c s)"
proof -
  have ok: "tokens_ok s c'" for c' using assms by (simp add: lists_ok_def)
  have "tokens_ok (Forget c s) c'" for c'
  proof (cases "c' = c")
    case True
    then show ?thesis using ok [of c]
      by (auto simp: tokens_ok_def Forget_def tokensOf_def lookup_fold_drop maxSessionsPerCredential_def)
  next
    case False
    have "k \<notin> set (tokensOf s c)" if "k \<in> set (tokensOf s c')" for k
      using that ok [of c] ok [of c'] False by (auto simp: tokens_ok_def)
    moreover have "tokensOf (Forget c s) c' = tokensOf s c'" using False by (simp add: Forget_def tokensOf_def)
    ultimately show ?thesis using ok [of c'] False
      by (auto simp: tokens_ok_def Forget_def lookup_fold_drop)
  qed
  then show ?thesis by (simp add: lists_ok_def)
qed

text \<open>The lists are kept as long as no two sessions draw the same token.\<close>

fun tokens_drawn :: "gate_event list \<Rightarrow> string list" where
  "tokens_drawn [] = []"
| "tokens_drawn (SessionOpened k c t # es) = k # tokens_drawn es"
| "tokens_drawn (NonceIssued n t # es) = tokens_drawn es"
| "tokens_drawn (NonceProved n t # es) = tokens_drawn es"

lemma tokens_drawn_append [simp]: "tokens_drawn (es @ es') = tokens_drawn es @ tokens_drawn es'"
  by (induction es rule: tokens_drawn.induct) simp_all

lemma tokens_drawn_mem: "SessionOpened k c t \<in> set es \<Longrightarrow> k \<in> set (tokens_drawn es)"
  by (induction es rule: tokens_drawn.induct) auto

definition list_books :: "gate_event list \<Rightarrow> Sessions \<Rightarrow> bool" where
  "list_books es s \<longleftrightarrow> session_books es s \<and> (distinct (tokens_drawn es) \<longrightarrow> lists_ok s)"

interpretation gate_lists: observed_machine "gate_step rng cr" "\<lambda>_. True" list_books for rng cr
proof unfold_locales
  fix es s r es' s'
  assume inv: "list_books es s" and step: "gate_step rng cr r s = (es', s')"
  have books: "session_books (es @ es') s'" using inv session_books_step [OF _ step] by (simp add: list_books_def)
  moreover have "lists_ok s'" if dist: "distinct (tokens_drawn (es @ es'))"
  proof -
    have ok: "lists_ok s" using inv dist by (simp add: list_books_def)
    show ?thesis
    proof (cases r)
      case (OpenReq now rand c)
      with step obtain a where call: "OpenSession rng now rand c s = (a, s')"
        and es': "es' = (case a of Inl e \<Rightarrow> [] | Inr (token, ttl) \<Rightarrow> [SessionOpened token c now])"
        by (auto simp: Let_def split: prod.splits)
      from call show ?thesis
      proof (cases rule: Open_cases)
        case (opened raw old kept)
        let ?q = "adm_sweepLocked rng now s"
        have "fmlookup (ss_sessions ?q) (b64url_encode raw) = None"
        proof (rule ccontr)
          assume "fmlookup (ss_sessions ?q) (b64url_encode raw) \<noteq> None"
          then obtain e where "fmlookup (ss_sessions s) (b64url_encode raw) = Some e"
            using sweep_shrinks [of s rng now] by (auto simp: shrinks_def)
          with inv have "SessionOpened (b64url_encode raw) (en_credentialID e) (en_expiresAt e - sessionTTL) \<in> set es"
            by (simp add: list_books_def session_books_def)
          then have "b64url_encode raw \<in> set (tokens_drawn es)" by (rule tokens_drawn_mem)
          with dist show False by (simp add: es' opened(2))
        qed
        then show ?thesis by (rule lists_open [OF lists_sweep [OF ok] _ opened(4,5,6,8,9)])
      qed (use lists_sweep [OF ok] in simp)
    next
      case (ChallengeReq now rand)
      with step obtain a where "Challenge rng now rand s = (a, s')" by (auto simp: Let_def split: prod.splits)
      then show ?thesis by (cases rule: Challenge_cases) (simp_all add: lists_nonces lists_sweep [OF ok])
    next
      case (VerifyReq now c n sig)
      with step obtain e where "VerifyProof cr now c n sig s = (e, s')" by (auto simp: Let_def split: prod.splits)
      then show ?thesis by (cases rule: VerifyProof_cases) (simp_all add: lists_nonces ok)
    next
      case (ResolveReq now t)
      obtain a where "Resolve now t s = (a, s')" using step ResolveReq by (cases "Resolve now t s") simp
      then show ?thesis by (cases rule: Resolve_cases) (simp_all add: ok lists_drop)
    next
      case (ForgetReq c)
      with step show ?thesis using lists_forget [OF ok] by auto
    qed
  qed
  ultimately show "list_books (es @ es') s'" by (simp add: list_books_def)
qed

section \<open>The per-boot index\<close>

text \<open>
  The credentials seen since the process started are numbered 1, 2, 3, and so on; \<open>n\<close> is how many
  there are. The number is a 32-bit word.
\<close>

definition index_ok :: "AdmStore \<Rightarrow> bool" where
  "index_ok s \<longleftrightarrow> (\<exists>f. (\<forall>i. fmlookup (ad_index s) i = map_option of_nat (f i)) \<and>
     (\<forall>i k. f i = Some k \<longrightarrow> 0 < k \<and> k \<le> card (dom f)) \<and> inj_on f (dom f) \<and>
     finite (dom f) \<and> ad_nextIndex s = of_nat (card (dom f)))"

lemma index_add:
  assumes "index_ok s" "fmlookup (ad_index s) i = None"
  shows "index_ok (s\<lparr>ad_nextIndex := ad_nextIndex s + 1, ad_index := fmupd i (ad_nextIndex s + 1) (ad_index s)\<rparr>)"
proof -
  obtain f where f: "\<forall>i. fmlookup (ad_index s) i = map_option of_nat (f i)"
    "\<forall>i k. f i = Some k \<longrightarrow> 0 < k \<and> k \<le> card (dom f)" "inj_on f (dom f)" "finite (dom f)"
    "ad_nextIndex s = of_nat (card (dom f))" using assms(1) by (auto simp: index_ok_def)
  let ?n = "Suc (card (dom f))" and ?g = "f(i \<mapsto> Suc (card (dom f)))"
  have i: "i \<notin> dom f" using assms(2) f(1) by auto
  then have card: "card (dom ?g) = ?n" using f(4) by simp
  have "inj_on ?g (dom ?g)"
  proof (rule inj_onI)
    fix x y assume "x \<in> dom ?g" "y \<in> dom ?g" "?g x = ?g y"
    then show "x = y" using f(2,3) i unfolding inj_on_def
      by (auto split: if_splits) (metis Suc_n_not_le_n domI)+
  qed
  moreover have "\<forall>j k. ?g j = Some k \<longrightarrow> 0 < k \<and> k \<le> card (dom ?g)"
    using f(2) unfolding card by (auto simp: le_SucI)
  moreover have "\<forall>j. fmlookup (fmupd i (ad_nextIndex s + 1) (ad_index s)) j = map_option of_nat (?g j)"
    using f(1,5) by (simp add: add.commute)
  ultimately show ?thesis
    unfolding index_ok_def using f(4,5) card by (intro exI [of _ ?g]) (simp add: add.commute)
qed

lemma find_append: "find P (xs @ ys) = (case find P xs of None \<Rightarrow> find P ys | Some x \<Rightarrow> Some x)"
  by (induction xs) simp_all

lemma replace_fold:
  assumes "index_ok s" "fold replaceStep cs (nxt, s) = (nxt', s')"
  shows "index_ok s' \<and> (\<forall>i n. fmlookup (ad_index s) i = Some n \<longrightarrow> fmlookup (ad_index s') i = Some n) \<and>
    fmdom' (ad_index s') = fmdom' (ad_index s) \<union> cred_ID ` set cs \<and>
    (\<forall>i. fmlookup nxt' i = (case find (\<lambda>c. cred_ID c = i) (rev cs) of None \<Rightarrow> fmlookup nxt i | Some c \<Rightarrow> Some c))"
  using assms
proof (induction cs arbitrary: nxt s)
  case (Cons c cs)
  obtain nxt1 s1 where one: "replaceStep c (nxt, s) = (nxt1, s1)" by (cases "replaceStep c (nxt, s)")
  have step: "nxt1 = fmupd (cred_ID c) c nxt" "s1 = (if fmlookup (ad_index s) (cred_ID c) = None
      then s\<lparr>ad_nextIndex := ad_nextIndex s + 1, ad_index := fmupd (cred_ID c) (ad_nextIndex s + 1) (ad_index s)\<rparr> else s)"
    using one by (simp_all add: replaceStep_def)
  have ok: "index_ok s1" using index_add Cons.prems(1) by (simp add: step)
  have "fold replaceStep cs (nxt1, s1) = (nxt', s')" using Cons.prems(2) one by simp
  note ih = Cons.IH [OF ok this]
  have keep: "\<forall>i n. fmlookup (ad_index s) i = Some n \<longrightarrow> fmlookup (ad_index s1) i = Some n"
    and dom: "fmdom' (ad_index s1) = insert (cred_ID c) (fmdom' (ad_index s))"
    by (auto simp: step fmlookup_dom'_iff)
  have "find (\<lambda>c. cred_ID c = i) (rev (c # cs)) = (case find (\<lambda>c. cred_ID c = i) (rev cs) of
      None \<Rightarrow> if cred_ID c = i then Some c else None | Some d \<Rightarrow> Some d)" for i
    by (simp add: find_append split: option.split)
  with ih keep dom show ?case by (auto simp: step(1) split: option.split)
qed simp

section \<open>What the store grants\<close>

definition credential_ok :: "Credential \<Rightarrow> bool" where
  "credential_ok c \<longleftrightarrow> validateCredential c = None"

text \<open>Every loaded credential is filed under its id, passed the checks of the file and has an index.\<close>

definition store_ok :: "AdmStore \<Rightarrow> bool" where
  "store_ok s \<longleftrightarrow> index_ok s \<and> ad_loaded s = go_len (ad_credentials s) \<and>
     (\<forall>i c. fmlookup (ad_credentials s) i = Some c \<longrightarrow> cred_ID c = i \<and> credential_ok c \<and> i \<in> fmdom' (ad_index s))"

lemma checked_file:
  "checkCredentials cs seen = None \<longleftrightarrow>
     (\<forall>c\<in>set cs. credential_ok c \<and> cred_ID c |\<notin>| seen) \<and> distinct (map cred_ID cs)"
  by (induction cs arbitrary: seen) (auto simp: credential_ok_def image_iff split: option.splits)

lemma find_distinct:
  "distinct (map f cs) \<Longrightarrow> find (\<lambda>c. f c = i) cs = Some c \<longleftrightarrow> c \<in> set cs \<and> f c = i"
  by (induction cs) (auto simp: image_iff)

lemma find_rev_distinct:
  "distinct (map f cs) \<Longrightarrow> find (\<lambda>c. f c = i) (rev cs) = Some c \<longleftrightarrow> c \<in> set cs \<and> f c = i"
  using find_distinct [of f "rev cs" i c] by (simp add: rev_map [symmetric])

lemma Parse_cases:
  assumes "ParseCredentials doc = Inr cs"
  shows "set cs = set doc" "length cs = length doc" "sorted (map cred_ID cs)" "distinct (map cred_ID cs)"
    "\<forall>c\<in>set cs. credential_ok c"
proof -
  have chk: "checkCredentials doc {||} = None" and cs: "cs = sort_key cred_ID doc"
    using assms by (auto simp: ParseCredentials_def split: option.splits)
  show "set cs = set doc" "length cs = length doc" "sorted (map cred_ID cs)" "\<forall>c\<in>set cs. credential_ok c"
    using chk by (simp_all add: cs checked_file)
  have "distinct (map cred_ID doc)" using chk by (simp add: checked_file)
  then show "distinct (map cred_ID cs)" by (auto simp: cs distinct_map)
qed

lemma Replace_store:
  assumes "store_ok s" "\<forall>c\<in>set cs. credential_ok c" "distinct (map cred_ID cs)"
  shows "store_ok (Replace cs s)"
    "fmlookup (ad_index s) i = Some n \<Longrightarrow> fmlookup (ad_index (Replace cs s)) i = Some n"
    "fmdom' (ad_index (Replace cs s)) = fmdom' (ad_index s) \<union> cred_ID ` set cs"
    "fmlookup (ad_credentials (Replace cs s)) i = Some c \<longleftrightarrow> c \<in> set cs \<and> cred_ID c = i"
proof -
  obtain nxt s' where fold: "fold replaceStep cs (fmempty, s) = (nxt, s')" by (cases "fold replaceStep cs (fmempty, s)")
  have index: "index_ok s" using assms(1) by (simp add: store_ok_def)
  note rf = replace_fold [OF index fold]
  have rep: "Replace cs s = s'\<lparr>ad_credentials := nxt, ad_loaded := go_len nxt\<rparr>" by (simp add: Replace_def fold)
  show cred: "fmlookup (ad_credentials (Replace cs s)) i = Some c \<longleftrightarrow> c \<in> set cs \<and> cred_ID c = i" for i c
    using rf find_rev_distinct [OF assms(3), of i c] by (cases "find (\<lambda>c. cred_ID c = i) (rev cs)") (auto simp: rep)
  show "fmlookup (ad_index s) i = Some n \<Longrightarrow> fmlookup (ad_index (Replace cs s)) i = Some n" using rf by (simp add: rep)
  show dom: "fmdom' (ad_index (Replace cs s)) = fmdom' (ad_index s) \<union> cred_ID ` set cs" using rf by (simp add: rep)
  have "index_ok (Replace cs s)" using rf by (simp add: rep index_ok_def)
  then show "store_ok (Replace cs s)" using cred dom assms(2) by (auto simp: store_ok_def rep)
qed

text \<open>A reload that does not parse leaves the store as it was.\<close>

definition reload :: "Credential list \<Rightarrow> AdmStore \<Rightarrow> AdmStore" where
  "reload doc s = snd (LoadFile (ParseCredentials doc) s)"

lemma reload_store:
  assumes "store_ok s"
  shows "store_ok (reload doc s)"
    "fmlookup (ad_index s) i = Some n \<Longrightarrow> fmlookup (ad_index (reload doc s)) i = Some n"
    "fmdom' (ad_index (reload doc s)) \<subseteq> fmdom' (ad_index s) \<union> cred_ID ` set doc"
proof -
  have "store_ok (reload doc s) \<and> (\<forall>i n. fmlookup (ad_index s) i = Some n \<longrightarrow> fmlookup (ad_index (reload doc s)) i = Some n) \<and>
    fmdom' (ad_index (reload doc s)) \<subseteq> fmdom' (ad_index s) \<union> cred_ID ` set doc"
  proof (cases "ParseCredentials doc")
    case (Inr cs)
    from Parse_cases [OF Inr] Replace_store [OF assms, of cs] show ?thesis by (auto simp: reload_def LoadFile_def Inr)
  qed (use assms in \<open>simp add: reload_def LoadFile_def\<close>)
  then show "store_ok (reload doc s)"
    "fmlookup (ad_index s) i = Some n \<Longrightarrow> fmlookup (ad_index (reload doc s)) i = Some n"
    "fmdom' (ad_index (reload doc s)) \<subseteq> fmdom' (ad_index s) \<union> cred_ID ` set doc" by blast+
qed

lemma reloads_store:
  "store_ok s \<Longrightarrow> store_ok (fold reload files s) \<and>
     fmdom' (ad_index (fold reload files s)) \<subseteq> fmdom' (ad_index s) \<union> (\<Union>doc\<in>set files. cred_ID ` set doc)"
proof (induction files arbitrary: s)
  case (Cons doc files)
  from Cons.IH [OF reload_store(1) [OF Cons.prems, of doc]] reload_store(3) [OF Cons.prems, of doc]
  show ?case by auto
qed simp

lemma store_start: "store_ok adm_NewStore"
  by (auto simp: store_ok_def adm_NewStore_def index_ok_def intro: exI [of _ "\<lambda>_. None"])

lemma index_in_range:
  assumes "index_ok s" "card (fmdom' (ad_index s)) < 2 ^ 32" "fmlookup (ad_index s) i = Some n"
  shows "n \<noteq> 0" "fmlookup (ad_index s) j = Some n \<Longrightarrow> j = i"
proof -
  obtain f where f: "\<forall>i. fmlookup (ad_index s) i = map_option of_nat (f i)"
    "\<forall>i k. f i = Some k \<longrightarrow> 0 < k \<and> k \<le> card (dom f)" "inj_on f (dom f)"
    using assms(1) by (auto simp: index_ok_def)
  have "fmdom' (ad_index s) = dom f" using f(1) by (auto simp: fmlookup_dom'_iff)
  then have range: "k < 2 ^ 32 \<and> 0 < k" if "f x = Some k" for x k using f(2) that assms(2) by fastforce
  have num: "\<exists>k. f x = Some k \<and> n = word_of_nat k \<and> unat n = k" if look: "fmlookup (ad_index s) x = Some n" for x
  proof -
    obtain k where k: "f x = Some k" "n = word_of_nat k" using f(1) look by (cases "f x") auto
    then show ?thesis using range [OF k(1)] by (simp add: unat_of_nat take_bit_nat_eq_self)
  qed
  from num [OF assms(3)] range show "n \<noteq> 0" by fastforce
  show "j = i" if "fmlookup (ad_index s) j = Some n"
    using num [OF assms(3)] num [OF that] f(3) by (auto simp: inj_on_def dom_def)
qed

end
