(* ===== verification/Admission_Code.thy ===== *)
theory Admission_Code
  imports Admission
begin

unbundle bit_operations_syntax

text \<open>
  Redemption codes: minting loses none of the 128 random bits although the accumulator is 32 bits
  wide, and every way a code is commonly written down derives the same credential.
\<close>

section \<open>Minting\<close>

text \<open>A code as a number in base 32, and bytes as a number in base 256.\<close>

definition crockford :: "string \<Rightarrow> nat" where
  "crockford s = fold (\<lambda>c v. v * 32 + the (index_of codeAlphabet c)) s 0"

definition bytes_value :: "string \<Rightarrow> nat" where
  "bytes_value s = fold (\<lambda>b v. v * 256 + of_char b) s 0"

lemma crockford_snoc: "crockford (s @ [c]) = crockford s * 32 + the (index_of codeAlphabet c)"
  by (simp add: crockford_def)

lemma length_codeAlphabet: "length codeAlphabet = 32"
  by (simp add: codeAlphabet_def)

lemma distinct_codeAlphabet: "distinct codeAlphabet"
  by (simp add: codeAlphabet_def)

lemma unat_and_31: "unat (w AND 31 :: uint32) = unat w mod 32"
proof -
  have "w AND 31 = w AND mask 5" by (simp add: mask_eq_exp_minus_1)
  also have "\<dots> = take_bit 5 w" by (simp add: take_bit_eq_mask)
  finally have "unat (w AND 31) = take_bit 5 (unat w)" by (simp only: unsigned_take_bit_eq)
  then show ?thesis by (simp add: take_bit_eq_mod)
qed

lemma code_digit:
  "code_digit w \<in> set codeAlphabet" "the (index_of codeAlphabet (code_digit w)) = unat w mod 32"
proof -
  have "unat w mod 32 < length codeAlphabet" by (simp add: length_codeAlphabet)
  then show "code_digit w \<in> set codeAlphabet" "the (index_of codeAlphabet (code_digit w)) = unat w mod 32"
    unfolding code_digit_def unat_and_31 by (simp_all add: index_of_nth distinct_codeAlphabet)
qed

text \<open>What has been written, followed by the pending bits, is the number read so far.\<close>

definition code_state :: "nat \<Rightarrow> uint32 \<Rightarrow> nat \<Rightarrow> string \<Rightarrow> bool" where
  "code_state v acc bits out \<longleftrightarrow>
     crockford out * 2 ^ bits + unat acc mod 2 ^ bits = v \<and> set out \<subseteq> set codeAlphabet"

lemma mod_split: "(a div 2 ^ b mod 32) * 2 ^ b + a mod 2 ^ b = a mod 2 ^ (b + 5 :: nat)" for a :: nat
  using mod_mult2_eq [of a "2 ^ b" 32] by (simp add: power_add mult.commute)

lemma drainBits_state:
  assumes "code_state v acc bits out" "drainBits acc bits out = (bits', out')"
  shows "code_state v acc bits' out' \<and> bits' < 5 \<and> length out' * 5 + bits' = length out * 5 + bits"
  using assms
proof (induction acc bits out rule: drainBits.induct)
  case (1 acc bits out)
  show ?case
  proof (cases "bits \<ge> 5")
    case True
    let ?b = "bits - 5" and ?d = "code_digit (drop_bit (bits - 5) acc)"
    have d: "the (index_of codeAlphabet ?d) = unat acc div 2 ^ ?b mod 32"
      unfolding code_digit(2) unat_drop_bit_eq by (simp add: drop_bit_eq_div)
    have "crockford (out @ [?d]) * 2 ^ ?b + unat acc mod 2 ^ ?b =
        crockford out * 32 * 2 ^ ?b + ((unat acc div 2 ^ ?b mod 32) * 2 ^ ?b + unat acc mod 2 ^ ?b)"
      unfolding crockford_snoc d by (simp add: algebra_simps)
    also have "\<dots> = crockford out * 2 ^ (?b + 5) + unat acc mod 2 ^ (?b + 5)"
      unfolding mod_split by (simp add: power_add)
    also have "\<dots> = v" using "1.prems"(1) True by (simp add: code_state_def)
    finally have "code_state v acc ?b (out @ [?d])"
      using "1.prems"(1) code_digit(1) by (simp add: code_state_def)
    moreover have "drainBits acc ?b (out @ [?d]) = (bits', out')"
      using "1.prems"(2) True by (simp add: drainBits.simps [of acc bits out])
    ultimately show ?thesis using "1.IH" [OF True] True by simp
  next
    case False
    then show ?thesis using "1.prems" by (simp add: drainBits.simps [of acc bits out])
  qed
qed

lemma push_bit_or_byte:
  assumes "y < 256"
  shows "push_bit 8 x OR y = x * 256 + (y :: nat)"
proof -
  have "\<not> bit (push_bit 8 x) n \<or> \<not> bit y n" for n
  proof (cases "n < 8")
    case True
    then show ?thesis by (simp add: bit_push_bit_iff)
  next
    case False
    then have "(2 :: nat) ^ 8 \<le> 2 ^ n" by (intro power_increasing) simp_all
    with assms have "y < 2 ^ n" by simp
    then show ?thesis by (simp add: bit_iff_odd)
  qed
  then show ?thesis by (simp add: disjunctive_add [symmetric] push_bit_eq_mult)
qed

lemma unat_of_char: "unat (of_char b :: uint32) = of_char b"
proof -
  have "(of_char b :: nat) < 2 ^ 32" by (rule less_trans [OF of_char_bound]) simp
  then have "unat (of_nat (of_char b :: nat) :: uint32) = of_char b"
    by (simp add: unsigned_of_nat take_bit_nat_eq_self del: of_nat_of_char)
  then show ?thesis unfolding of_nat_of_char .
qed

lemma push_byte:
  assumes "bits + 8 \<le> 32"
  shows "unat (push_bit 8 acc OR of_char b :: uint32) mod 2 ^ (bits + 8) = (unat acc mod 2 ^ bits) * 256 + of_char b"
proof -
  have "(of_char b :: nat) < 2 ^ 8" using of_char_bound [of b] by simp
  also have "\<dots> \<le> 2 ^ (bits + 8)" by (intro power_increasing) simp_all
  finally have b: "take_bit (bits + 8) (of_char b :: nat) = of_char b" by (rule take_bit_nat_eq_self)
  have "take_bit (bits + 8) (unat (push_bit 8 acc OR of_char b :: uint32)) =
      push_bit 8 (take_bit bits (unat acc)) OR of_char b"
    using assms by (simp add: unsigned_or_eq unsigned_push_bit_eq unat_of_char b min_def take_bit_push_bit)
  also have "\<dots> = take_bit bits (unat acc) * 256 + of_char b"
    by (rule push_bit_or_byte) (rule of_char_bound)
  finally show ?thesis by (simp add: take_bit_eq_mod)
qed

lemma encodeBytes_state:
  assumes "code_state v acc bits out" "bits < 5" "encodeBytes raw acc bits out = (acc', bits', out')"
  shows "code_state (fold (\<lambda>b v. v * 256 + of_char b) raw v) acc' bits' out' \<and> bits' < 5 \<and>
    length out' * 5 + bits' = length out * 5 + bits + 8 * length raw"
  using assms
proof (induction raw arbitrary: v acc bits out)
  case (Cons b raw)
  let ?acc = "push_bit 8 acc OR of_char b :: uint32"
  obtain bits1 out1 where d: "drainBits ?acc (bits + 8) out = (bits1, out1)"
    by (cases "drainBits ?acc (bits + 8) out")
  have "code_state (v * 256 + of_char b) ?acc (bits + 8) out"
    using Cons.prems(1,2) push_byte [of bits acc b]
    by (auto simp: code_state_def power_add algebra_simps)
  from drainBits_state [OF this d] have s: "code_state (v * 256 + of_char b) ?acc bits1 out1" "bits1 < 5"
    "length out1 * 5 + bits1 = length out * 5 + (bits + 8)" by blast+
  have "encodeBytes raw ?acc bits1 out1 = (acc', bits', out')" using Cons.prems(3) d by simp
  from Cons.IH [OF s(1,2) this] s(3) show ?case by simp
qed simp

lemma shift_digit:
  assumes "bits < 5"
  shows "unat (push_bit (5 - bits) acc :: uint32) mod 32 = (unat acc mod 2 ^ bits) * 2 ^ (5 - bits)"
proof -
  have "take_bit 5 (unat (push_bit (5 - bits) acc :: uint32)) = push_bit (5 - bits) (take_bit bits (unat acc))"
    using assms by (simp add: unsigned_push_bit_eq min_def take_bit_push_bit)
  then show ?thesis by (simp add: take_bit_eq_mod push_bit_eq_mult)
qed

text \<open>The 26 characters of a minted code are its 128 bits, and two zero bits.\<close>

lemma NewCode_value:
  assumes "NewCode (Some raw) = Some code" "length raw = CodeBytes"
  shows "length code = 26" "set code \<subseteq> set codeAlphabet" "crockford code = bytes_value raw * 4"
proof -
  obtain acc bits out where e: "encodeBytes raw 0 0 [] = (acc, bits, out)" by (cases "encodeBytes raw 0 0 []")
  have "code_state 0 0 0 []" by (simp add: code_state_def crockford_def)
  from encodeBytes_state [OF this _ e] assms(2)
  have s: "code_state (bytes_value raw) acc bits out" "bits < 5" "length out * 5 + bits = 128"
    by (simp_all add: bytes_value_def CodeBytes_def)
  then have n: "bits = 3" "length out = 25" by presburger+
  have code: "code = out @ [code_digit (push_bit 2 acc)]" using assms(1) e n(1) by (simp add: NewCode_def)
  then show "length code = 26" "set code \<subseteq> set codeAlphabet"
    using n(2) s(1) code_digit(1) by (simp_all add: code_state_def)
  show "crockford code = bytes_value raw * 4"
    using s(1) shift_digit [of 3 acc] unfolding code crockford_snoc code_digit(2) by (simp add: n(1) code_state_def)
qed

lemma bytes_value_bound: "bytes_value (s @ [b]) = bytes_value s * 256 + of_char b"
  by (simp add: bytes_value_def)

lemma bytes_value_inj: "length s = length t \<Longrightarrow> bytes_value s = bytes_value t \<Longrightarrow> s = t"
proof (induction s arbitrary: t rule: rev_induct)
  case (snoc b s)
  then obtain t' c where t: "t = t' @ [c]" by (cases t rule: rev_cases) auto
  from snoc.prems(2) have eq: "bytes_value s * 256 + of_char b = bytes_value t' * 256 + (of_char c :: nat)"
    by (simp add: t bytes_value_bound)
  then have "(bytes_value s * 256 + of_char b) mod 256 = (bytes_value t' * 256 + (of_char c :: nat)) mod 256" by simp
  then have "of_char b = (of_char c :: nat)" using of_char_bound [of b] of_char_bound [of c] by simp
  with eq snoc.IH [of t'] snoc.prems(1) show ?case by (simp add: t)
qed simp

section \<open>Writing a code down\<close>

text \<open>
  A written form of a code: any letter in either case, O for 0, I or L for 1, and ASCII characters
  outside the alphabet (spaces, hyphens, punctuation; not U) anywhere in between.
\<close>

definition separator :: "char \<Rightarrow> bool" where
  "separator c \<longleftrightarrow> is_ascii c \<and> normalizeRune (upper_ascii c) = []"

definition written :: "char \<Rightarrow> char \<Rightarrow> bool" where
  "written c d \<longleftrightarrow> d \<in> set codeAlphabet \<and>
     (c = d \<or> (CHR ''a'' \<le> c \<and> c \<le> CHR ''z'' \<and> upper_ascii c = d) \<or>
      d = CHR ''0'' \<and> c \<in> set ''Oo'' \<or> d = CHR ''1'' \<and> c \<in> set ''IiLl'')"

inductive transcribes :: "string \<Rightarrow> string \<Rightarrow> bool" where
  finished: "transcribes [] []"
| skip: "separator c \<Longrightarrow> transcribes t code \<Longrightarrow> transcribes (c # t) code"
| char: "written c d \<Longrightarrow> transcribes t code \<Longrightarrow> transcribes (c # t) (d # code)"

abbreviation ascii :: "string \<Rightarrow> bool" where
  "ascii s \<equiv> \<forall>c\<in>set s. is_ascii c"

abbreviation norm_ascii :: "string \<Rightarrow> string" where
  "norm_ascii s \<equiv> concat (map (\<lambda>c. normalizeRune (upper_ascii c)) s)"

lemma upper_runes_Cons: "is_ascii a \<Longrightarrow> upper_runes (a # s) = upper_ascii a # upper_runes s"
  by (cases s) (simp_all only: upper_runes.simps if_True)

lemma upper_runes_ascii: "ascii s \<Longrightarrow> upper_runes s = map upper_ascii s"
  by (induction s) (simp_all add: upper_runes_Cons)

lemma space_norm: "space1 c \<Longrightarrow> normalizeRune (upper_ascii c) = []"
proof -
  assume "space1 c"
  then have "c \<in> set [CHR 0x09, CHR 0x0A, CHR 0x0B, CHR 0x0C, CHR 0x0D, CHR 0x20]" by (simp add: space1_def)
  moreover have "list_all (\<lambda>c. normalizeRune (upper_ascii c) = []) [CHR 0x09, CHR 0x0A, CHR 0x0B, CHR 0x0C, CHR 0x0D, CHR 0x20]"
    by code_simp
  ultimately show ?thesis unfolding list_all_iff by blast
qed

lemma ascii_not_wide:
  assumes "is_ascii a"
  shows "\<not> space2 a b" "\<not> space3 a b c" "\<not> space2 b a" "\<not> space3 b c a"
  using assms unfolding space2_def space3_def by (auto simp: is_ascii_def)

lemma ascii_space_prefix: "ascii s \<Longrightarrow> space_prefix s \<noteq> 0 \<Longrightarrow> \<exists>c r. s = c # r \<and> space1 c \<and> space_prefix s = 1"
  by (induction s rule: space_prefix.induct) (auto simp: ascii_not_wide split: if_splits)

lemma ascii_space_suffix: "ascii s \<Longrightarrow> space_suffix s \<noteq> 0 \<Longrightarrow> \<exists>c r. s = c # r \<and> space1 c \<and> space_suffix s = 1"
  by (induction s rule: space_suffix.induct) (auto simp: ascii_not_wide split: if_splits)

lemma norm_trimLeft: "ascii s \<Longrightarrow> norm_ascii (trimLeftSpace s) = norm_ascii s"
proof (induction s rule: trimLeftSpace.induct)
  case (1 s)
  show ?case
  proof (cases "space_prefix s = 0")
    case False
    then obtain c r where s: "s = c # r" "space1 c" "space_prefix s = 1" using ascii_space_prefix "1.prems" by blast
    have "trimLeftSpace s = trimLeftSpace r" unfolding trimLeftSpace.simps [of s] s(3) by (simp add: s(1))
    with 1 False s show ?thesis by (simp add: space_norm)
  qed (simp add: trimLeft_id)
qed

lemma norm_trimRight: "ascii s \<Longrightarrow> norm_ascii (rev (trimRightSpace s)) = norm_ascii (rev s)"
proof (induction s rule: trimRightSpace.induct)
  case (1 s)
  show ?case
  proof (cases "space_suffix s = 0")
    case False
    then obtain c r where s: "s = c # r" "space1 c" "space_suffix s = 1" using ascii_space_suffix "1.prems" by blast
    have "trimRightSpace s = trimRightSpace r" unfolding trimRightSpace.simps [of s] s(3) by (simp add: s(1))
    with 1 False s show ?thesis by (simp add: space_norm)
  qed (simp add: trimRight_id)
qed

lemma NormalizeCode_ascii: "ascii s \<Longrightarrow> NormalizeCode s = norm_ascii s"
proof -
  assume s: "ascii s"
  then have t: "ascii (TrimSpace s)" using set_TrimSpace [of s] by blast
  have "ascii (rev (trimLeftSpace s))" using s set_trimLeft [of s] by auto
  from norm_trimRight [OF this] norm_trimLeft [OF s]
  have "norm_ascii (TrimSpace s) = norm_ascii s" by (simp add: TrimSpace_def)
  then show ?thesis by (simp add: NormalizeCode_def upper_runes_ascii [OF t] comp_def)
qed

lemma alphabet_cases:
  assumes "d \<in> set codeAlphabet"
  shows "is_ascii d" "normalizeRune d = [d]" "upper_ascii d = d"
proof -
  have "list_all (\<lambda>d. is_ascii d \<and> normalizeRune d = [d] \<and> upper_ascii d = d) codeAlphabet" by code_simp
  with assms show "is_ascii d" "normalizeRune d = [d]" "upper_ascii d = d" unfolding list_all_iff by blast+
qed

lemma written_norm:
  assumes "written c d"
  shows "is_ascii c" "normalizeRune (upper_ascii c) = [d]"
proof -
  have d: "d \<in> set codeAlphabet" using assms by (simp add: written_def)
  have zero: "list_all (\<lambda>c. is_ascii c \<and> normalizeRune (upper_ascii c) = ''0'') ''Oo''"
    and one: "list_all (\<lambda>c. is_ascii c \<and> normalizeRune (upper_ascii c) = ''1'') ''IiLl''" by code_simp+
  have lower: "is_ascii c" if "CHR ''a'' \<le> c" "c \<le> CHR ''z''"
    using that by (simp add: is_ascii_def less_eq_char_def)
  from assms consider "c = d" | "CHR ''a'' \<le> c" "c \<le> CHR ''z''" "upper_ascii c = d"
    | "d = CHR ''0''" "c \<in> set ''Oo''" | "d = CHR ''1''" "c \<in> set ''IiLl''"
    unfolding written_def by blast
  then have "is_ascii c \<and> normalizeRune (upper_ascii c) = [d]"
  proof cases
    case 3
    with zero show ?thesis unfolding list_all_iff by blast
  next
    case 4
    with one show ?thesis unfolding list_all_iff by blast
  qed (use alphabet_cases [OF d] lower in simp_all)
  then show "is_ascii c" "normalizeRune (upper_ascii c) = [d]" by blast+
qed

lemma transcribes_norm: "transcribes t code \<Longrightarrow> ascii t \<and> norm_ascii t = code"
  by (induction rule: transcribes.induct) (auto simp: separator_def written_norm)

lemma transcribes_self: "set code \<subseteq> set codeAlphabet \<Longrightarrow> transcribes code code"
  by (induction code) (auto intro: transcribes.intros simp: written_def)

lemma transcribes_alphabet: "transcribes t code \<Longrightarrow> set code \<subseteq> set codeAlphabet"
  by (induction rule: transcribes.induct) (auto simp: written_def)

lemma transcribes_NormalizeCode: "transcribes t code \<Longrightarrow> NormalizeCode t = code"
  using transcribes_norm [of t code] by (simp add: NormalizeCode_ascii)

lemma transcribes_key: "transcribes t code \<Longrightarrow> KeyFromCode cr t = KeyFromCode cr code"
  using transcribes_NormalizeCode [OF transcribes_self [OF transcribes_alphabet]]
  by (simp add: KeyFromCode_def transcribes_NormalizeCode)

end
