(* ===== verification/Admission_Props.thy ===== *)
theory Admission_Props
  imports Admission_Inv Admission_Code
begin

text \<open>The properties of the admission gate's tables, codes and credentials.\<close>

section \<open>Concrete inputs\<close>

definition ga_ex_rng :: "string fset \<Rightarrow> string list" where
  "ga_ex_rng = sorted_list_of_fset"

text \<open>A toy signature scheme: the public key is the seed, the signature is 64 bytes of padding.\<close>

definition ga_ex_crypto :: crypto where
  "ga_ex_crypto = \<lparr>cr_sha256 = (\<lambda>_. replicate 32 CHR ''k''), cr_public = (\<lambda>seed. seed),
     cr_sign = (\<lambda>seed m. replicate 64 CHR ''s''), cr_verify = (\<lambda>pub m sig. sig = replicate 64 CHR ''s'')\<rparr>"

definition ga_ex_history :: "gate_request list" where
  "ga_ex_history = [OpenReq 5 (Some ''abc'') ''circle'', OpenReq 6 (Some ''abd'') ''circle'', ChallengeReq 7 (Some ''xyz''),
     ResolveReq 8 ''YWJj'']"

definition ga_ex_run :: "gate_event list \<times> Sessions" where
  "ga_ex_run = trace (gate_step ga_ex_rng ga_ex_crypto) ga_ex_history NewSessions"

section \<open>Challenges\<close>

text \<open>
  C11. A nonce is good for one proof: along every history of calls, it is accepted at most as often as it
  was issued, and only within 30 seconds of an issue, whatever proofs are tried in between.
\<close>

theorem nonce_single_use:
  assumes "trace (gate_step rng cr) rs NewSessions = (es, s)"
  shows "count_fst (nonces_proved es) n \<le> count_fst (nonces_issued es) n \<and>
    ((n, t) \<in> set (nonces_proved es) \<longrightarrow> (\<exists>t0. (n, t0) \<in> set (nonces_issued es) \<and> t < t0 + nonceTTL))"
proof -
  have "nonce_books [] NewSessions" by (simp add: nonce_books_def NewSessions_def held_def)
  from gate_nonces.trace_inv [OF this _ assms] have "nonce_books es s" by (simp add: list_all_iff)
  then show ?thesis unfolding nonce_books_def by (auto dest: spec [of _ n])
qed

theorem nonce_single_use_witness:
  "count_fst (nonces_proved (fst ga_ex_run)) ''eHl6'' \<le> count_fst (nonces_issued (fst ga_ex_run)) ''eHl6''"
  using nonce_single_use [of ga_ex_rng ga_ex_crypto ga_ex_history "fst ga_ex_run" "snd ga_ex_run" "''eHl6''"]
  by (simp add: ga_ex_run_def)

section \<open>Sessions\<close>

lemma gate_start: "gate_bounded NewSessions" "list_books [] NewSessions"
  by (simp_all add: gate_bounded_def list_books_def session_books_def lists_ok_def tokens_ok_def tokensOf_def
      NewSessions_def maxNonces_def adm_maxSessions_def maxSessionsPerCredential_def)

text \<open>
  C36. Along every history in which no two sessions drew the same random token: both tables stay
  within their caps, every circle's token list is exactly its live tokens and at most 128 long, a
  token resolves only to the credential a session under it was opened for, less than 15 minutes
  ago, and forgetting a credential leaves no token that resolves to it.
\<close>

theorem session_tables:
  assumes "trace (gate_step rng cr) rs NewSessions = (es, s)" "distinct (tokens_drawn es)"
  shows "gate_bounded s \<and> lists_ok s \<and>
    (fst (Resolve now token s) = Inr c \<longrightarrow> (\<exists>t. SessionOpened token c t \<in> set es \<and> now < t + sessionTTL)) \<and>
    fst (Resolve now token (Forget c s)) \<noteq> Inr c"
proof -
  have bounded: "gate_bounded s" using gate_bounds.run_keeps [OF gate_start(1), of rs rng cr] assms(1) by (simp add: list_all_iff)
  from gate_lists.trace_inv [OF gate_start(2) _ assms(1)] assms(2)
  have books: "session_books es s" and lists: "lists_ok s" by (simp_all add: list_books_def list_all_iff)
  have res: "\<exists>t. SessionOpened token c t \<in> set es \<and> now < t + sessionTTL" if "fst (Resolve now token s) = Inr c"
  proof -
    obtain a s' where call: "Resolve now token s = (a, s')" by (cases "Resolve now token s")
    from call show ?thesis
    proof (cases rule: Resolve_cases)
      case (live e)
      with that call books have "SessionOpened token c (en_expiresAt e - sessionTTL) \<in> set es"
        by (auto simp: session_books_def)
      with live(2) show ?thesis by (intro exI [of _ "en_expiresAt e - sessionTTL"]) simp
    qed (use that call in simp_all)
  qed
  have "fst (Resolve now token (Forget c s)) \<noteq> Inr c"
  proof
    assume a: "fst (Resolve now token (Forget c s)) = Inr c"
    obtain r s' where call: "Resolve now token (Forget c s) = (r, s')" by (cases "Resolve now token (Forget c s)")
    from call show False
    proof (cases rule: Resolve_cases)
      case (live e)
      then have "fmlookup (ss_sessions s) token = Some e" "token \<notin> set (tokensOf s c)" "en_credentialID e = c"
        using a call by (auto simp: Forget_def lookup_fold_drop split: if_splits)
      with lists show False by (auto simp: lists_ok_def tokens_ok_def)
    qed (use a call in simp_all)
  qed
  with bounded lists res show ?thesis by blast
qed

theorem session_tables_witness:
  "lists_ok (snd ga_ex_run) \<and> fst (Resolve 9 ''YWJj'' (Forget ''circle'' (snd ga_ex_run))) \<noteq> Inr ''circle''"
proof -
  have "tokens_drawn (fst ga_ex_run) = [''YWJj'', ''YWJk'']" by code_simp
  then have "distinct (tokens_drawn (fst ga_ex_run))" by simp
  from session_tables [OF _ this, of ga_ex_rng ga_ex_crypto ga_ex_history "snd ga_ex_run"]
  show ?thesis by (simp add: ga_ex_run_def)
qed

section \<open>Codes\<close>

definition ga_ex_raw :: string where
  "ga_ex_raw = ''0123456789abcdef''"

definition ga_ex_code :: string where
  "ga_ex_code = the (NewCode (Some ga_ex_raw))"

text \<open>
  C37. A minted code is 26 characters of the alphabet, no two draws of 16 bytes mint the same code,
  and however the code is written down (either case, O for 0, I or L for 1, separators anywhere)
  normalising gives the code back, so the written form derives the key of the code.
\<close>

theorem code_roundtrip:
  assumes "NewCode (Some raw) = Some code" "length raw = CodeBytes" "transcribes written_form code"
  shows "length code = 26 \<and> set code \<subseteq> set codeAlphabet \<and> NormalizeCode written_form = code \<and>
    KeyFromCode cr written_form = KeyFromCode cr code \<and>
    (length raw' = CodeBytes \<longrightarrow> NewCode (Some raw') = Some code \<longrightarrow> raw' = raw)"
proof -
  note v = NewCode_value [OF assms(1,2)]
  have "raw' = raw" if "length raw' = CodeBytes" "NewCode (Some raw') = Some code"
    using NewCode_value(3) [OF that(2,1)] v(3) that(1) assms(2) bytes_value_inj [of raw' raw] by simp
  then show ?thesis
    using v transcribes_NormalizeCode [OF assms(3)] transcribes_key [OF assms(3), of cr] by auto
qed

theorem code_roundtrip_witness:
  "length ga_ex_code = 26 \<and> NormalizeCode (CHR ''-'' # ga_ex_code) = ga_ex_code"
proof -
  have mint: "NewCode (Some ga_ex_raw) = Some ga_ex_code" by code_simp
  have "length ga_ex_raw = CodeBytes" by code_simp
  note chars = NewCode_value(2) [OF mint this]
  have "separator (CHR ''-'')" by code_simp
  then have "transcribes (CHR ''-'' # ga_ex_code) ga_ex_code"
    by (rule transcribes.skip) (rule transcribes_self [OF chars])
  from code_roundtrip [OF mint \<open>length ga_ex_raw = CodeBytes\<close> this] show ?thesis by simp
qed

section \<open>Grants\<close>

definition ga_ex_key :: string where
  "ga_ex_key =
     [CHR 0x00, CHR 0x00, CHR 0x00, CHR 0x00, CHR 0x00, CHR 0x00, CHR 0x00, CHR 0x00, CHR 0x00, CHR 0x00,
      CHR 0x00, CHR 0x00, CHR 0x00, CHR 0x00, CHR 0x00, CHR 0x00, CHR 0x00, CHR 0x00, CHR 0x00, CHR 0x00,
      CHR 0x00, CHR 0x00, CHR 0x00, CHR 0x00, CHR 0x00, CHR 0x00, CHR 0x00, CHR 0x00, CHR 0x00, CHR 0x00,
      CHR 0x00, CHR 0x00]"

definition ga_ex_credential :: Credential where
  "ga_ex_credential = \<lparr>cred_ID = ''AAAAAAAAAAAAAAAAAAAAAAAAAAAAAAAAAAAAAAAAAAA'', cred_Terms = zero_Terms\<lparr>te_NotAfter := 100\<rparr>\<rparr>"


lemma char_of_0: "char_of (0 :: nat) = CHR 0x00"
  by code_simp

lemma ga_ex_decode:
  "b64url_decode (cred_ID ga_ex_credential) = Some ga_ex_key"
  by (simp add: ga_ex_credential_def ga_ex_key_def b64url_decode_def b64_value_def b64url_alphabet_def Let_def char_of_0)

lemma ga_ex_valid: "validateCredential ga_ex_credential = None"
  by (simp add: validateCredential_def ga_ex_decode, simp add: ga_ex_key_def ga_ex_credential_def zero_Terms_def)


section \<open>Two names for one key\<close>

text \<open>
  The last character of an id carries two bits that decoding ignores, so one key has four ids, and a
  file may give each of them terms of its own: the check for duplicates compares the ids.
\<close>

definition ga_ex_alias :: Credential where
  "ga_ex_alias = \<lparr>cred_ID = ''AAAAAAAAAAAAAAAAAAAAAAAAAAAAAAAAAAAAAAAAAAB'', cred_Terms = zero_Terms\<lparr>te_NotAfter := 200\<rparr>\<rparr>"

theorem credential_alias:
  "cred_ID ga_ex_alias \<noteq> cred_ID ga_ex_credential \<and>
   b64url_decode (cred_ID ga_ex_alias) = b64url_decode (cred_ID ga_ex_credential) \<and>
   ParseCredentials [ga_ex_credential, ga_ex_alias] = Inr [ga_ex_credential, ga_ex_alias]"
proof -
  have dec: "b64url_decode (cred_ID ga_ex_alias) = Some ga_ex_key"
    by (simp add: ga_ex_alias_def ga_ex_key_def b64url_decode_def b64_value_def b64url_alphabet_def Let_def char_of_0)
  have valid: "validateCredential ga_ex_alias = None"
    by (simp add: validateCredential_def dec, simp add: ga_ex_key_def ga_ex_alias_def zero_Terms_def)
  have "cred_ID ga_ex_credential < cred_ID ga_ex_alias" by (simp add: ga_ex_credential_def ga_ex_alias_def)
  then show ?thesis using dec valid by (auto simp: ParseCredentials_def ga_ex_valid ga_ex_decode)
qed

end
