(* ===== verification/Go_Text.thy ===== *)
theory Go_Text
  imports Prelude
begin

text \<open>
  The parts of \<open>strings\<close>, \<open>strconv\<close> and \<open>time\<close> by which the relay reads headers, query parameters
  and environment variables: splitting into fields, decimal numbers, flags and durations.
\<close>

section \<open>Splitting and trimming\<close>

text \<open>
  \<open>strings.Fields\<close>: the maximal runs of bytes between white space. The bytes that begin a space of
  two or three bytes never continue a rune, so looking for a space at each byte finds the same
  spaces as decoding runes does.
\<close>

fun fieldsFrom :: "string \<Rightarrow> string \<Rightarrow> string list" where
  "fieldsFrom word [] = (if word = [] then [] else [rev word])"
| "fieldsFrom word (c # s) =
     (if space_prefix (c # s) \<noteq> 0
      then (if word = [] then [] else [rev word]) @ fieldsFrom [] (drop (space_prefix (c # s) - 1) s)
      else fieldsFrom (c # word) s)"

definition Fields :: "string \<Rightarrow> string list" where
  "Fields s = fieldsFrom [] s"

lemma fieldsFrom_nonempty: "w \<in> set (fieldsFrom word s) \<Longrightarrow> w \<noteq> []"
  by (induction word s rule: fieldsFrom.induct) (auto split: if_splits)

lemma Fields_nonempty: "[] \<notin> set (Fields s)"
  using fieldsFrom_nonempty by (auto simp: Fields_def)

lemma Fields_Nil [simp]: "Fields [] = []"
  by (simp add: Fields_def)

text \<open>\<open>strings.Split\<close> at one byte, and \<open>strings.TrimRight\<close> of one byte.\<close>

fun splitAt :: "char \<Rightarrow> string \<Rightarrow> string list" where
  "splitAt c [] = [[]]"
| "splitAt c (x # s) =
     (if x = c then [] # splitAt c s
      else case splitAt c s of [] \<Rightarrow> [[x]] | w # ws \<Rightarrow> (x # w) # ws)"

definition trimRightByte :: "char \<Rightarrow> string \<Rightarrow> string" where
  "trimRightByte c s = rev (dropWhile (\<lambda>x. x = c) (rev s))"

section \<open>Decimal numbers\<close>

definition is_digit :: "char \<Rightarrow> bool" where
  "is_digit c \<longleftrightarrow> CHR ''0'' \<le> c \<and> c \<le> CHR ''9''"

definition digit_value :: "char \<Rightarrow> nat" where
  "digit_value c = of_char c - 48"

definition decimal :: "string \<Rightarrow> nat" where
  "decimal s = foldl (\<lambda>n c. n * 10 + digit_value c) 0 s"

definition numeric :: "string \<Rightarrow> bool" where
  "numeric s \<longleftrightarrow> s \<noteq> [] \<and> list_all is_digit s"

text \<open>\<open>strconv.Atoi\<close> on a 64-bit machine: an optional sign, digits, and the range of \<open>int\<close>.\<close>

definition Atoi :: "string \<Rightarrow> int option" where
  "Atoi s =
     (case s of
        [] \<Rightarrow> None
      | c # r \<Rightarrow>
          let neg = (c = CHR ''-''); digits = (if c = CHR ''-'' \<or> c = CHR ''+'' then r else s) in
          if \<not> numeric digits then None
          else if neg then (if decimal digits \<le> 2 ^ 63 then Some (- int (decimal digits)) else None)
          else if decimal digits < 2 ^ 63 then Some (int (decimal digits)) else None)"

definition ParseUint :: "string \<Rightarrow> uint64 option" where
  "ParseUint s =
     (if \<not> numeric s then None
      else if decimal s < 2 ^ 64 then Some (of_nat (decimal s)) else None)"

definition digit_char :: "nat \<Rightarrow> char" where
  "digit_char d = char_of (48 + d)"

fun formatNat :: "nat \<Rightarrow> string" where
  "formatNat n = (if n < 10 then [digit_char n] else formatNat (n div 10) @ [digit_char (n mod 10)])"

declare formatNat.simps [simp del]

definition FormatUint :: "uint64 \<Rightarrow> string" where
  "FormatUint w = formatNat (unat w)"

definition ParseBool :: "string \<Rightarrow> bool option" where
  "ParseBool s =
     (if s \<in> set [''1'', ''t'', ''T'', ''true'', ''TRUE'', ''True''] then Some True
      else if s \<in> set [''0'', ''f'', ''F'', ''false'', ''FALSE'', ''False''] then Some False
      else None)"

lemma digit_round: "d < 10 \<Longrightarrow> is_digit (digit_char d) \<and> digit_value (digit_char d) = d"
  by (simp add: is_digit_def digit_value_def digit_char_def less_eq_char_def)

lemma decimal_snoc: "decimal (s @ [c]) = decimal s * 10 + digit_value c"
  by (simp add: decimal_def)

lemma formatNat_round: "numeric (formatNat n) \<and> decimal (formatNat n) = n"
proof (induction n rule: formatNat.induct)
  case (1 n)
  show ?case
  proof (cases "n < 10")
    case True
    with digit_round [OF True] show ?thesis
      by (simp add: formatNat.simps [of n] numeric_def decimal_def)
  next
    case False
    with 1 digit_round [of "n mod 10"] show ?thesis
      by (simp add: formatNat.simps [of n] numeric_def decimal_snoc)
  qed
qed

lemma ParseUint_FormatUint: "ParseUint (FormatUint w) = Some w"
proof -
  have "unat w < 2 ^ 64" using unsigned_less [of w] by simp
  then show ?thesis using formatNat_round [of "unat w"] by (simp add: ParseUint_def FormatUint_def)
qed

lemma FormatUint_inj: "FormatUint v = FormatUint w \<longleftrightarrow> v = w"
  by (metis ParseUint_FormatUint option.inject)

lemma Atoi_range: "Atoi s = Some n \<Longrightarrow> - (2 ^ 63) \<le> n \<and> n < 2 ^ 63"
  by (auto simp: Atoi_def Let_def split: list.splits if_splits)

section \<open>Durations\<close>

text \<open>
  \<open>time.ParseDuration\<close>. The product that adds a fraction of a unit is computed in \<open>float64\<close>; its
  value, cut off to an integer, is the parameter \<open>fl\<close> of the digits of the fraction, the unit and
  the power of ten they are over.
\<close>

definition unitNanos :: "string \<Rightarrow> nat option" where
  "unitNanos u =
     (if u = ''ns'' then Some 1
      else if u \<in> set [''us'', [CHR 0xC2, CHR 0xB5, CHR ''s''], [CHR 0xCE, CHR 0xBC, CHR ''s'']] then Some 1000
      else if u = ''ms'' then Some 1000000
      else if u = ''s'' then Some 1000000000
      else if u = ''m'' then Some 60000000000
      else if u = ''h'' then Some 3600000000000
      else None)"

fun leadingInt :: "string \<Rightarrow> nat \<Rightarrow> (nat \<times> string) option" where
  "leadingInt [] x = Some (x, [])"
| "leadingInt (c # s) x =
     (if \<not> is_digit c then Some (x, c # s)
      else if x > 2 ^ 63 div 10 then None
      else let x = x * 10 + digit_value c in if x > 2 ^ 63 then None else leadingInt s x)"

fun leadingFraction :: "string \<Rightarrow> nat \<Rightarrow> nat \<Rightarrow> bool \<Rightarrow> nat \<times> nat \<times> string" where
  "leadingFraction [] x scale overflow = (x, scale, [])"
| "leadingFraction (c # s) x scale overflow =
     (if \<not> is_digit c then (x, scale, c # s)
      else if overflow \<or> x > (2 ^ 63 - 1) div 10 then leadingFraction s x scale True
      else let y = x * 10 + digit_value c in
           if y > 2 ^ 63 then leadingFraction s x scale True else leadingFraction s y (scale * 10) False)"

text \<open>One number with its unit, from the front of a non-empty text: its nanoseconds and the rest.\<close>

definition durationPart :: "(nat \<Rightarrow> nat \<Rightarrow> nat \<Rightarrow> nat) \<Rightarrow> string \<Rightarrow> (nat \<times> string) option" where
  "durationPart fl s =
     (if \<not> (hd s = CHR ''.'' \<or> is_digit (hd s)) then None
      else case leadingInt s 0 of
             None \<Rightarrow> None
           | Some (v, s1) \<Rightarrow>
               let pre = (length s1 \<noteq> length s);
                   dot = (s1 \<noteq> [] \<and> hd s1 = CHR ''.'');
                   (f, scale, s2) = (if dot then leadingFraction (tl s1) 0 1 False else (0, 1, s1));
                   post = (dot \<and> length s2 \<noteq> length (tl s1));
                   u = takeWhile (\<lambda>c. c \<noteq> CHR ''.'' \<and> \<not> is_digit c) s2;
                   rest = drop (length u) s2
               in if \<not> pre \<and> \<not> post \<or> u = [] then None
                  else case unitNanos u of
                         None \<Rightarrow> None
                       | Some unit \<Rightarrow>
                           if v > 2 ^ 63 div unit then None
                           else let w = (if f > 0 then v * unit + fl f unit scale else v * unit)
                                in if f > 0 \<and> w > 2 ^ 63 then None else Some (w, rest))"

text \<open>The loop of the parser; a part is never empty, so the length of the text is enough fuel.\<close>

fun durationParts :: "nat \<Rightarrow> (nat \<Rightarrow> nat \<Rightarrow> nat \<Rightarrow> nat) \<Rightarrow> string \<Rightarrow> nat \<Rightarrow> nat option" where
  "durationParts fuel fl [] d = Some d"
| "durationParts 0 fl (c # s) d = None"
| "durationParts (Suc fuel) fl (c # s) d =
     (case durationPart fl (c # s) of
        None \<Rightarrow> None
      | Some (v, rest) \<Rightarrow>
          let d = (d + v) mod 2 ^ 64 in if d > 2 ^ 63 then None else durationParts fuel fl rest d)"

definition ParseDuration :: "(nat \<Rightarrow> nat \<Rightarrow> nat \<Rightarrow> nat) \<Rightarrow> string \<Rightarrow> duration option" where
  "ParseDuration fl s =
     (let neg = (s \<noteq> [] \<and> hd s = CHR ''-'');
          s = (if s \<noteq> [] \<and> (hd s = CHR ''-'' \<or> hd s = CHR ''+'') then tl s else s)
      in if s = ''0'' then Some 0
         else if s = [] then None
         else case durationParts (length s) fl s 0 of
                None \<Rightarrow> None
              | Some d \<Rightarrow>
                  if neg then Some (- int d) else if d > 2 ^ 63 - 1 then None else Some (int d))"

text \<open>The fuel suffices: more of it never changes the answer.\<close>

lemma leadingInt_length: "leadingInt s x = Some (v, r) \<Longrightarrow> length r \<le> length s"
  by (induction s x rule: leadingInt.induct) (auto simp: Let_def split: if_splits)

lemma leadingFraction_length: "leadingFraction s x k b = (f, k', r) \<Longrightarrow> length r \<le> length s"
  by (induction s x k b arbitrary: f rule: leadingFraction.induct) (fastforce simp: Let_def split: if_splits)+

lemma durationPart_shorter: "durationPart fl (c # s) = Some (v, rest) \<Longrightarrow> length rest < length (c # s)"
proof -
  assume part: "durationPart fl (c # s) = Some (v, rest)"
  then obtain v1 s1 where li: "leadingInt (c # s) 0 = Some (v1, s1)"
    unfolding durationPart_def by (auto split: if_splits option.splits)
  obtain f k s2 where lf: "(if s1 \<noteq> [] \<and> hd s1 = CHR ''.'' then leadingFraction (tl s1) 0 1 False else (0, 1, s1)) = (f, k, s2)"
    using prod_cases3 by blast
  let ?u = "takeWhile (\<lambda>c. c \<noteq> CHR ''.'' \<and> \<not> is_digit c) s2"
  have s2: "length s2 \<le> length s1" using lf leadingFraction_length [of "tl s1" 0 1 False f k s2] by (auto split: if_splits)
  have "rest = drop (length ?u) s2" "?u \<noteq> []"
    using part unfolding durationPart_def li option.case prod.case Let_def lf by (auto split: if_splits option.splits)
  moreover have "?u \<noteq> [] \<Longrightarrow> s2 \<noteq> []" by auto
  ultimately show ?thesis using s2 leadingInt_length [OF li] by (cases s2) auto
qed

lemma durationParts_fuel: "length s \<le> n \<Longrightarrow> length s \<le> m \<Longrightarrow> durationParts n fl s d = durationParts m fl s d"
proof (induction n fl s d arbitrary: m rule: durationParts.induct)
  case (3 n fl c s d)
  then obtain m' where m: "m = Suc m'" by (cases m) auto
  show ?case
  proof (cases "durationPart fl (c # s)")
    case (Some p)
    obtain v rest where p: "p = (v, rest)" by (cases p)
    have "length rest \<le> n" "length rest \<le> m'"
      using durationPart_shorter [of fl c s v rest] Some p "3.prems" m by simp_all
    then have "\<not> (d + v) mod 2 ^ 64 > 2 ^ 63 \<Longrightarrow>
        durationParts n fl rest ((d + v) mod 2 ^ 64) = durationParts m' fl rest ((d + v) mod 2 ^ 64)"
      using "3.IH" [OF Some p [symmetric] refl] by blast
    then show ?thesis
      unfolding m durationParts.simps Some option.case p prod.case Let_def by (rule if_cong [OF refl refl])
  qed (simp add: m)
qed auto

end
