(* ===== verification/Go_Net.thy ===== *)
theory Go_Net
  imports Prelude
begin

unbundle bit_operations_syntax

text \<open>
  What the relay uses of \<open>net\<close> and \<open>net/url\<close>. An address is its bytes, four or sixteen of them, and
  the tests of its kind are written out; the parsers of addresses and URLs are arguments, collected
  in a record.
\<close>

type_synonym IP = "8 word list"

definition To4 :: "IP \<Rightarrow> IP option" where
  "To4 ip =
     (if length ip = 4 then Some ip
      else if length ip = 16 \<and> take 12 ip = replicate 10 0 @ [255, 255] then Some (drop 12 ip)
      else None)"

definition To16 :: "IP \<Rightarrow> IP" where
  "To16 ip = (if length ip = 4 then replicate 10 0 @ [255, 255] @ ip else ip)"

text \<open>\<open>IP.Equal\<close>: an IPv4 address and its IPv6 form are equal.\<close>

definition ip_Equal :: "IP \<Rightarrow> IP \<Rightarrow> bool" where
  "ip_Equal ip x \<longleftrightarrow>
     (if length ip = length x then ip = x
      else if length ip = 4 \<and> length x = 16 \<or> length ip = 16 \<and> length x = 4 then To16 ip = To16 x
      else False)"

definition IsUnspecified :: "IP \<Rightarrow> bool" where
  "IsUnspecified ip \<longleftrightarrow> ip_Equal ip (To16 (replicate 4 0)) \<or> ip_Equal ip (replicate 16 0)"

definition IsLoopback :: "IP \<Rightarrow> bool" where
  "IsLoopback ip \<longleftrightarrow>
     (case To4 ip of Some b \<Rightarrow> b ! 0 = 127 | None \<Rightarrow> ip_Equal ip (replicate 15 0 @ [1]))"

definition IsPrivate :: "IP \<Rightarrow> bool" where
  "IsPrivate ip \<longleftrightarrow>
     (case To4 ip of
        Some b \<Rightarrow> b ! 0 = 10 \<or> b ! 0 = 172 \<and> b ! 1 AND 0xF0 = 16 \<or> b ! 0 = 192 \<and> b ! 1 = 168
      | None \<Rightarrow> length ip = 16 \<and> ip ! 0 AND 0xFE = 0xFC)"

definition IsLinkLocalUnicast :: "IP \<Rightarrow> bool" where
  "IsLinkLocalUnicast ip \<longleftrightarrow>
     (case To4 ip of
        Some b \<Rightarrow> b ! 0 = 169 \<and> b ! 1 = 254
      | None \<Rightarrow> length ip = 16 \<and> ip ! 0 = 0xFE \<and> ip ! 1 AND 0xC0 = 0x80)"

definition IsMulticast :: "IP \<Rightarrow> bool" where
  "IsMulticast ip \<longleftrightarrow>
     (case To4 ip of
        Some b \<Rightarrow> b ! 0 AND 0xF0 = 0xE0
      | None \<Rightarrow> length ip = 16 \<and> ip ! 0 = 0xFF)"

text \<open>
  A parsed URL: the parts that are read or set. The query is the first value of each key, empty
  where there is none. \<open>nl_withHost\<close> is the text of a URL with its host replaced.
\<close>

record url =
  ur_Scheme :: string
  ur_Host :: string
  ur_Hostname :: string
  ur_Port :: string
  ur_Path :: string
  ur_Query :: "string \<Rightarrow> string"

record netlib =
  nl_SplitHostPort :: "string \<Rightarrow> (string \<times> string) option"
  nl_ParseIP :: "string \<Rightarrow> IP option"
  nl_ParseURL :: "string \<Rightarrow> url option"
  nl_IPString :: "IP \<Rightarrow> string"
  nl_withHost :: "url \<Rightarrow> string \<Rightarrow> string"

lemma To4_To16: "length ip = 4 \<Longrightarrow> To4 (To16 ip) = Some ip"
  by (simp add: To4_def To16_def)

lemma To4_length: "To4 ip = Some b \<Longrightarrow> length b = 4"
  by (auto simp: To4_def split: if_splits)

end
