(* ===== verification/Config.thy ===== *)
theory Config
  imports Go_Text Go_Net
begin

text \<open>
  \<open>internal/config\<close>: the configuration of a relay, how it is read from the environment
  (\<open>config.go\<close>), and the pass that refuses to boot on it (\<open>validate.go\<close>). The environment is a
  function from names to values, empty where a name is unset.
\<close>

section \<open>Reading the environment\<close>

record Config =
  c_NodeID :: string
  c_Addr :: string
  c_PublicURL :: string
  c_MeshAddr :: string
  c_MeshPeers :: "string list"
  c_MeshSecret :: string
  c_MaxMessages :: int
  c_MaxAcks :: int
  c_MaxPurges :: int
  c_MaxPerPair :: int
  c_MaxPayloadBytes :: int
  c_MaxTTL :: duration
  c_MaxChunkBytes :: int
  c_MaxAttachmentBytes :: int
  c_RelayMaxWindow :: int
  c_RelayMaxSessions :: int
  c_RelayIdleTimeout :: duration
  c_RelayPollTimeout :: duration
  c_BodyReadTimeout :: duration
  c_IdleTimeout :: duration
  c_DefaultTTL :: duration
  c_CleanupInterval :: duration
  c_MeshSyncInterval :: duration
  c_MeshRequestTimeout :: duration
  c_PrekeyClaimBurst :: int
  c_PrekeyClaimRefill :: duration
  c_MaxPrekeyBuckets :: int
  c_RequireFetchAuth :: bool
  c_AdmissionFile :: string
  c_RequireAdmission :: bool

definition MeshEnabled :: "Config \<Rightarrow> bool" where
  "MeshEnabled c \<longleftrightarrow> c_MeshSecret c \<noteq> []"

type_synonym environ = "string \<Rightarrow> string"

definition envString :: "environ \<Rightarrow> string \<Rightarrow> string \<Rightarrow> string" where
  "envString env key fallback =
     (let v = TrimSpace (env key) in if v \<noteq> [] then v else fallback)"

definition envInt :: "environ \<Rightarrow> string \<Rightarrow> int \<Rightarrow> int" where
  "envInt env key fallback =
     (let v = TrimSpace (env key) in
      if v = [] then fallback
      else case Atoi v of
             None \<Rightarrow> fallback
           | Some parsed \<Rightarrow> if parsed \<le> 0 then fallback else parsed)"

definition envBool :: "environ \<Rightarrow> string \<Rightarrow> bool \<Rightarrow> bool" where
  "envBool env key fallback =
     (let v = TrimSpace (env key) in
      if v = [] then fallback
      else case ParseBool v of None \<Rightarrow> fallback | Some parsed \<Rightarrow> parsed)"

definition envDuration :: "(nat \<Rightarrow> nat \<Rightarrow> nat \<Rightarrow> nat) \<Rightarrow> environ \<Rightarrow> string \<Rightarrow> duration \<Rightarrow> duration" where
  "envDuration fl env key fallback =
     (let v = TrimSpace (env key) in
      if v = [] then fallback
      else case ParseDuration fl v of
             None \<Rightarrow> fallback
           | Some parsed \<Rightarrow> if parsed \<le> 0 then fallback else parsed)"

definition envCSV :: "environ \<Rightarrow> string \<Rightarrow> string list" where
  "envCSV env key =
     (let v = TrimSpace (env key) in
      if v = [] then [] else filter (\<lambda>part. part \<noteq> []) (map TrimSpace (splitAt CHR '','' v)))"

text \<open>
  The default of the ack cap is twice the message cap in 64-bit arithmetic, and wraps for a message
  cap of \<open>2 ^ 62\<close> or more.
\<close>

definition FromEnv :: "(nat \<Rightarrow> nat \<Rightarrow> nat \<Rightarrow> nat) \<Rightarrow> environ \<Rightarrow> Config" where
  "FromEnv fl env =
     (let maxMessages = envInt env ''DEE_NODE_MAX_MESSAGES'' 1000
      in \<lparr>c_NodeID = envString env ''DEE_NODE_ID'' ''local-node'',
          c_Addr = envString env ''DEE_NODE_ADDR'' '':8080'',
          c_PublicURL = envString env ''DEE_NODE_PUBLIC_URL'' ''http://localhost:8080'',
          c_MeshAddr = envString env ''DEE_NODE_MESH_ADDR'' [],
          c_MeshPeers = envCSV env ''DEE_NODE_MESH_PEERS'',
          c_MeshSecret = envString env ''DEE_NODE_MESH_SECRET'' [],
          c_MaxMessages = maxMessages,
          c_MaxAcks = envInt env ''DEE_NODE_MAX_ACKS'' (wrap64 (2 * maxMessages)),
          c_MaxPurges = envInt env ''DEE_NODE_MAX_PURGES'' 1000,
          c_MaxPerPair = envInt env ''DEE_NODE_MAX_PER_PAIR'' 10,
          c_MaxPayloadBytes = envInt env ''DEE_NODE_MAX_PAYLOAD_BYTES'' 8192,
          c_MaxTTL = envDuration fl env ''DEE_NODE_MAX_TTL'' (72 * Hour),
          c_MaxChunkBytes = envInt env ''DEE_NODE_MAX_CHUNK_BYTES'' (1024 * 1024),
          c_MaxAttachmentBytes = envInt env ''DEE_NODE_MAX_ATTACHMENT_BYTES'' (50 * 1024 * 1024),
          c_RelayMaxWindow = envInt env ''DEE_NODE_RELAY_MAX_WINDOW'' 8,
          c_RelayMaxSessions = envInt env ''DEE_NODE_RELAY_MAX_SESSIONS'' 256,
          c_RelayIdleTimeout = envDuration fl env ''DEE_NODE_RELAY_IDLE_TIMEOUT'' (30 * Second),
          c_RelayPollTimeout = envDuration fl env ''DEE_NODE_RELAY_POLL_TIMEOUT'' (25 * Second),
          c_BodyReadTimeout = envDuration fl env ''DEE_NODE_BODY_READ_TIMEOUT'' (20 * Second),
          c_IdleTimeout = envDuration fl env ''DEE_NODE_IDLE_TIMEOUT'' (120 * Second),
          c_DefaultTTL = envDuration fl env ''DEE_NODE_DEFAULT_TTL'' (24 * Hour),
          c_CleanupInterval = envDuration fl env ''DEE_NODE_CLEANUP_INTERVAL'' (30 * Second),
          c_MeshSyncInterval = envDuration fl env ''DEE_NODE_MESH_SYNC_INTERVAL'' (30 * Second),
          c_MeshRequestTimeout = envDuration fl env ''DEE_NODE_MESH_REQUEST_TIMEOUT'' (5 * Second),
          c_PrekeyClaimBurst = envInt env ''DEE_NODE_PREKEY_CLAIM_BURST'' 32,
          c_PrekeyClaimRefill = envDuration fl env ''DEE_NODE_PREKEY_CLAIM_REFILL'' Second,
          c_MaxPrekeyBuckets = envInt env ''DEE_NODE_MAX_PREKEY_BUCKETS'' 5000,
          c_RequireFetchAuth = envBool env ''DEE_NODE_REQUIRE_FETCH_AUTH'' False,
          c_AdmissionFile = envString env ''DEE_NODE_ADMISSION_FILE'' [],
          c_RequireAdmission = envBool env ''DEE_NODE_REQUIRE_ADMISSION'' False\<rparr>)"

section \<open>Validation\<close>

datatype mesh_addr_error = NotHostPort | NoPort | BindsEveryInterface | NotAnIP | PublicAddress

datatype peer_url_error = NotAURL | NoHost | ClearToPublicHost | WrongScheme

datatype config_error =
    TrustedNodesSet
  | SecretWithoutMeshAddr
  | MeshAddrWithoutSecret
  | PeersWithoutSecret
  | BadMeshAddr mesh_addr_error
  | PeerListedTwice string
  | BadPeerURL string peer_url_error
  | PeerIsSelf
  | AckLaneTooSmall
  | AdmissionWithoutFile

definition cgnat_Contains :: "IP \<Rightarrow> bool" where
  "cgnat_Contains ip \<longleftrightarrow>
     (case To4 ip of Some b \<Rightarrow> b ! 0 = 100 \<and> b ! 1 AND 0xC0 = 64 | None \<Rightarrow> False)"

definition isPrivateIP :: "IP \<Rightarrow> bool" where
  "isPrivateIP ip \<longleftrightarrow> (if IsLoopback ip \<or> IsPrivate ip \<or> IsLinkLocalUnicast ip then True else cgnat_Contains ip)"

definition validateMeshAddr :: "netlib \<Rightarrow> string \<Rightarrow> mesh_addr_error list" where
  "validateMeshAddr net addr =
     (case nl_SplitHostPort net addr of
        None \<Rightarrow> [NotHostPort]
      | Some (host, port) \<Rightarrow>
          if port = [] then [NoPort]
          else if host = [] then [BindsEveryInterface]
          else case nl_ParseIP net host of
                 None \<Rightarrow> [NotAnIP]
               | Some ip \<Rightarrow>
                   if IsUnspecified ip then [BindsEveryInterface]
                   else if \<not> isPrivateIP ip then [PublicAddress]
                   else [])"

definition validatePeerURL :: "netlib \<Rightarrow> string \<Rightarrow> peer_url_error list" where
  "validatePeerURL net raw =
     (case nl_ParseURL net raw of
        None \<Rightarrow> [NotAURL]
      | Some parsed \<Rightarrow>
          if ur_Host parsed = [] then [NoHost]
          else if ur_Scheme parsed = ''https'' then []
          else if ur_Scheme parsed = ''http'' then
            (let host = ur_Hostname parsed in
             if (case nl_ParseIP net host of Some ip \<Rightarrow> isPrivateIP ip | None \<Rightarrow> False) then []
             else if host = ''localhost'' then []
             else [ClearToPublicHost])
          else [WrongScheme])"

text \<open>The loop over the peers: the errors found and the set of peers seen.\<close>

fun validatePeers :: "netlib \<Rightarrow> string list \<Rightarrow> string fset \<Rightarrow> config_error list \<times> string fset" where
  "validatePeers net [] seen = ([], seen)"
| "validatePeers net (peer # peers) seen =
     (if peer |\<in>| seen
      then (let (errs, seen) = validatePeers net peers seen in (PeerListedTwice peer # errs, seen))
      else (let (errs, seen) = validatePeers net peers (finsert peer seen)
            in (map (BadPeerURL peer) (validatePeerURL net peer) @ errs, seen)))"

definition Validate :: "netlib \<Rightarrow> environ \<Rightarrow> Config \<Rightarrow> config_error list" where
  "Validate net env c =
     (let (peerErrs, seen) = validatePeers net (c_MeshPeers c) {||} in
      (if TrimSpace (env ''DEE_NODE_TRUSTED_NODES'') \<noteq> [] then [TrustedNodesSet] else []) @
      (if c_MeshSecret c \<noteq> [] \<and> c_MeshAddr c = [] then [SecretWithoutMeshAddr] else []) @
      (if c_MeshAddr c \<noteq> [] \<and> c_MeshSecret c = [] then [MeshAddrWithoutSecret] else []) @
      (if c_MeshPeers c \<noteq> [] \<and> c_MeshSecret c = [] then [PeersWithoutSecret] else []) @
      (if c_MeshAddr c \<noteq> [] then map BadMeshAddr (validateMeshAddr net (c_MeshAddr c)) else []) @
      peerErrs @
      (if c_PublicURL c \<noteq> [] \<and> trimRightByte CHR ''/'' (c_PublicURL c) |\<in>| seen then [PeerIsSelf] else []) @
      (if c_MaxAcks c > 0 \<and> c_MaxMessages c > 0 \<and> c_MaxAcks c \<le> c_MaxMessages c then [AckLaneTooSmall] else []) @
      (if c_RequireAdmission c \<and> c_AdmissionFile c = [] then [AdmissionWithoutFile] else []))"

section \<open>What the environment can give\<close>

lemma envInt_positive: "0 < fallback \<Longrightarrow> 0 < envInt env key fallback"
  by (simp add: envInt_def Let_def split: option.split)

lemma envDuration_positive: "0 < fallback \<Longrightarrow> 0 < envDuration fl env key fallback"
  by (simp add: envDuration_def Let_def split: option.split)

lemma envInt_range: "envInt env key fallback = fallback \<or> envInt env key fallback < 2 ^ 63"
proof (cases "Atoi (TrimSpace (env key))")
  case (Some n)
  from Atoi_range [OF Some] show ?thesis by (simp add: envInt_def Let_def Some)
qed (simp add: envInt_def Let_def)

lemma envCSV_nonempty: "[] \<notin> set (envCSV env key)"
  by (simp add: envCSV_def Let_def)

lemma Hour_pos: "0 < Hour" "0 < Second"
  by (simp_all add: Hour_def Minute_def Second_def)

lemma validatePeers_seen: "snd (validatePeers net peers seen) = seen |\<union>| fset_of_list peers"
  by (induction net peers seen rule: validatePeers.induct) (simp_all add: Let_def case_prod_beta finsert_absorb)

lemma validatePeers_ok:
  "fst (validatePeers net peers seen) = [] \<longleftrightarrow>
     distinct peers \<and> (\<forall>p\<in>set peers. p |\<notin>| seen \<and> validatePeerURL net p = [])"
  by (induction net peers seen rule: validatePeers.induct) (auto simp: Let_def case_prod_beta)

end
