(* ===== verification/Http.thy ===== *)
theory Http
  imports Go_Text
begin

text \<open>
  Requests and replies. A request gives the first value of a header and of a query parameter, empty
  where there is none (\<open>Header.Get\<close>, \<open>Query().Get\<close>). A body is known by what reading it yields:
  the number of bytes the JSON decoder has to read before it can answer, and its answer.
\<close>

datatype decode_error =
    MalformedJSON
  | BodyTooLarge int
  | BodyStalled

record 'a body =
  bo_present :: bool
  bo_ContentLength :: int
  bo_needed :: int
  bo_result :: "decode_error + 'a"

text \<open>
  \<open>decodeJSON\<close> behind a \<open>MaxBytesReader\<close>: the decoder scans what it was handed before it looks at a
  read error, so a document that ends within the limit decodes, and one that does not is refused.
\<close>

definition decodeLimited :: "int \<Rightarrow> 'a body \<Rightarrow> decode_error + 'a" where
  "decodeLimited limit b = (if bo_needed b > limit then Inl (BodyTooLarge limit) else bo_result b)"

record request =
  rq_Header :: "string \<Rightarrow> string"
  rq_Query :: "string \<Rightarrow> string"

text \<open>
  A reply: a status with a value, or an error with its code. The sentence that goes with an error
  code is left out. \<open>Hangup\<close> is a handler that returns without writing, because the caller is gone.
\<close>

datatype 'v reply =
    Reply int 'v
  | ErrorReply int string
  | Hangup

fun reply_status :: "'v reply \<Rightarrow> int" where
  "reply_status (Reply status v) = status"
| "reply_status (ErrorReply status code) = status"
| "reply_status Hangup = 0"

definition writeDecodeError :: "decode_error option \<Rightarrow> string \<Rightarrow> 'v reply" where
  "writeDecodeError err code =
     (case err of
        Some (BodyTooLarge _) \<Rightarrow> ErrorReply 413 ''payload_too_large''
      | Some BodyStalled \<Rightarrow> ErrorReply 408 ''body_incomplete''
      | _ \<Rightarrow> ErrorReply 400 code)"

text \<open>\<open>parseLimit\<close> and \<open>parseSince\<close>; the second fails on a text that is not a number.\<close>

definition parseLimit :: "request \<Rightarrow> int \<Rightarrow> int" where
  "parseLimit r fallback =
     (let v = rq_Query r ''limit'' in
      if v = [] then fallback
      else case Atoi v of
             None \<Rightarrow> fallback
           | Some parsed \<Rightarrow> if parsed \<le> 0 then fallback else if parsed > 500 then 500 else parsed)"

definition parseSince :: "request \<Rightarrow> uint64 option" where
  "parseSince r = (let v = rq_Query r ''since'' in if v = [] then Some 0 else ParseUint v)"

lemma parseLimit_range: "0 < fallback \<Longrightarrow> fallback \<le> 500 \<Longrightarrow> 0 < parseLimit r fallback \<and> parseLimit r fallback \<le> 500"
  by (simp add: parseLimit_def Let_def split: option.split)

end
