(* ===== verification/Peer.thy ===== *)
theory Peer
  imports Go_Maps Go_Text Go_Net Machine
begin

text \<open>
  \<open>internal/peer\<close>: the roster of peering URLs with the outcome of the last sync with each
  (\<open>pool.go\<close>), and the URL the relay publishes for itself, which follows the addresses of the
  host (\<open>selfurl.go\<close>). The clock, the interfaces of the host and the functions of \<open>net\<close> are
  arguments. The hook that logs a changed address is left out.
\<close>

section \<open>The address of the host\<close>

definition selfAddressRecheckInterval :: duration where
  "selfAddressRecheckInterval = 15 * Second"

record selfAddress =
  sa_configured :: string
  sa_template :: "url option"
  sa_port :: string
  sa_tracking :: bool
  sa_current :: string
  sa_currentIP :: IP
  sa_lastCheck :: time

definition usableHostIP :: "IP \<Rightarrow> bool" where
  "usableHostIP ip \<longleftrightarrow>
     (if ip = [] \<or> IsUnspecified ip \<or> IsLoopback ip \<or> IsMulticast ip then False else \<not> IsLinkLocalUnicast ip)"

definition containsIP :: "IP list \<Rightarrow> IP \<Rightarrow> bool" where
  "containsIP addresses want = list_ex (\<lambda>candidate. ip_Equal candidate want) addresses"

definition hostPort :: "netlib \<Rightarrow> IP \<Rightarrow> string \<Rightarrow> string" where
  "hostPort net ip port =
     (let host = nl_IPString net ip;
          host = (if CHR '':'' \<in> set host then ''['' @ host @ '']'' else host)
      in if port = [] then host else host @ '':'' @ port)"

text \<open>The interfaces of the host: whether one is up and a loopback, and its addresses where they can
  be read; an address that is not an IP network is \<open>None\<close>.\<close>

record interface =
  if_up :: bool
  if_loopback :: bool
  if_addrs :: "IP option list option"

definition hostAddresses :: "interface list option \<Rightarrow> IP list" where
  "hostAddresses interfaces =
     (case interfaces of
        None \<Rightarrow> []
      | Some ifs \<Rightarrow>
          concat (map (\<lambda>i. if \<not> if_up i \<or> if_loopback i then []
                           else case if_addrs i of
                                  None \<Rightarrow> []
                                | Some candidates \<Rightarrow>
                                    concat (map (\<lambda>c. case c of None \<Rightarrow> []
                                       | Some ip \<Rightarrow> if usableHostIP ip then [ip] else []) candidates)) ifs))"

definition latch :: "netlib \<Rightarrow> IP list \<Rightarrow> selfAddress \<Rightarrow> selfAddress" where
  "latch net localIPs a =
     (case nl_ParseURL net (sa_configured a) of
        None \<Rightarrow> a
      | Some parsed \<Rightarrow>
          if ur_Host parsed = [] then a
          else case nl_ParseIP net (ur_Hostname parsed) of
                 None \<Rightarrow> a
               | Some ip \<Rightarrow>
                   if \<not> usableHostIP ip then a
                   else if \<not> containsIP localIPs ip then a
                   else a\<lparr>sa_template := Some parsed, sa_port := ur_Port parsed, sa_tracking := True, sa_currentIP := ip\<rparr>)"

definition newSelfAddress :: "netlib \<Rightarrow> IP list \<Rightarrow> string \<Rightarrow> selfAddress" where
  "newSelfAddress net localIPs configured =
     latch net localIPs
       \<lparr>sa_configured = configured, sa_template = None, sa_port = [], sa_tracking = False, sa_current = configured,
        sa_currentIP = [], sa_lastCheck = 0\<rparr>"

definition pickHostIP :: "IP list \<Rightarrow> IP \<Rightarrow> IP" where
  "pickHostIP addresses previous =
     (let wantV4 = (To4 previous \<noteq> None) in
      case find (\<lambda>candidate. (To4 candidate \<noteq> None) = wantV4) addresses of
        Some candidate \<Rightarrow> candidate
      | None \<Rightarrow> hd addresses)"

text \<open>A tracking address always has a template (\<open>tracking_template\<close> below), so its last case never applies.\<close>

definition resolve :: "netlib \<Rightarrow> time \<Rightarrow> IP list \<Rightarrow> selfAddress \<Rightarrow> (string \<times> bool) \<times> selfAddress" where
  "resolve net now addresses a =
     (if \<not> sa_tracking a then ((sa_configured a, False), a)
      else if \<not> IsZero (sa_lastCheck a) \<and> time_Sub now (sa_lastCheck a) < selfAddressRecheckInterval
      then ((sa_current a, False), a)
      else
        let a = a\<lparr>sa_lastCheck := now\<rparr> in
        if addresses = [] then ((sa_current a, False), a)
        else if containsIP addresses (sa_currentIP a) then ((sa_current a, False), a)
        else
          let replacement = pickHostIP addresses (sa_currentIP a) in
          case sa_template a of
            None \<Rightarrow> ((sa_current a, False), a)
          | Some template \<Rightarrow>
              let current = nl_withHost net template (hostPort net replacement (sa_port a))
              in ((current, True), a\<lparr>sa_current := current, sa_currentIP := replacement\<rparr>))"

section \<open>The roster\<close>

record NodeInfo =
  ni_ID :: string
  ni_URL :: string
  ni_LastSeen :: time
  ni_Trusted :: bool
  ni_Reachable :: bool

record Status =
  pst_URL :: string
  pst_ClaimedID :: string
  pst_LastSuccessAt :: time
  pst_LastAttemptAt :: time
  pst_LastError :: string
  pst_ConsecutiveFailures :: int

record Pool =
  po_selfID :: string
  po_selfURL :: selfAddress
  po_peers :: "string list"
  po_status :: "(string, Status) gomap"

record Health =
  he_Peers :: int
  he_Reachable :: int
  he_OldestSyncAgeSec :: int

definition newStatus :: "string \<Rightarrow> Status" where
  "newStatus u = \<lparr>pst_URL = u, pst_ClaimedID = [], pst_LastSuccessAt = 0, pst_LastAttemptAt = 0, pst_LastError = [],
     pst_ConsecutiveFailures = 0\<rparr>"

definition addPeer :: "string \<Rightarrow> Pool \<Rightarrow> Pool" where
  "addPeer u pool =
     (if u = [] \<or> fmlookup (po_status pool) u \<noteq> None then pool
      else pool\<lparr>po_peers := po_peers pool @ [u], po_status := fmupd u (newStatus u) (po_status pool)\<rparr>)"

definition NewPool :: "netlib \<Rightarrow> IP list \<Rightarrow> string \<Rightarrow> string \<Rightarrow> string list \<Rightarrow> Pool" where
  "NewPool net localIPs selfID selfURL peerURLs =
     fold addPeer peerURLs
       \<lparr>po_selfID = selfID, po_selfURL = newSelfAddress net localIPs selfURL, po_peers = [], po_status = fmempty\<rparr>"

definition RefreshSelfURL :: "netlib \<Rightarrow> time \<Rightarrow> IP list \<Rightarrow> Pool \<Rightarrow> (string \<times> bool) \<times> Pool" where
  "RefreshSelfURL net now localIPs p =
     (let (r, a) = resolve net now localIPs (po_selfURL p) in (r, p\<lparr>po_selfURL := a\<rparr>))"

definition Self :: "netlib \<Rightarrow> time \<Rightarrow> IP list \<Rightarrow> Pool \<Rightarrow> NodeInfo \<times> Pool" where
  "Self net now localIPs p =
     (let ((advertised, _), a) = resolve net now localIPs (po_selfURL p)
      in (\<lparr>ni_ID = po_selfID p, ni_URL = advertised, ni_LastSeen = now, ni_Trusted = True, ni_Reachable = True\<rparr>,
          p\<lparr>po_selfURL := a\<rparr>))"

definition Targets :: "Pool \<Rightarrow> string list" where
  "Targets p = po_peers p"

definition RecordSuccess :: "string \<Rightarrow> string \<Rightarrow> time \<Rightarrow> Pool \<Rightarrow> Pool" where
  "RecordSuccess u claimedID now p =
     (case fmlookup (po_status p) u of
        None \<Rightarrow> p
      | Some status \<Rightarrow>
          p\<lparr>po_status := fmupd u (status\<lparr>pst_ClaimedID := claimedID, pst_LastAttemptAt := now, pst_LastSuccessAt := now,
              pst_LastError := [], pst_ConsecutiveFailures := 0\<rparr>) (po_status p)\<rparr>)"

text \<open>Both callers pass an error, here its text.\<close>

definition RecordFailure :: "string \<Rightarrow> string \<Rightarrow> time \<Rightarrow> Pool \<Rightarrow> Pool" where
  "RecordFailure u err now p =
     (case fmlookup (po_status p) u of
        None \<Rightarrow> p
      | Some status \<Rightarrow>
          p\<lparr>po_status := fmupd u (status\<lparr>pst_LastAttemptAt := now, pst_LastError := err,
              pst_ConsecutiveFailures := pst_ConsecutiveFailures status + 1\<rparr>) (po_status p)\<rparr>)"

text \<open>
  The loop of \<open>Health\<close> over the peers: the number reachable and the oldest age, where the loop
  leaves at the first peer that never synced. \<open>secs\<close> is the cut-off of \<open>Duration.Seconds\<close>, a
  \<open>float64\<close>, to an \<open>int\<close>. A peer without a status would be a nil dereference; there is none.
\<close>

fun healthLoop :: "(duration \<Rightarrow> int) \<Rightarrow> time \<Rightarrow> (string, Status) gomap \<Rightarrow> string list \<Rightarrow> int \<Rightarrow> int \<Rightarrow> int \<times> int" where
  "healthLoop secs now statuses [] reachable oldest = (reachable, oldest)"
| "healthLoop secs now statuses (u # us) reachable oldest =
     (case fmlookup statuses u of
        None \<Rightarrow> (reachable, oldest)
      | Some status \<Rightarrow>
          let reachable = (if pst_ConsecutiveFailures status = 0 \<and> \<not> IsZero (pst_LastSuccessAt status)
                           then reachable + 1 else reachable)
          in if IsZero (pst_LastSuccessAt status) then (reachable, -1)
             else let age = max 0 (secs (time_Sub now (pst_LastSuccessAt status)))
                  in healthLoop secs now statuses us reachable (max oldest age))"

definition pool_Health :: "(duration \<Rightarrow> int) \<Rightarrow> time \<Rightarrow> Pool \<Rightarrow> Health" where
  "pool_Health secs now p =
     (let (reachable, oldest) = healthLoop secs now (po_status p) (po_peers p) 0 (-1)
      in \<lparr>he_Peers = int (length (po_peers p)), he_Reachable = reachable, he_OldestSyncAgeSec = oldest\<rparr>)"

definition Statuses :: "Pool \<Rightarrow> Status list" where
  "Statuses p = List.map_filter (\<lambda>u. fmlookup (po_status p) u) (po_peers p)"

lemma tracking_template: "sa_tracking (newSelfAddress net ips c) \<Longrightarrow> sa_template (newSelfAddress net ips c) \<noteq> None"
  by (auto simp: newSelfAddress_def latch_def split: option.splits if_splits)

lemma resolve_keeps:
  "sa_tracking (snd (resolve net now ips a)) = sa_tracking a" "sa_template (snd (resolve net now ips a)) = sa_template a"
  "sa_configured (snd (resolve net now ips a)) = sa_configured a" "sa_port (snd (resolve net now ips a)) = sa_port a"
  by (simp_all add: resolve_def Let_def split: option.split)

section \<open>Histories\<close>

datatype pool_request =
    SyncSucceeded string string time
  | SyncFailed string string time
  | SelfRead time "IP list"
  | SelfRefresh time "IP list"

fun pool_step :: "netlib \<Rightarrow> pool_request \<Rightarrow> Pool \<Rightarrow> string list \<times> Pool" where
  "pool_step net (SyncSucceeded u claimedID now) p = ([], RecordSuccess u claimedID now p)"
| "pool_step net (SyncFailed u err now) p = ([], RecordFailure u err now p)"
| "pool_step net (SelfRead now ips) p = (let (n, p') = Self net now ips p in ([ni_URL n], p'))"
| "pool_step net (SelfRefresh now ips) p = (let ((u, _), p') = RefreshSelfURL net now ips p in ([u], p'))"

text \<open>The roster is what was configured, and every peer of it has a status of its own.\<close>

definition roster_ok :: "string list \<Rightarrow> Pool \<Rightarrow> bool" where
  "roster_ok configured p \<longleftrightarrow>
     distinct (po_peers p) \<and> set (po_peers p) = set configured - {[]} \<and> fmdom' (po_status p) = set (po_peers p) \<and>
     (\<forall>u st. fmlookup (po_status p) u = Some st \<longrightarrow> pst_URL st = u)"

lemma addPeers_roster:
  assumes "roster_ok pre p"
  shows "roster_ok (pre @ urls) (fold addPeer urls p)"
  using assms
proof (induction urls arbitrary: pre p)
  case (Cons u urls)
  have "roster_ok (pre @ [u]) (addPeer u p)"
  proof (cases "u = [] \<or> u \<in> set (po_peers p)")
    case True
    with Cons.prems have "u = [] \<or> u \<in> fmdom' (po_status p)" by (auto simp: roster_ok_def)
    then have "addPeer u p = p" by (auto simp: addPeer_def fmlookup_dom'_iff)
    with True Cons.prems show ?thesis by (auto simp: roster_ok_def)
  next
    case False
    with Cons.prems have "fmlookup (po_status p) u = None" by (intro fmdom'_notD) (auto simp: roster_ok_def)
    with False Cons.prems show ?thesis by (auto simp: addPeer_def roster_ok_def newStatus_def)
  qed
  from Cons.IH [OF this] show ?case by simp
qed simp

lemma NewPool_roster: "roster_ok peerURLs (NewPool net ips i u peerURLs)"
  unfolding NewPool_def by (rule addPeers_roster [of "[]", unfolded append_Nil]) (simp add: roster_ok_def)

lemma record_peers [simp]:
  "po_peers (RecordSuccess u c now p) = po_peers p" "po_peers (RecordFailure u e now p) = po_peers p"
  "po_selfURL (RecordSuccess u c now p) = po_selfURL p" "po_selfURL (RecordFailure u e now p) = po_selfURL p"
  "fmdom' (po_status (RecordSuccess u c now p)) = fmdom' (po_status p)"
  "fmdom' (po_status (RecordFailure u e now p)) = fmdom' (po_status p)"
  by (auto simp: RecordSuccess_def RecordFailure_def fmlookup_dom'_iff split: option.split)

lemma record_roster:
  "roster_ok cs p \<Longrightarrow> roster_ok cs (RecordSuccess u c now p)" "roster_ok cs p \<Longrightarrow> roster_ok cs (RecordFailure u e now p)"
  by (auto simp: roster_ok_def RecordSuccess_def RecordFailure_def fmlookup_dom'_iff split: option.splits if_splits)

end
