(* ===== verification/Gate.thy ===== *)
theory Gate
  imports Admission_Inv Config Http Peer Queue_Ops Prekey Presence Attachment
begin

text \<open>
  \<open>internal/httpapi/admission.go\<close>: the two routes of the admission exchange and the check every
  gated route makes first. A handler is a function from the state of the server to a reply and the
  next state; its calls into the stores run in the order of the code, with one reading of the clock.
\<close>

section \<open>The server\<close>

text \<open>
  What the handlers use of the outside: the order of ranging over a map, rounding in \<open>float64\<close>,
  \<open>Duration.Seconds\<close> cut off to an \<open>int\<close>, the cryptography, and \<open>net\<close>.
\<close>

record world =
  w_rng :: "string fset \<Rightarrow> string list"
  w_fl :: "rat \<Rightarrow> rat"
  w_secs :: "duration \<Rightarrow> int"
  w_crypto :: crypto
  w_net :: netlib

text \<open>What one request sees of it: the clock, the bytes it draws and the addresses of the host.\<close>

record instant =
  x_now :: time
  x_rand :: "string option"
  x_localIPs :: "IP list"

record Server =
  sv_store :: Store
  sv_pool :: Pool
  sv_presence :: PresenceStore
  sv_attachments :: Relay
  sv_prekeys :: PrekeyStore
  sv_admissions :: AdmStore
  sv_sessions :: Sessions
  sv_startedAt :: time

text \<open>The values the routes answer with; the keys of the terms are those of the JSON object.\<close>

datatype term_value = TermTime time | TermString string | TermInt int

record HealthReply =
  hr_nodeId :: string
  hr_uptimeSec :: int
  hr_queues :: Stats
  hr_presence :: int
  hr_attachments :: AttStats
  hr_maxAttachmentBytes :: int
  hr_prekeys :: int
  hr_prekeysLastResort :: int
  hr_prekeyBuckets :: int
  hr_requireFetchAuth :: bool
  hr_requireAdmission :: bool
  hr_meshEnabled :: bool
  hr_mesh :: Health

datatype answer =
    VHealth HealthReply
  | VNodes "NodeInfo list"
  | VChallenge string int
  | VSession string int "(string \<times> term_value) list"
  | VAccepted bool
  | VQueued bool AckRecord
  | VMessages "MessageEnvelope list"
  | VAcks "AckRecord list"
  | VPresence "PresenceStatus list"
  | VRemoved int
  | VPurged int int int
  | VPublished int int
  | VPrekey PrekeyEntry
  | VAvailable int
  | VChunks "Chunk list"
  | VSnapshot SyncPayload

section \<open>The exchange\<close>

definition admissionHeader :: string where
  "admissionHeader = ''X-Dee-Admission''"

definition handleAdmissionChallenge :: "world \<Rightarrow> instant \<Rightarrow> Server \<Rightarrow> answer reply \<times> Server" where
  "handleAdmissionChallenge w x s =
     (let (a, sessions) = Challenge (w_rng w) (x_now x) (x_rand x) (sv_sessions s);
          s = s\<lparr>sv_sessions := sessions\<rparr>
      in case a of
           Inl _ \<Rightarrow> (ErrorReply 429 ''admission_busy'', s)
         | Inr (nonce, ttl) \<Rightarrow> (Reply 200 (VChallenge nonce (w_secs w ttl)), s))"

record RedeemBody =
  rb_Credential :: string
  rb_Nonce :: string
  rb_Signature :: string

definition termsJSON :: "(duration \<Rightarrow> int) \<Rightarrow> Terms \<Rightarrow> (string \<times> term_value) list" where
  "termsJSON secs t =
     [(''notAfter'', TermTime (te_NotAfter t))] @
     (if te_Tier t \<noteq> [] then [(''tier'', TermString (te_Tier t))] else []) @
     (if te_QueueSlots t > 0 then [(''queueSlots'', TermInt (te_QueueSlots t))] else []) @
     (if te_RetentionWindow t > 0 then [(''retentionWindowSec'', TermInt (secs (te_RetentionWindow t)))] else []) @
     (if te_AttachmentBytes t > 0 then [(''attachmentBytes'', TermInt (te_AttachmentBytes t))] else []) @
     (if te_ConcurrentTransfers t > 0 then [(''concurrentTransfers'', TermInt (te_ConcurrentTransfers t))] else []) @
     (if te_TransitBytesPerDay t > 0 then [(''transitBytesPerDay'', TermInt (te_TransitBytesPerDay t))] else []) @
     (if te_MaxPerPair t > 0 then [(''maxPerPair'', TermInt (te_MaxPerPair t))] else [])"

definition handleAdmissionRedeem ::
  "world \<Rightarrow> instant \<Rightarrow> decode_error + RedeemBody \<Rightarrow> Server \<Rightarrow> answer reply \<times> Server" where
  "handleAdmissionRedeem w x decoded s =
     (case decoded of
        Inl _ \<Rightarrow> (ErrorReply 400 ''invalid_admission_proof'', s)
      | Inr val \<Rightarrow>
          if rb_Credential val = [] \<or> rb_Nonce val = [] \<or> rb_Signature val = []
          then (ErrorReply 400 ''invalid_admission_proof'', s)
          else case b64url_decode (rb_Signature val) of
            None \<Rightarrow> (ErrorReply 400 ''invalid_admission_proof'', s)
          | Some signature \<Rightarrow>
              let (err, sessions) = VerifyProof (w_crypto w) (x_now x) (rb_Credential val) (rb_Nonce val) signature (sv_sessions s);
                  s = s\<lparr>sv_sessions := sessions\<rparr>
              in if err \<noteq> None then (ErrorReply 403 ''admission_refused'', s)
                 else case adm_Lookup (rb_Credential val) (x_now x) (sv_admissions s) of
                   Inl ErrExpiredCredential \<Rightarrow>
                     (ErrorReply 403 ''admission_expired'', s\<lparr>sv_sessions := Forget (rb_Credential val) (sv_sessions s)\<rparr>)
                 | Inl _ \<Rightarrow> (ErrorReply 403 ''admission_refused'', s)
                 | Inr grant \<Rightarrow>
                     let (a, sessions) = OpenSession (w_rng w) (x_now x) (x_rand x) (rb_Credential val) (sv_sessions s);
                         s = s\<lparr>sv_sessions := sessions\<rparr>
                     in case a of
                          Inl ErrGateBusy \<Rightarrow> (ErrorReply 429 ''admission_busy'', s)
                        | Inl _ \<Rightarrow> (ErrorReply 403 ''admission_refused'', s)
                        | Inr (token, ttl) \<Rightarrow>
                            (Reply 200 (VSession token (w_secs w ttl) (termsJSON (w_secs w) (gr_Terms grant))), s))"

section \<open>The check of a gated route\<close>

text \<open>Either the reply that refuses, or the grant the request is charged to.\<close>

definition admit :: "Config \<Rightarrow> instant \<Rightarrow> request \<Rightarrow> Server \<Rightarrow> (answer reply + AdmGrant) \<times> Server" where
  "admit cfg x r s =
     (let token = rq_Header r admissionHeader in
      if token = []
      then (if c_RequireAdmission cfg then Inl (ErrorReply 401 ''admission_required'') else Inr zero_AdmGrant, s)
      else
        let (a, sessions) = Resolve (x_now x) token (sv_sessions s);
            s = s\<lparr>sv_sessions := sessions\<rparr>
        in case a of
             Inl _ \<Rightarrow> (Inl (ErrorReply 401 ''admission_stale''), s)
           | Inr credentialID \<Rightarrow>
               (case adm_Lookup credentialID (x_now x) (sv_admissions s) of
                  Inl e \<Rightarrow>
                    (Inl (ErrorReply 403 (if e = ErrExpiredCredential then ''admission_expired'' else ''admission_refused'')),
                     s\<lparr>sv_sessions := Forget credentialID (sv_sessions s)\<rparr>)
                | Inr grant \<Rightarrow> (Inr grant, s)))"

definition queueGrant :: "AdmGrant \<Rightarrow> Grant" where
  "queueGrant g = \<lparr>grant_Credential = gr_Index g, grant_Slots = te_QueueSlots (gr_Terms g),
     grant_MaxPerPair = te_MaxPerPair (gr_Terms g), grant_Retention = te_RetentionWindow (gr_Terms g)\<rparr>"

definition attachmentGrant :: "AdmGrant \<Rightarrow> AttGrant" where
  "attachmentGrant g = \<lparr>ag_Credential = gr_Index g, ag_AttachmentBytes = te_AttachmentBytes (gr_Terms g),
     ag_ConcurrentTransfers = te_ConcurrentTransfers (gr_Terms g), ag_TransitBytesPerDay = te_TransitBytesPerDay (gr_Terms g)\<rparr>"

section \<open>What the gate lets through\<close>

definition refusals :: "answer reply set" where
  "refusals = {ErrorReply 401 ''admission_required'', ErrorReply 401 ''admission_stale'', ErrorReply 403 ''admission_expired'',
     ErrorReply 403 ''admission_refused''}"

text \<open>The request presents a token that resolves now to an admitted credential.\<close>

definition holds_session :: "instant \<Rightarrow> request \<Rightarrow> Server \<Rightarrow> AdmGrant \<Rightarrow> bool" where
  "holds_session x r s g \<longleftrightarrow>
     (\<exists>c. fst (Resolve (x_now x) (rq_Header r admissionHeader) (sv_sessions s)) = Inr c \<and>
        adm_Lookup c (x_now x) (sv_admissions s) = Inr g)"

lemma Resolve_keeps: "fst (Resolve now token s) = Inr c \<Longrightarrow> snd (Resolve now token s) = s"
  by (auto simp: Resolve_def split: option.splits if_splits)

lemma admit_cases [consumes 1, case_names refused open_box admitted]:
  assumes "admit cfg x r s = (a, s')"
  obtains e m where "a = Inl e" "e \<in> refusals" "s' = s\<lparr>sv_sessions := m\<rparr>" "\<nexists>g. holds_session x r s g"
    | "a = Inr zero_AdmGrant" "s' = s" "rq_Header r admissionHeader = []" "\<not> c_RequireAdmission cfg"
    | g where "a = Inr g" "s' = s" "holds_session x r s g"
proof -
  let ?t = "rq_Header r admissionHeader"
  have none: "\<nexists>g. holds_session x r s g" if "?t = []" using that by (simp add: holds_session_def Resolve_def)
  have same: "s\<lparr>sv_sessions := sv_sessions s\<rparr> = s" by simp
  show thesis
  proof (cases "?t = []")
    case True
    show thesis
    proof (cases "c_RequireAdmission cfg")
      case req: True
      from assms True req have "a = Inl (ErrorReply 401 ''admission_required'')" "s' = s" by (simp_all add: admit_def)
      with that(1) [of _ "sv_sessions s"] none [OF True] same show thesis by (auto simp: refusals_def)
    next
      case False
      with assms True that(2) show thesis by (simp add: admit_def)
    qed
  next
    case False
    obtain b ss where res: "Resolve (x_now x) ?t (sv_sessions s) = (b, ss)" by (cases "Resolve (x_now x) ?t (sv_sessions s)")
    show thesis
    proof (cases b)
      case (Inl e)
      from assms False res Inl that(1) [of _ ss] show thesis by (auto simp: admit_def refusals_def holds_session_def)
    next
      case (Inr c)
      have ss: "ss = sv_sessions s" using Resolve_keeps [of "x_now x" ?t "sv_sessions s" c] res Inr by simp
      show thesis
      proof (cases "adm_Lookup c (x_now x) (sv_admissions s)")
        case l: (Inl e)
        from assms False res Inr l that(1) [of _ "Forget c ss"] show thesis
          by (auto simp: admit_def refusals_def holds_session_def)
      next
        case l: (Inr g)
        from assms False res Inr l that(3) [of g] ss show thesis by (simp add: admit_def holds_session_def)
      qed
    qed
  qed
qed

end
