(* ===== verification/Server.thy ===== *)
theory Server
  imports Gate
begin

text \<open>
  \<open>internal/httpapi/server.go\<close> and \<open>body_limit.go\<close>: the handlers of the public and of the mesh
  listener, the routes they are mounted on and the limit on request bodies. SHA-256 is the one of
  the world's cryptography.
\<close>

section \<open>Shared steps of the handlers\<close>

abbreviation sha_of :: "world \<Rightarrow> string \<Rightarrow> string" where
  "sha_of w \<equiv> cr_sha256 (w_crypto w)"

definition gated ::
  "Config \<Rightarrow> instant \<Rightarrow> request \<Rightarrow> (AdmGrant \<Rightarrow> Server \<Rightarrow> answer reply \<times> Server) \<Rightarrow> Server \<Rightarrow> answer reply \<times> Server" where
  "gated cfg x r handle s =
     (case admit cfg x r s of
        (Inl refusal, s) \<Rightarrow> (refusal, s)
      | (Inr grant, s) \<Rightarrow> handle grant s)"

definition queueCapabilityHeader :: string where
  "queueCapabilityHeader = ''X-Dee-Queue-Capability''"

definition meshSecretHeader :: string where
  "meshSecretHeader = ''X-Dee-Mesh-Secret''"

definition queueAuth :: "world \<Rightarrow> Config \<Rightarrow> request \<Rightarrow> answer reply + Auth" where
  "queueAuth w cfg r =
     (let secrets = Fields (rq_Header r queueCapabilityHeader) in
      if c_RequireFetchAuth cfg \<and> secrets = [] then Inl (ErrorReply 401 ''capability_required'')
      else Inr (NewAuth (sha_of w) secrets (\<not> c_RequireFetchAuth cfg)))"

definition queueSubject :: "world \<Rightarrow> request \<Rightarrow> answer reply + string" where
  "queueSubject w r =
     (let subject = Subject (NewAuth (sha_of w) (Fields (rq_Header r queueCapabilityHeader)) False) in
      if subject = [] then Inl (ErrorReply 401 ''capability_required'') else Inr subject)"

definition presenceGrant :: "world \<Rightarrow> AdmGrant \<Rightarrow> request \<Rightarrow> PresenceGrant" where
  "presenceGrant w grant r =
     (let subject = Subject (NewAuth (sha_of w) (Fields (rq_Header r queueCapabilityHeader)) False) in
      if subject \<noteq> [] then \<lparr>pg_Caller = ''tag:'' @ subject\<rparr>
      else if gr_Index grant \<noteq> 0 then \<lparr>pg_Caller = ''credential:'' @ FormatUint (ucast (gr_Index grant))\<rparr>
      else \<lparr>pg_Caller = []\<rparr>)"

definition isTrustedPeer :: "Config \<Rightarrow> request \<Rightarrow> bool" where
  "isTrustedPeer cfg r \<longleftrightarrow> (if \<not> MeshEnabled cfg then False else rq_Header r meshSecretHeader = c_MeshSecret cfg)"

section \<open>Construction\<close>

definition PrekeyLimits :: "Config \<Rightarrow> Limits" where
  "PrekeyLimits cfg = \<lparr>lim_MaxPerRecipient = 0, lim_MaxBuckets = c_MaxPrekeyBuckets cfg, lim_PublishedTTL = 0,
     lim_ClaimBurst = c_PrekeyClaimBurst cfg, lim_ClaimRefill = c_PrekeyClaimRefill cfg\<rparr>"

definition NewServer :: "world \<Rightarrow> Config \<Rightarrow> time \<Rightarrow> Store \<Rightarrow> Pool \<Rightarrow> PresenceStore option \<Rightarrow> Server" where
  "NewServer w cfg now store pool presenceStore =
     \<lparr>sv_store = store, sv_pool = pool,
      sv_presence = (case presenceStore of None \<Rightarrow> presence_NewStore 5000 (24 * Hour) | Some p \<Rightarrow> p),
      sv_attachments = NewRelay (c_RelayMaxWindow cfg) (c_MaxChunkBytes cfg) (c_MaxAttachmentBytes cfg)
        (c_RelayMaxSessions cfg) (c_RelayIdleTimeout cfg),
      sv_prekeys = prekey_NewStoreWithLimits (w_fl w) (PrekeyLimits cfg),
      sv_admissions = adm_NewStore, sv_sessions = NewSessions, sv_startedAt = now\<rparr>"

definition NewServerWithStores ::
  "world \<Rightarrow> Config \<Rightarrow> time \<Rightarrow> Store \<Rightarrow> Pool \<Rightarrow> PresenceStore option \<Rightarrow> Relay option \<Rightarrow> PrekeyStore option \<Rightarrow> Server" where
  "NewServerWithStores w cfg now store pool presenceStore attachmentRelay prekeyStore =
     (let server = NewServer w cfg now store pool presenceStore;
          server = (case attachmentRelay of None \<Rightarrow> server | Some a \<Rightarrow> server\<lparr>sv_attachments := a\<rparr>)
      in case prekeyStore of None \<Rightarrow> server | Some p \<Rightarrow> server\<lparr>sv_prekeys := p\<rparr>)"

definition WithAdmissions :: "AdmStore option \<Rightarrow> Server \<Rightarrow> Server" where
  "WithAdmissions credentials s = (case credentials of None \<Rightarrow> s | Some c \<Rightarrow> s\<lparr>sv_admissions := c\<rparr>)"

section \<open>Health and nodes\<close>

definition handleHealth :: "world \<Rightarrow> Config \<Rightarrow> instant \<Rightarrow> Server \<Rightarrow> answer reply \<times> Server" where
  "handleHealth w cfg x s =
     (let now = x_now x;
          (presence, ps) = presence_Count (w_rng w) now (sv_presence s);
          (attachments, re) = att_Stats (w_rng w) now (sv_attachments s);
          (prekeys, pk) = prekey_Count (w_rng w) now (sv_prekeys s);
          (lastResort, pk) = LastResortCount now pk;
          (buckets, pk) = BucketCount now pk
      in (Reply 200 (VHealth
            \<lparr>hr_nodeId = c_NodeID cfg, hr_uptimeSec = w_secs w (time_Sub now (sv_startedAt s)),
             hr_queues = statsLocked (sv_store s), hr_presence = presence, hr_attachments = attachments,
             hr_maxAttachmentBytes = MaxAttachmentBytes re, hr_prekeys = prekeys, hr_prekeysLastResort = lastResort,
             hr_prekeyBuckets = buckets, hr_requireFetchAuth = c_RequireFetchAuth cfg,
             hr_requireAdmission = c_RequireAdmission cfg, hr_meshEnabled = MeshEnabled cfg,
             hr_mesh = pool_Health (w_secs w) now (sv_pool s)\<rparr>),
          s\<lparr>sv_presence := ps, sv_attachments := re, sv_prekeys := pk\<rparr>))"

definition handleNodes :: "world \<Rightarrow> instant \<Rightarrow> Server \<Rightarrow> answer reply \<times> Server" where
  "handleNodes w x s =
     (let (self, pool) = Self (w_net w) (x_now x) (x_localIPs x) (sv_pool s)
      in (Reply 200 (VNodes [self]), s\<lparr>sv_pool := pool\<rparr>))"

section \<open>Attachments\<close>

definition handlePostAttachmentChunk ::
  "Config \<Rightarrow> instant \<Rightarrow> request \<Rightarrow> decode_error + Chunk \<Rightarrow> Server \<Rightarrow> answer reply \<times> Server" where
  "handlePostAttachmentChunk cfg x r decoded =
     gated cfg x r (\<lambda>grant s.
       case decoded of
         Inl e \<Rightarrow> (writeDecodeError (Some e) ''invalid_json'', s)
       | Inr chunk \<Rightarrow>
           let (err, re) = PushWithGrant (x_now x) chunk (attachmentGrant grant) (sv_attachments s);
               s = s\<lparr>sv_attachments := re\<rparr>
           in (case err of
                 None \<Rightarrow> Reply 202 (VAccepted False)
               | Some AttErrDuplicate \<Rightarrow> Reply 200 (VAccepted True)
               | Some AttErrWindowFull \<Rightarrow> ErrorReply 429 ''window_full''
               | Some AttErrTooManySessions \<Rightarrow> ErrorReply 429 ''relay_busy''
               | Some AttErrTooLarge \<Rightarrow> ErrorReply 413 ''attachment_too_large''
               | Some AttErrTooManyChunks \<Rightarrow> ErrorReply 413 ''chunk_count_too_high''
               | Some AttErrTransitExhausted \<Rightarrow> ErrorReply 429 ''transit_exhausted''
               | Some AttErrInvalid \<Rightarrow> ErrorReply 400 ''invalid_attachment_chunk'', s))"

text \<open>
  The long poll. \<open>clock n\<close> is the clock in round \<open>n\<close>, \<open>gone n\<close> whether the caller hung up while the
  handler slept after it, and \<open>others n\<close> what other requests did to the relay before it. A product of
  a number of seconds the caller chose and a second is taken in 64 bits.
\<close>

definition pollTick :: duration where
  "pollTick = 200000000"

definition pollWait :: "Config \<Rightarrow> request \<Rightarrow> duration" where
  "pollWait cfg r =
     (let requested = rq_Query r ''wait'' in
      if requested = [] then c_RelayPollTimeout cfg
      else case Atoi requested of
             None \<Rightarrow> c_RelayPollTimeout cfg
           | Some secs \<Rightarrow>
               if secs \<ge> 0 then min (wrap64 (secs * Second)) (c_RelayPollTimeout cfg) else c_RelayPollTimeout cfg)"

partial_function (option) pollLoop ::
  "(nat \<Rightarrow> Relay \<Rightarrow> Relay) \<Rightarrow> (nat \<Rightarrow> time) \<Rightarrow> (nat \<Rightarrow> bool) \<Rightarrow> time \<Rightarrow> string \<Rightarrow> string \<Rightarrow> nat \<Rightarrow> Relay \<Rightarrow> (answer reply \<times> Relay) option" where
  "pollLoop others clock gone deadline recipient capability n re =
     (let (chunks, re) = Drain (clock n) (clock n) recipient capability (others n re) in
      if chunks \<noteq> [] then Some (Reply 200 (VChunks chunks), re)
      else if \<not> Before (clock n) deadline then Some (Reply 200 (VChunks []), re)
      else if gone n then Some (Hangup, re)
      else pollLoop others clock gone deadline recipient capability (n + 1) re)"

record patience =
  pa_others :: "nat \<Rightarrow> Relay \<Rightarrow> Relay"
  pa_clock :: "nat \<Rightarrow> time"
  pa_gone :: "nat \<Rightarrow> bool"

definition handleGetAttachmentChunks ::
  "Config \<Rightarrow> instant \<Rightarrow> request \<Rightarrow> patience \<Rightarrow> Server \<Rightarrow> (answer reply \<times> Server) option" where
  "handleGetAttachmentChunks cfg x r p s =
     (case admit cfg x r s of
        (Inl refusal, s) \<Rightarrow> Some (refusal, s)
      | (Inr _, s) \<Rightarrow>
          let recipient = rq_Query r ''recipient''; capability = rq_Query r ''capability'' in
          if recipient = [] \<or> capability = [] then Some (ErrorReply 400 ''missing_attachment_route'', s)
          else map_option (\<lambda>(a, re). (a, s\<lparr>sv_attachments := re\<rparr>))
                 (pollLoop (pa_others p) (pa_clock p) (pa_gone p) (x_now x + pollWait cfg r) recipient capability 0
                    (sv_attachments s)))"

definition handleCompleteAttachment ::
  "Config \<Rightarrow> instant \<Rightarrow> request \<Rightarrow> decode_error + (string \<times> string) \<Rightarrow> Server \<Rightarrow> answer reply \<times> Server" where
  "handleCompleteAttachment cfg x r decoded =
     gated cfg x r (\<lambda>_ s.
       case decoded of
         Inl e \<Rightarrow> (writeDecodeError (Some e) ''invalid_attachment_completion'', s)
       | Inr (transferID, capability) \<Rightarrow>
           if transferID = [] \<or> capability = [] then (writeDecodeError None ''invalid_attachment_completion'', s)
           else let (removed, re) = Complete transferID capability (sv_attachments s)
                in (Reply 200 (VRemoved removed), s\<lparr>sv_attachments := re\<rparr>))"

section \<open>Presence\<close>

definition handlePresenceHeartbeat ::
  "world \<Rightarrow> Config \<Rightarrow> instant \<Rightarrow> request \<Rightarrow> decode_error + PresenceHeartbeat \<Rightarrow> Server \<Rightarrow> answer reply \<times> Server" where
  "handlePresenceHeartbeat w cfg x r decoded =
     gated cfg x r (\<lambda>grant s.
       case decoded of
         Inl e \<Rightarrow> (writeDecodeError (Some e) ''invalid_presence'', s)
       | Inr val \<Rightarrow>
           let (ok, ps) = HeartbeatWithGrant (w_rng w) (x_now x) val (presenceGrant w grant r) (sv_presence s);
               s = s\<lparr>sv_presence := ps\<rparr>
           in if \<not> ok then (writeDecodeError None ''invalid_presence'', s) else (Reply 202 (VAccepted False), s))"

definition handlePresenceQuery ::
  "world \<Rightarrow> Config \<Rightarrow> instant \<Rightarrow> request \<Rightarrow> decode_error + string list \<Rightarrow> Server \<Rightarrow> answer reply \<times> Server" where
  "handlePresenceQuery w cfg x r decoded =
     gated cfg x r (\<lambda>_ s.
       case decoded of
         Inl e \<Rightarrow> (writeDecodeError (Some e) ''invalid_query'', s)
       | Inr grantHashes \<Rightarrow>
           let (found, ps) = Query (w_rng w) (x_now x) grantHashes (sv_presence s)
           in (Reply 200 (VPresence found), s\<lparr>sv_presence := ps\<rparr>))"

definition handlePresenceRevoke ::
  "world \<Rightarrow> instant \<Rightarrow> decode_error + string \<Rightarrow> Server \<Rightarrow> answer reply \<times> Server" where
  "handlePresenceRevoke w x decoded s =
     (case decoded of
        Inl e \<Rightarrow> (writeDecodeError (Some e) ''invalid_revoke'', s)
      | Inr ownerHash \<Rightarrow>
          if ownerHash = [] then (writeDecodeError None ''invalid_revoke'', s)
          else let (removed, ps) = Revoke (w_rng w) (x_now x) ownerHash (sv_presence s)
               in (Reply 200 (VRemoved removed), s\<lparr>sv_presence := ps\<rparr>))"

definition handleProfilePurge ::
  "world \<Rightarrow> instant \<Rightarrow> decode_error + string \<Rightarrow> Server \<Rightarrow> answer reply \<times> Server" where
  "handleProfilePurge w x decoded s =
     (case decoded of
        Inl e \<Rightarrow> (writeDecodeError (Some e) ''invalid_purge'', s)
      | Inr purgeHash \<Rightarrow>
          if purgeHash = [] then (writeDecodeError None ''invalid_purge'', s)
          else
            let (msgs, as, store) = PurgeOwner (w_rng w) (x_now x) purgeHash (sv_store s);
                (removed, ps) = Revoke (w_rng w) (x_now x) purgeHash (sv_presence s)
            in (Reply 200 (VPurged msgs as removed), s\<lparr>sv_store := store, sv_presence := ps\<rparr>))"

section \<open>Prekeys\<close>

definition handlePublishPrekeys ::
  "world \<Rightarrow> Config \<Rightarrow> instant \<Rightarrow> request \<Rightarrow> decode_error + PrekeyPublish \<Rightarrow> Server \<Rightarrow> answer reply \<times> Server" where
  "handlePublishPrekeys w cfg x r decoded =
     gated cfg x r (\<lambda>_ s.
       case queueSubject w r of
         Inl refusal \<Rightarrow> (refusal, s)
       | Inr owner \<Rightarrow>
           (case decoded of
              Inl e \<Rightarrow> (writeDecodeError (Some e) ''invalid_prekey_publish'', s)
            | Inr val \<Rightarrow>
                if pub_Entries val = [] \<and> pub_LastResort val = None
                then (writeDecodeError None ''invalid_prekey_publish'', s)
                else
                  let ((added, ok), pk) = Publish (x_now x) owner val (sv_prekeys s) in
                  if \<not> ok then (ErrorReply 429 ''prekey_store_full'', s\<lparr>sv_prekeys := pk\<rparr>)
                  else let (available, pk) = prekey_Status (x_now x) owner (pub_DeviceKey val) pk
                       in (Reply 202 (VPublished added available), s\<lparr>sv_prekeys := pk\<rparr>)))"

definition handleClaimPrekey :: "world \<Rightarrow> Config \<Rightarrow> instant \<Rightarrow> request \<Rightarrow> Server \<Rightarrow> answer reply \<times> Server" where
  "handleClaimPrekey w cfg x r =
     gated cfg x r (\<lambda>_ s.
       let tag = rq_Query r ''tag'' in
       if tag = [] then (ErrorReply 400 ''missing_tag'', s)
       else
         let ((entry, ok), pk) = Claim (w_fl w) (x_now x) tag (rq_Query r ''device'') (sv_prekeys s);
             s = s\<lparr>sv_prekeys := pk\<rparr>
         in if \<not> ok then (ErrorReply 404 ''prekey_pool_drained'', s) else (Reply 200 (VPrekey entry), s))"

definition handlePrekeyStatus :: "world \<Rightarrow> Config \<Rightarrow> instant \<Rightarrow> request \<Rightarrow> Server \<Rightarrow> answer reply \<times> Server" where
  "handlePrekeyStatus w cfg x r =
     gated cfg x r (\<lambda>_ s.
       case queueSubject w r of
         Inl refusal \<Rightarrow> (refusal, s)
       | Inr owner \<Rightarrow>
           let (available, pk) = prekey_Status (x_now x) owner (rq_Query r ''device'') (sv_prekeys s)
           in (Reply 200 (VAvailable available), s\<lparr>sv_prekeys := pk\<rparr>))"

section \<open>Messages and acks\<close>

definition handlePostMessage ::
  "Config \<Rightarrow> instant \<Rightarrow> request \<Rightarrow> decode_error + MessageEnvelope \<Rightarrow> Server \<Rightarrow> answer reply \<times> Server" where
  "handlePostMessage cfg x r decoded =
     gated cfg x r (\<lambda>grant s.
       case decoded of
         Inl e \<Rightarrow> (writeDecodeError (Some e) ''invalid_json'', s)
       | Inr envelope \<Rightarrow>
           if c_RequireFetchAuth cfg \<and> (env_RecipientTag envelope = [] \<or> env_SenderTag envelope = [])
           then (ErrorReply 400 ''fetch_tag_required'', s)
           else
             let (ack, err, store) = AddMessageWithGrant (x_now x) envelope (c_NodeID cfg) (queueGrant grant) (sv_store s);
                 s = s\<lparr>sv_store := store\<rparr>
             in (case err of
                   None \<Rightarrow> Reply 202 (VQueued False ack)
                 | Some ErrDuplicate \<Rightarrow> Reply 200 (VQueued True ack)
                 | Some ErrExpired \<Rightarrow> ErrorReply 410 ''expired''
                 | Some ErrPayloadTooLarge \<Rightarrow> ErrorReply 413 ''payload_too_large''
                 | Some ErrPairQuotaFull \<Rightarrow> ErrorReply 429 ''pair_quota_full''
                 | Some ErrSlotsFull \<Rightarrow> ErrorReply 429 ''circle_slots_full''
                 | Some ErrQueueFull \<Rightarrow> ErrorReply 429 ''queue_full''
                 | Some _ \<Rightarrow> ErrorReply 400 ''invalid_message'', s))"

definition handleGetMessages :: "world \<Rightarrow> Config \<Rightarrow> instant \<Rightarrow> request \<Rightarrow> Server \<Rightarrow> answer reply \<times> Server" where
  "handleGetMessages w cfg x r =
     gated cfg x r (\<lambda>_ s.
       let recipient = rq_Query r ''recipient'' in
       if recipient = [] then (ErrorReply 400 ''missing_recipient'', s)
       else case queueAuth w cfg r of
              Inl refusal \<Rightarrow> (refusal, s)
            | Inr auth \<Rightarrow>
                let (msgs, store) = MessagesForRecipient (w_rng w) (x_now x) recipient (parseLimit r 100) auth (sv_store s)
                in (Reply 200 (VMessages msgs), s\<lparr>sv_store := store\<rparr>))"

definition handlePostAck ::
  "world \<Rightarrow> Config \<Rightarrow> instant \<Rightarrow> request \<Rightarrow> decode_error + AckRecord \<Rightarrow> Server \<Rightarrow> answer reply \<times> Server" where
  "handlePostAck w cfg x r decoded =
     gated cfg x r (\<lambda>grant s.
       case queueAuth w cfg r of
         Inl refusal \<Rightarrow> (refusal, s)
       | Inr auth \<Rightarrow>
           (case decoded of
              Inl e \<Rightarrow> (writeDecodeError (Some e) ''invalid_json'', s)
            | Inr ack \<Rightarrow>
                let (err, store) = AddAckWithGrant (x_now x) ack (c_NodeID cfg) (queueGrant grant) auth (sv_store s);
                    s = s\<lparr>sv_store := store\<rparr>
                in (case err of
                      None \<Rightarrow> Reply 202 (VAccepted False)
                    | Some ErrDuplicate \<Rightarrow> Reply 200 (VAccepted True)
                    | Some ErrExpired \<Rightarrow> ErrorReply 410 ''expired''
                    | Some ErrNotOwned \<Rightarrow> ErrorReply 403 ''ack_not_authorized''
                    | Some ErrQueueFull \<Rightarrow> ErrorReply 429 ''queue_full''
                    | Some _ \<Rightarrow> ErrorReply 400 ''invalid_ack'', s)))"

definition handleGetAcks :: "world \<Rightarrow> Config \<Rightarrow> instant \<Rightarrow> request \<Rightarrow> Server \<Rightarrow> answer reply \<times> Server" where
  "handleGetAcks w cfg x r =
     gated cfg x r (\<lambda>_ s.
       let sender = rq_Query r ''sender'' in
       if sender = [] then (ErrorReply 400 ''missing_sender'', s)
       else case queueAuth w cfg r of
              Inl refusal \<Rightarrow> (refusal, s)
            | Inr auth \<Rightarrow>
                let (as, store) = AcksForSender (w_rng w) (x_now x) sender (parseLimit r 100) auth (sv_store s)
                in (Reply 200 (VAcks as), s\<lparr>sv_store := store\<rparr>))"

section \<open>Replication\<close>

definition handleMeshSnapshot :: "world \<Rightarrow> Config \<Rightarrow> instant \<Rightarrow> request \<Rightarrow> Server \<Rightarrow> answer reply \<times> Server" where
  "handleMeshSnapshot w cfg x r s =
     (if \<not> isTrustedPeer cfg r then (ErrorReply 403 ''untrusted_peer'', s)
      else case parseSince r of
             None \<Rightarrow> (ErrorReply 400 ''invalid_since'', s)
           | Some since \<Rightarrow>
               let (payload, store) = SnapshotSince (w_rng w) (x_now x) since (parseLimit r 500) (sv_store s);
                   (heartbeats, ps) = presence_Snapshot (w_rng w) (x_now x) (sv_presence s);
                   (revocations, ps) = Revocations (w_rng w) (x_now x) ps;
                   payload = payload\<lparr>sync_NodeID := c_NodeID cfg, sync_Presence := heartbeats,
                     sync_PresenceRevocations := revocations\<rparr>
               in (Reply 200 (VSnapshot payload), s\<lparr>sv_store := store, sv_presence := ps\<rparr>))"

section \<open>Body limits and routes\<close>

definition bodyEnvelopeSlack :: int where
  "bodyEnvelopeSlack = 262144"

definition bodyLimitFor :: "Config \<Rightarrow> string \<Rightarrow> int" where
  "bodyLimitFor cfg path =
     (let payloadBytes = (if c_MaxPayloadBytes cfg \<le> 0 then 8192 else c_MaxPayloadBytes cfg);
          chunkBytes = (if c_MaxChunkBytes cfg \<le> 0 then 1048576 else c_MaxChunkBytes cfg)
      in if path = ''/attachments/chunks'' then wrap64 (chunkBytes + bodyEnvelopeSlack)
         else wrap64 (payloadBytes + bodyEnvelopeSlack))"

definition defaultBodyReadTimeout :: duration where
  "defaultBodyReadTimeout = 20 * Second"

definition bodyReadTimeout :: "Config \<Rightarrow> duration" where
  "bodyReadTimeout cfg = (if c_BodyReadTimeout cfg > 0 then c_BodyReadTimeout cfg else defaultBodyReadTimeout)"

text \<open>
  A request without a body reaches the handler as it is. The deadline set on the read is what makes
  a body that stops arriving end in \<open>BodyStalled\<close>.
\<close>

definition limitBodies ::
  "Config \<Rightarrow> string \<Rightarrow> 'a body \<Rightarrow> (decode_error + 'a \<Rightarrow> Server \<Rightarrow> answer reply \<times> Server) \<Rightarrow> Server \<Rightarrow> answer reply \<times> Server" where
  "limitBodies cfg path b handle s =
     (if \<not> bo_present b then handle (bo_result b) s
      else
        let limit = bodyLimitFor cfg path in
        if bo_ContentLength b > limit then (ErrorReply 413 ''payload_too_large'', s)
        else handle (decodeLimited limit b) s)"

datatype call =
    GetHealth
  | GetNodes
  | AdmissionChallenge
  | AdmissionRedeem "RedeemBody body"
  | MessagesPost "MessageEnvelope body"
  | MessagesGet
  | AcksPost "AckRecord body"
  | AcksGet
  | PresenceBeat "PresenceHeartbeat body"
  | PresenceAsk "string list body"
  | PresenceDrop "string body"
  | ProfilePurge "string body"
  | PrekeysPost "PrekeyPublish body"
  | PrekeysClaim
  | PrekeysStatus
  | ChunksPost "Chunk body"
  | ChunksGet patience
  | ChunksComplete "(string \<times> string) body"

text \<open>
  The public mux. A long poll that never returned would leave its caller without a reply and the
  server as it was; that it returns is proved.
\<close>

fun serve :: "world \<Rightarrow> Config \<Rightarrow> instant \<Rightarrow> request \<Rightarrow> call \<Rightarrow> Server \<Rightarrow> answer reply \<times> Server" where
  "serve w cfg x r GetHealth s = handleHealth w cfg x s"
| "serve w cfg x r GetNodes s = handleNodes w x s"
| "serve w cfg x r AdmissionChallenge s = handleAdmissionChallenge w x s"
| "serve w cfg x r (AdmissionRedeem b) s = limitBodies cfg ''/admission/redeem'' b (handleAdmissionRedeem w x) s"
| "serve w cfg x r (MessagesPost b) s = limitBodies cfg ''/messages'' b (handlePostMessage cfg x r) s"
| "serve w cfg x r MessagesGet s = handleGetMessages w cfg x r s"
| "serve w cfg x r (AcksPost b) s = limitBodies cfg ''/acks'' b (handlePostAck w cfg x r) s"
| "serve w cfg x r AcksGet s = handleGetAcks w cfg x r s"
| "serve w cfg x r (PresenceBeat b) s = limitBodies cfg ''/presence/heartbeat'' b (handlePresenceHeartbeat w cfg x r) s"
| "serve w cfg x r (PresenceAsk b) s = limitBodies cfg ''/presence/query'' b (handlePresenceQuery w cfg x r) s"
| "serve w cfg x r (PresenceDrop b) s = limitBodies cfg ''/presence/revoke'' b (handlePresenceRevoke w x) s"
| "serve w cfg x r (ProfilePurge b) s = limitBodies cfg ''/profile/purge'' b (handleProfilePurge w x) s"
| "serve w cfg x r (PrekeysPost b) s = limitBodies cfg ''/prekeys'' b (handlePublishPrekeys w cfg x r) s"
| "serve w cfg x r PrekeysClaim s = handleClaimPrekey w cfg x r s"
| "serve w cfg x r PrekeysStatus s = handlePrekeyStatus w cfg x r s"
| "serve w cfg x r (ChunksPost b) s = limitBodies cfg ''/attachments/chunks'' b (handlePostAttachmentChunk cfg x r) s"
| "serve w cfg x r (ChunksGet p) s =
     (case handleGetAttachmentChunks cfg x r p s of None \<Rightarrow> (Hangup, s) | Some a \<Rightarrow> a)"
| "serve w cfg x r (ChunksComplete b) s = limitBodies cfg ''/attachments/complete'' b (handleCompleteAttachment cfg x r) s"

definition MeshHandler :: "world \<Rightarrow> Config \<Rightarrow> (instant \<Rightarrow> request \<Rightarrow> Server \<Rightarrow> answer reply \<times> Server) option" where
  "MeshHandler w cfg = (if \<not> MeshEnabled cfg then None else Some (handleMeshSnapshot w cfg))"

end
