(* ===== verification/Server_Inv.thy ===== *)
theory Server_Inv
  imports Server
begin

text \<open>
  The server as a machine over requests. Its session tables move by the calls the handlers make
  into the gate, so what holds of every history of the gate holds of every history of the server.
\<close>

section \<open>Gated routes\<close>

fun gated_call :: "call \<Rightarrow> bool" where
  "gated_call GetHealth = False"
| "gated_call GetNodes = False"
| "gated_call AdmissionChallenge = False"
| "gated_call (AdmissionRedeem _) = False"
| "gated_call (PresenceDrop _) = False"
| "gated_call (ProfilePurge _) = False"
| "gated_call _ = True"

text \<open>A gated handler refuses, or goes on from the state it was called in with a grant.\<close>

lemma gated_cases [consumes 1, case_names refused admitted]:
  assumes "gated cfg x r handle s = (a, s')"
  obtains m where "a \<in> refusals" "s' = s\<lparr>sv_sessions := m\<rparr>" "\<nexists>g. holds_session x r s g"
      "admit cfg x r s = (Inl a, s')"
    | g where "handle g s = (a, s')" "admit cfg x r s = (Inr g, s)" "c_RequireAdmission cfg \<longrightarrow> holds_session x r s g"
proof -
  obtain b s1 where adm: "admit cfg x r s = (b, s1)" by (cases "admit cfg x r s")
  from adm show thesis
  proof (cases rule: admit_cases)
    case (refused e m)
    with assms adm that(1) [of m] show thesis by (auto simp: gated_def)
  next
    case open_box
    with assms adm that(2) show thesis by (simp add: gated_def)
  next
    case (admitted g)
    with assms adm that(2) show thesis by (simp add: gated_def)
  qed
qed

text \<open>The sessions a handler leaves, for handlers that do not touch them.\<close>

definition spares_sessions :: "(AdmGrant \<Rightarrow> Server \<Rightarrow> answer reply \<times> Server) \<Rightarrow> bool" where
  "spares_sessions handle \<longleftrightarrow> (\<forall>g s. sv_sessions (snd (handle g s)) = sv_sessions s)"

lemma gated_sessions:
  assumes "spares_sessions handle"
  shows "sv_sessions (snd (gated cfg x r handle s)) = sv_sessions (snd (admit cfg x r s))"
proof -
  obtain a s' where call: "gated cfg x r handle s = (a, s')" by (cases "gated cfg x r handle s")
  from call show ?thesis
  proof (cases rule: gated_cases)
    case (refused m)
    with call show ?thesis by simp
  next
    case (admitted g)
    with call assms show ?thesis by (metis snd_conv spares_sessions_def)
  qed
qed

lemma post_chunk_sessions:
  "sv_sessions (snd (handlePostAttachmentChunk cfg x r d s)) = sv_sessions (snd (admit cfg x r s))"
  unfolding handlePostAttachmentChunk_def
  by (rule gated_sessions) (simp add: spares_sessions_def Let_def split: sum.split prod.split)

lemma complete_sessions:
  "sv_sessions (snd (handleCompleteAttachment cfg x r d s)) = sv_sessions (snd (admit cfg x r s))"
  unfolding handleCompleteAttachment_def
  by (rule gated_sessions) (simp add: spares_sessions_def Let_def split: sum.split prod.split)

lemma heartbeat_sessions:
  "sv_sessions (snd (handlePresenceHeartbeat w cfg x r d s)) = sv_sessions (snd (admit cfg x r s))"
  unfolding handlePresenceHeartbeat_def
  by (rule gated_sessions) (simp add: spares_sessions_def Let_def split: sum.split prod.split)

lemma query_sessions:
  "sv_sessions (snd (handlePresenceQuery w cfg x r d s)) = sv_sessions (snd (admit cfg x r s))"
  unfolding handlePresenceQuery_def
  by (rule gated_sessions) (simp add: spares_sessions_def Let_def split: sum.split prod.split)

lemma publish_sessions:
  "sv_sessions (snd (handlePublishPrekeys w cfg x r d s)) = sv_sessions (snd (admit cfg x r s))"
  unfolding handlePublishPrekeys_def
  by (rule gated_sessions) (simp add: spares_sessions_def Let_def split: sum.split prod.split)

lemma claim_sessions:
  "sv_sessions (snd (handleClaimPrekey w cfg x r s)) = sv_sessions (snd (admit cfg x r s))"
  unfolding handleClaimPrekey_def
  by (rule gated_sessions) (simp add: spares_sessions_def Let_def split: prod.split)

lemma status_sessions:
  "sv_sessions (snd (handlePrekeyStatus w cfg x r s)) = sv_sessions (snd (admit cfg x r s))"
  unfolding handlePrekeyStatus_def
  by (rule gated_sessions) (simp add: spares_sessions_def Let_def split: sum.split prod.split)

lemma post_message_sessions:
  "sv_sessions (snd (handlePostMessage cfg x r d s)) = sv_sessions (snd (admit cfg x r s))"
  unfolding handlePostMessage_def
  by (rule gated_sessions) (simp add: spares_sessions_def Let_def split: sum.split prod.split)

lemma get_messages_sessions:
  "sv_sessions (snd (handleGetMessages w cfg x r s)) = sv_sessions (snd (admit cfg x r s))"
  unfolding handleGetMessages_def
  by (rule gated_sessions) (simp add: spares_sessions_def Let_def split: sum.split prod.split)

lemma post_ack_sessions:
  "sv_sessions (snd (handlePostAck w cfg x r d s)) = sv_sessions (snd (admit cfg x r s))"
  unfolding handlePostAck_def
  by (rule gated_sessions) (simp add: spares_sessions_def Let_def split: sum.split prod.split)

lemma get_acks_sessions:
  "sv_sessions (snd (handleGetAcks w cfg x r s)) = sv_sessions (snd (admit cfg x r s))"
  unfolding handleGetAcks_def
  by (rule gated_sessions) (simp add: spares_sessions_def Let_def split: sum.split prod.split)

lemma get_chunks_sessions:
  "handleGetAttachmentChunks cfg x r p s = Some (a, s') \<Longrightarrow> sv_sessions s' = sv_sessions (snd (admit cfg x r s))"
  by (auto simp: handleGetAttachmentChunks_def Let_def split: prod.splits sum.splits if_splits)

lemmas gated_handler_sessions =
  post_chunk_sessions complete_sessions heartbeat_sessions query_sessions publish_sessions claim_sessions status_sessions
  post_message_sessions get_messages_sessions post_ack_sessions get_acks_sessions

section \<open>Bodies\<close>

definition too_long :: "Config \<Rightarrow> string \<Rightarrow> 'a body \<Rightarrow> bool" where
  "too_long cfg path b \<longleftrightarrow> bo_present b \<and> bo_ContentLength b > bodyLimitFor cfg path"

definition body_in :: "Config \<Rightarrow> string \<Rightarrow> 'a body \<Rightarrow> decode_error + 'a" where
  "body_in cfg path b = (if bo_present b then decodeLimited (bodyLimitFor cfg path) b else bo_result b)"

lemma limitBodies_eq:
  "limitBodies cfg path b handle s =
     (if too_long cfg path b then (ErrorReply 413 ''payload_too_large'', s) else handle (body_in cfg path b) s)"
  by (simp add: limitBodies_def too_long_def body_in_def Let_def)

section \<open>The calls into the gate\<close>

definition admit_calls :: "instant \<Rightarrow> request \<Rightarrow> Server \<Rightarrow> gate_request list" where
  "admit_calls x r s =
     (let token = rq_Header r admissionHeader in
      if token = [] then []
      else ResolveReq (x_now x) token #
        (case fst (Resolve (x_now x) token (sv_sessions s)) of
           Inl _ \<Rightarrow> []
         | Inr c \<Rightarrow> (case adm_Lookup c (x_now x) (sv_admissions s) of Inl _ \<Rightarrow> [ForgetReq c] | Inr _ \<Rightarrow> [])))"

definition redeem_calls :: "world \<Rightarrow> instant \<Rightarrow> decode_error + RedeemBody \<Rightarrow> Server \<Rightarrow> gate_request list" where
  "redeem_calls w x decoded s =
     (case decoded of
        Inl _ \<Rightarrow> []
      | Inr val \<Rightarrow>
          if rb_Credential val = [] \<or> rb_Nonce val = [] \<or> rb_Signature val = [] then []
          else case b64url_decode (rb_Signature val) of
                 None \<Rightarrow> []
               | Some signature \<Rightarrow>
                   VerifyReq (x_now x) (rb_Credential val) (rb_Nonce val) signature #
                   (if fst (VerifyProof (w_crypto w) (x_now x) (rb_Credential val) (rb_Nonce val) signature (sv_sessions s)) \<noteq> None
                    then []
                    else case adm_Lookup (rb_Credential val) (x_now x) (sv_admissions s) of
                           Inl ErrExpiredCredential \<Rightarrow> [ForgetReq (rb_Credential val)]
                         | Inl _ \<Rightarrow> []
                         | Inr _ \<Rightarrow> [OpenReq (x_now x) (x_rand x) (rb_Credential val)]))"

fun gate_calls :: "world \<Rightarrow> Config \<Rightarrow> instant \<Rightarrow> request \<Rightarrow> call \<Rightarrow> Server \<Rightarrow> gate_request list" where
  "gate_calls w cfg x r AdmissionChallenge s = [ChallengeReq (x_now x) (x_rand x)]"
| "gate_calls w cfg x r (AdmissionRedeem b) s =
     (if too_long cfg ''/admission/redeem'' b then [] else redeem_calls w x (body_in cfg ''/admission/redeem'' b) s)"
| "gate_calls w cfg x r (MessagesPost b) s = (if too_long cfg ''/messages'' b then [] else admit_calls x r s)"
| "gate_calls w cfg x r (AcksPost b) s = (if too_long cfg ''/acks'' b then [] else admit_calls x r s)"
| "gate_calls w cfg x r (PresenceBeat b) s = (if too_long cfg ''/presence/heartbeat'' b then [] else admit_calls x r s)"
| "gate_calls w cfg x r (PresenceAsk b) s = (if too_long cfg ''/presence/query'' b then [] else admit_calls x r s)"
| "gate_calls w cfg x r (PrekeysPost b) s = (if too_long cfg ''/prekeys'' b then [] else admit_calls x r s)"
| "gate_calls w cfg x r (ChunksPost b) s = (if too_long cfg ''/attachments/chunks'' b then [] else admit_calls x r s)"
| "gate_calls w cfg x r (ChunksComplete b) s = (if too_long cfg ''/attachments/complete'' b then [] else admit_calls x r s)"
| "gate_calls w cfg x r (ChunksGet p) s =
     (if handleGetAttachmentChunks cfg x r p s = None then [] else admit_calls x r s)"
| "gate_calls w cfg x r call s = (if gated_call call then admit_calls x r s else [])"

abbreviation gate_trace :: "world \<Rightarrow> gate_request list \<Rightarrow> Sessions \<Rightarrow> gate_event list \<times> Sessions" where
  "gate_trace w \<equiv> trace (gate_step (w_rng w) (w_crypto w))"

lemma admit_trace: "gate_trace w (admit_calls x r s) (sv_sessions s) = ([], sv_sessions (snd (admit cfg x r s)))"
proof (cases "rq_Header r admissionHeader = []")
  case False
  let ?t = "rq_Header r admissionHeader"
  obtain a ss where res: "Resolve (x_now x) ?t (sv_sessions s) = (a, ss)" by (cases "Resolve (x_now x) ?t (sv_sessions s)")
  show ?thesis
  proof (cases a)
    case (Inl e)
    with False res show ?thesis by (simp add: admit_calls_def admit_def)
  next
    case (Inr c)
    with False res show ?thesis by (simp add: admit_calls_def admit_def split: sum.split)
  qed
qed (simp add: admit_calls_def admit_def)

lemma challenge_trace:
  "sv_sessions (snd (handleAdmissionChallenge w x s)) = snd (gate_trace w [ChallengeReq (x_now x) (x_rand x)] (sv_sessions s))"
  by (simp add: handleAdmissionChallenge_def Let_def split: prod.split sum.split)

lemma redeem_trace:
  "sv_sessions (snd (handleAdmissionRedeem w x d s)) = snd (gate_trace w (redeem_calls w x d s) (sv_sessions s))"
proof (cases d)
  case (Inr val)
  show ?thesis
  proof (cases "rb_Credential val = [] \<or> rb_Nonce val = [] \<or> rb_Signature val = [] \<or> b64url_decode (rb_Signature val) = None")
    case True
    then show ?thesis by (auto simp: handleAdmissionRedeem_def redeem_calls_def Inr)
  next
    case False
    then obtain sg where sg: "b64url_decode (rb_Signature val) = Some sg" by auto
    obtain err ss where v: "VerifyProof (w_crypto w) (x_now x) (rb_Credential val) (rb_Nonce val) sg (sv_sessions s) = (err, ss)"
      by (cases "VerifyProof (w_crypto w) (x_now x) (rb_Credential val) (rb_Nonce val) sg (sv_sessions s)")
    obtain a so where o: "OpenSession (w_rng w) (x_now x) (x_rand x) (rb_Credential val) ss = (a, so)"
      by (cases "OpenSession (w_rng w) (x_now x) (x_rand x) (rb_Credential val) ss")
    from False sg v o show ?thesis
      by (simp add: handleAdmissionRedeem_def redeem_calls_def Inr Let_def split: sum.split admission_error.split prod.split)
  qed
qed (simp add: handleAdmissionRedeem_def redeem_calls_def)

lemma ungated_sessions:
  "sv_sessions (snd (handleHealth w cfg x s)) = sv_sessions s" "sv_sessions (snd (handleNodes w x s)) = sv_sessions s"
  "sv_sessions (snd (handlePresenceRevoke w x d s)) = sv_sessions s" "sv_sessions (snd (handleProfilePurge w x d s)) = sv_sessions s"
  by (simp_all add: handleHealth_def handleNodes_def handlePresenceRevoke_def handleProfilePurge_def Let_def
      split: prod.split sum.split)

lemma serve_sessions:
  "sv_sessions (snd (serve w cfg x r call s)) = snd (gate_trace w (gate_calls w cfg x r call s) (sv_sessions s))"
proof (cases call)
  case (ChunksGet p)
  then show ?thesis
    using get_chunks_sessions [of cfg x r p s]
    by (cases "handleGetAttachmentChunks cfg x r p s") (auto simp: admit_trace [where cfg = cfg])
qed (simp_all add: limitBodies_eq gated_handler_sessions ungated_sessions admit_trace [where cfg = cfg] redeem_trace
    challenge_trace del: trace.simps(2))

section \<open>Histories\<close>

text \<open>A request as it arrives; a step shows the events of the gate.\<close>

definition server_step ::
  "world \<Rightarrow> Config \<Rightarrow> instant \<times> request \<times> call \<Rightarrow> Server \<Rightarrow> gate_event list \<times> Server" where
  "server_step w cfg rq s =
     (let (x, r, call) = rq
      in (fst (gate_trace w (gate_calls w cfg x r call s) (sv_sessions s)), snd (serve w cfg x r call s)))"

lemma server_gate:
  assumes "trace (server_step w cfg) rqs s = (es, s')"
  shows "\<exists>gs. gate_trace w gs (sv_sessions s) = (es, sv_sessions s')"
  using assms
proof (induction rqs arbitrary: s es)
  case Nil
  then show ?case by (intro exI [of _ "[]"]) simp
next
  case (Cons rq rqs)
  obtain x r call where rq: "rq = (x, r, call)" by (cases rq)
  let ?s = "snd (serve w cfg x r call s)" and ?calls = "gate_calls w cfg x r call s"
  have step: "server_step w cfg rq s = (fst (gate_trace w ?calls (sv_sessions s)), ?s)" by (simp add: rq server_step_def)
  obtain es2 where two: "trace (server_step w cfg) rqs ?s = (es2, s')" "es = fst (gate_trace w ?calls (sv_sessions s)) @ es2"
    using Cons.prems by (auto simp: step split: prod.splits)
  from Cons.IH [OF two(1)] obtain gs where gs: "gate_trace w gs (sv_sessions ?s) = (es2, sv_sessions s')" by blast
  have "gate_trace w ?calls (sv_sessions s) = (fst (gate_trace w ?calls (sv_sessions s)), sv_sessions ?s)"
    using serve_sessions [of w cfg x r call s] by simp
  from trace_append [OF this gs] show ?case unfolding two(2) by blast
qed

section \<open>An enforcing relay\<close>

text \<open>The request was turned away, and nothing but the session tables may have changed.\<close>

definition turned_away :: "Server \<Rightarrow> answer reply \<Rightarrow> Server \<Rightarrow> bool" where
  "turned_away s a s' \<longleftrightarrow> a \<in> insert (ErrorReply 413 ''payload_too_large'') refusals \<and> (\<exists>m. s' = s\<lparr>sv_sessions := m\<rparr>)"

lemma gated_turns_away:
  assumes "c_RequireAdmission cfg" "gated cfg x r handle s = (a, s')"
  shows "turned_away s a s' \<or> (\<exists>g. holds_session x r s g)"
  using assms(2)
proof (cases rule: gated_cases)
  case (refused m)
  then show ?thesis by (auto simp: turned_away_def)
next
  case (admitted g)
  with assms(1) show ?thesis by blast
qed

lemma limited_turns_away:
  assumes "\<And>d a s'. handle d s = (a, s') \<Longrightarrow> turned_away s a s' \<or> P"
    and "limitBodies cfg path b handle s = (a, s')"
  shows "turned_away s a s' \<or> P"
proof (cases "too_long cfg path b")
  case True
  have "\<exists>m. s = s\<lparr>sv_sessions := m\<rparr>" by (rule exI [of _ "sv_sessions s"]) simp
  with True assms(2) show ?thesis by (auto simp: limitBodies_eq turned_away_def)
next
  case False
  with assms show ?thesis by (simp add: limitBodies_eq)
qed

lemmas gated_handler_defs = handlePostAttachmentChunk_def handleCompleteAttachment_def handlePresenceHeartbeat_def
  handlePresenceQuery_def handlePublishPrekeys_def handleClaimPrekey_def handlePrekeyStatus_def handlePostMessage_def
  handleGetMessages_def handlePostAck_def handleGetAcks_def

lemma gated_handlers_turn_away:
  assumes "c_RequireAdmission cfg"
  shows "handlePostAttachmentChunk cfg x r d1 s = (a, s') \<Longrightarrow> turned_away s a s' \<or> (\<exists>g. holds_session x r s g)"
    "handleCompleteAttachment cfg x r d2 s = (a, s') \<Longrightarrow> turned_away s a s' \<or> (\<exists>g. holds_session x r s g)"
    "handlePresenceHeartbeat w cfg x r d3 s = (a, s') \<Longrightarrow> turned_away s a s' \<or> (\<exists>g. holds_session x r s g)"
    "handlePresenceQuery w cfg x r d4 s = (a, s') \<Longrightarrow> turned_away s a s' \<or> (\<exists>g. holds_session x r s g)"
    "handlePublishPrekeys w cfg x r d5 s = (a, s') \<Longrightarrow> turned_away s a s' \<or> (\<exists>g. holds_session x r s g)"
    "handleClaimPrekey w cfg x r s = (a, s') \<Longrightarrow> turned_away s a s' \<or> (\<exists>g. holds_session x r s g)"
    "handlePrekeyStatus w cfg x r s = (a, s') \<Longrightarrow> turned_away s a s' \<or> (\<exists>g. holds_session x r s g)"
    "handlePostMessage cfg x r d6 s = (a, s') \<Longrightarrow> turned_away s a s' \<or> (\<exists>g. holds_session x r s g)"
    "handleGetMessages w cfg x r s = (a, s') \<Longrightarrow> turned_away s a s' \<or> (\<exists>g. holds_session x r s g)"
    "handlePostAck w cfg x r d7 s = (a, s') \<Longrightarrow> turned_away s a s' \<or> (\<exists>g. holds_session x r s g)"
    "handleGetAcks w cfg x r s = (a, s') \<Longrightarrow> turned_away s a s' \<or> (\<exists>g. holds_session x r s g)"
  unfolding gated_handler_defs by (rule gated_turns_away [OF assms], assumption)+

lemma poll_turns_away:
  assumes "c_RequireAdmission cfg" "handleGetAttachmentChunks cfg x r p s = Some (a, s')"
  shows "turned_away s a s' \<or> (\<exists>g. holds_session x r s g)"
proof -
  obtain b s1 where adm: "admit cfg x r s = (b, s1)" by (cases "admit cfg x r s")
  from adm show ?thesis
  proof (cases rule: admit_cases)
    case (refused e m)
    with assms(2) adm have "a = e" "s' = s1" by (simp_all add: handleGetAttachmentChunks_def)
    with refused show ?thesis by (auto simp: turned_away_def)
  next
    case open_box
    with assms(1) show ?thesis by simp
  next
    case (admitted g)
    then show ?thesis by blast
  qed
qed

lemma serve_turns_away:
  assumes enforcing: "c_RequireAdmission cfg" and "gated_call call" "serve w cfg x r call s = (a, s')"
    and returns: "\<And>p. call = ChunksGet p \<Longrightarrow> handleGetAttachmentChunks cfg x r p s \<noteq> None"
  shows "turned_away s a s' \<or> (\<exists>g. holds_session x r s g)"
proof (cases call)
  case (ChunksGet p)
  with assms(3) returns obtain b where "handleGetAttachmentChunks cfg x r p s = Some b" "b = (a, s')" by auto
  with poll_turns_away [OF enforcing] show ?thesis by blast
qed (use assms(2,3) gated_handlers_turn_away [OF enforcing] limited_turns_away [OF gated_handlers_turn_away(1) [OF enforcing]]
    limited_turns_away [OF gated_handlers_turn_away(2) [OF enforcing]] limited_turns_away [OF gated_handlers_turn_away(3) [OF enforcing]]
    limited_turns_away [OF gated_handlers_turn_away(4) [OF enforcing]] limited_turns_away [OF gated_handlers_turn_away(5) [OF enforcing]]
    limited_turns_away [OF gated_handlers_turn_away(8) [OF enforcing]] limited_turns_away [OF gated_handlers_turn_away(10) [OF enforcing]]
    in simp_all)

section \<open>The exchange\<close>

text \<open>The request proves its credential: it signed a nonce that is held and has not run out.\<close>

definition proved :: "world \<Rightarrow> instant \<Rightarrow> RedeemBody \<Rightarrow> Server \<Rightarrow> bool" where
  "proved w x val s \<longleftrightarrow>
     (\<exists>signature expiry. b64url_decode (rb_Signature val) = Some signature \<and>
        fmlookup (ss_nonces (sv_sessions s)) (rb_Nonce val) = Some expiry \<and> x_now x < expiry \<and>
        Verify (w_crypto w) (rb_Credential val) (rb_Nonce val) signature)"

definition complete_proof :: "RedeemBody \<Rightarrow> bool" where
  "complete_proof val \<longleftrightarrow> rb_Credential val \<noteq> [] \<and> rb_Nonce val \<noteq> [] \<and> rb_Signature val \<noteq> []"

definition spend :: "RedeemBody \<Rightarrow> Server \<Rightarrow> Server" where
  "spend val s = s\<lparr>sv_sessions := (sv_sessions s)\<lparr>ss_nonces := fmdrop (rb_Nonce val) (ss_nonces (sv_sessions s))\<rparr>\<rparr>"

lemma redeem_unproved:
  assumes "\<not> (complete_proof val \<and> proved w x val s)"
  shows "\<exists>code m. fst (handleAdmissionRedeem w x (Inr val) s) = ErrorReply code m \<and>
      (code, m) \<in> {(400, ''invalid_admission_proof''), (403, ''admission_refused'')} \<and>
      handleAdmissionRedeem w x (Inr val) (s\<lparr>sv_admissions := A\<rparr>) =
        (ErrorReply code m, (snd (handleAdmissionRedeem w x (Inr val) s))\<lparr>sv_admissions := A\<rparr>)"
proof (cases "complete_proof val \<and> b64url_decode (rb_Signature val) \<noteq> None")
  case True
  then obtain sg where sg: "b64url_decode (rb_Signature val) = Some sg" by auto
  obtain err ss where v: "VerifyProof (w_crypto w) (x_now x) (rb_Credential val) (rb_Nonce val) sg (sv_sessions s) = (err, ss)"
    by (cases "VerifyProof (w_crypto w) (x_now x) (rb_Credential val) (rb_Nonce val) sg (sv_sessions s)")
  from v have "err \<noteq> None"
  proof (cases rule: VerifyProof_cases)
    case (spent expiry)
    with assms True sg show ?thesis by (auto simp: proved_def)
  qed simp
  with True sg v show ?thesis by (auto simp: handleAdmissionRedeem_def complete_proof_def)
qed (auto simp: handleAdmissionRedeem_def complete_proof_def)

lemma redeem_proved:
  assumes "complete_proof val" "proved w x val s"
  shows "handleAdmissionRedeem w x (Inr val) s =
    (case adm_Lookup (rb_Credential val) (x_now x) (sv_admissions s) of
       Inl ErrExpiredCredential \<Rightarrow>
         (ErrorReply 403 ''admission_expired'', (spend val s)\<lparr>sv_sessions := Forget (rb_Credential val) (sv_sessions (spend val s))\<rparr>)
     | Inl _ \<Rightarrow> (ErrorReply 403 ''admission_refused'', spend val s)
     | Inr grant \<Rightarrow>
         let (a, sessions) = OpenSession (w_rng w) (x_now x) (x_rand x) (rb_Credential val) (sv_sessions (spend val s));
             s' = (spend val s)\<lparr>sv_sessions := sessions\<rparr>
         in case a of
              Inl ErrGateBusy \<Rightarrow> (ErrorReply 429 ''admission_busy'', s')
            | Inl _ \<Rightarrow> (ErrorReply 403 ''admission_refused'', s')
            | Inr (token, ttl) \<Rightarrow>
                (Reply 200 (VSession token (w_secs w ttl) (termsJSON (w_secs w) (gr_Terms grant))), s'))"
proof -
  obtain sg expiry where p: "b64url_decode (rb_Signature val) = Some sg"
    "fmlookup (ss_nonces (sv_sessions s)) (rb_Nonce val) = Some expiry" "x_now x < expiry"
    "Verify (w_crypto w) (rb_Credential val) (rb_Nonce val) sg" using assms(2) by (auto simp: proved_def)
  have v: "VerifyProof (w_crypto w) (x_now x) (rb_Credential val) (rb_Nonce val) sg (sv_sessions s) = (None, sv_sessions (spend val s))"
    using p by (simp add: VerifyProof_def spendNonceLocked_def spend_def)
  have [simp]: "s\<lparr>sv_sessions := sv_sessions (spend val s)\<rparr> = spend val s" "sv_admissions (spend val s) = sv_admissions s"
      "(spend val s)\<lparr>sv_sessions := m\<rparr> = s\<lparr>sv_sessions := m\<rparr>" for m
    by (simp_all add: spend_def)
  obtain a ss where o: "OpenSession (w_rng w) (x_now x) (x_rand x) (rb_Credential val) (sv_sessions (spend val s)) = (a, ss)"
    by (cases "OpenSession (w_rng w) (x_now x) (x_rand x) (rb_Credential val) (sv_sessions (spend val s))")
  from assms(1) p(1) v o show ?thesis
    by (cases "adm_Lookup (rb_Credential val) (x_now x) (sv_admissions s)"; cases a)
       (simp_all add: handleAdmissionRedeem_def complete_proof_def split: admission_error.split)
qed

lemma sweep_none:
  "fmlookup (ss_nonces s) k = None \<Longrightarrow> fmlookup (ss_nonces (adm_sweepLocked rng now s)) k = None"
  "fmlookup (ss_sessions s) k = None \<Longrightarrow> fmlookup (ss_sessions (adm_sweepLocked rng now s)) k = None"
  using sweep_shrinks [of s rng now] unfolding shrinks_def by (metis option.exhaust option.simps(3))+

text \<open>A session that was opened under a fresh token is in the table.\<close>

lemma Open_live:
  assumes "OpenSession rng now rand c s = (Inr (token, ttl), s')" "lists_ok s" "fmlookup (ss_sessions s) token = None"
  shows "ttl = sessionTTL" "fmlookup (ss_sessions s') token = Some \<lparr>en_credentialID = c, en_expiresAt = now + sessionTTL\<rparr>"
proof -
  let ?q = "adm_sweepLocked rng now s"
  have "ttl = sessionTTL \<and> fmlookup (ss_sessions s') token = Some \<lparr>en_credentialID = c, en_expiresAt = now + sessionTTL\<rparr>"
    using assms(1)
  proof (cases rule: Open_cases)
    case (opened raw old kept)
    have none: "fmlookup (ss_sessions ?q) token = None" by (rule sweep_none(2) [OF assms(3)])
    have "tokens_ok ?q c" using lists_sweep [OF assms(2)] by (simp add: lists_ok_def)
    then have fresh: "token \<notin> set (tokensOf ?q c)" using none by (auto simp: tokens_ok_def)
    have "kept \<noteq> []" using opened(4,6) by (auto simp: maxSessionsPerCredential_def)
    then have "set old \<subseteq> set (butlast (old @ kept))" by (auto simp: butlast_append)
    also have "\<dots> = set (tokensOf ?q c)" unfolding opened(4) [symmetric] by simp
    finally have "token \<notin> set old" using fresh by blast
    with opened show ?thesis by (auto simp: lookup_fold_drop)
  qed simp
  then show "ttl = sessionTTL" "fmlookup (ss_sessions s') token = Some \<lparr>en_credentialID = c, en_expiresAt = now + sessionTTL\<rparr>"
    by blast+
qed

lemma admit_live:
  assumes "rq_Header r admissionHeader = token" "token \<noteq> []"
    "fmlookup (ss_sessions (sv_sessions s)) token = Some \<lparr>en_credentialID = c, en_expiresAt = expiry\<rparr>" "x_now x < expiry"
    "adm_Lookup c (x_now x) (sv_admissions s) = Inr g"
  shows "admit cfg x r s = (Inr g, s)"
  using assms by (simp add: admit_def Resolve_def)

end
