(* ===== verification/Server_Props.thy ===== *)
theory Server_Props
  imports Server_Inv Admission_Code
begin

text \<open>The properties of the HTTP layer: the gate, the exchange that opens it, and the long poll.\<close>

section \<open>Concrete inputs\<close>

definition sv_ex_cfg :: Config where
  "sv_ex_cfg = (FromEnv (\<lambda>_ _ _. 0) (\<lambda>_. []))\<lparr>c_RequireAdmission := True, c_RequireFetchAuth := True\<rparr>"

definition sv_ex_net :: netlib where
  "sv_ex_net = \<lparr>nl_SplitHostPort = (\<lambda>_. None), nl_ParseIP = (\<lambda>_. None), nl_ParseURL = (\<lambda>_. None),
     nl_IPString = (\<lambda>_. []), nl_withHost = (\<lambda>_ _. [])\<rparr>"

text \<open>A toy signature scheme in which the key is the seed and the signature is its length in padding.\<close>

definition sv_ex_crypto :: crypto where
  "sv_ex_crypto = \<lparr>cr_sha256 = (\<lambda>_. replicate 32 CHR ''k''), cr_public = (\<lambda>seed. replicate 32 CHR ''k''),
     cr_sign = (\<lambda>seed m. replicate 64 CHR ''s''), cr_verify = (\<lambda>pub m sig. sig = replicate 64 CHR ''s'')\<rparr>"

definition sv_ex_world :: world where
  "sv_ex_world = \<lparr>w_rng = sorted_list_of_fset, w_fl = (\<lambda>q. q), w_secs = (\<lambda>d. d div Second), w_crypto = sv_ex_crypto,
     w_net = sv_ex_net\<rparr>"

definition sv_ex_server :: Server where
  "sv_ex_server = NewServer sv_ex_world sv_ex_cfg 1 (NewStore ''e'' \<lparr>cfg_MaxMessages = 4, cfg_MaxAcks = 8, cfg_MaxPurges = 4,
     cfg_MaxPerPair = 2, cfg_MaxPayloadBytes = 100, cfg_MaxTTL = 1000, cfg_DefaultTTL = 1000\<rparr>)
     (NewPool sv_ex_net [] ''n'' ''u'' []) None"

definition sv_ex_request :: request where
  "sv_ex_request = \<lparr>rq_Header = (\<lambda>_. []), rq_Query = (\<lambda>_. ''q'')\<rparr>"

definition sv_ex_instant :: "time \<Rightarrow> string option \<Rightarrow> instant" where
  "sv_ex_instant t rand = \<lparr>x_now = t, x_rand = rand, x_localIPs = []\<rparr>"

section \<open>The gate\<close>

text \<open>
  C4. On an enforcing relay, along every history of requests, a gated request is either turned away
  (with 401, 403, or 413 for its length), and then nothing but the session tables may have changed;
  or it carries a token under which a session was opened less than 15 minutes ago for a credential
  that the store admits at this moment. A credential that was removed or has expired opens nothing.
\<close>

theorem gate_enforced:
  assumes "c_RequireAdmission cfg" "sv_sessions s0 = NewSessions" "trace (server_step w cfg) rqs s0 = (es, s)"
    and "gated_call call" "serve w cfg x r call s = (a, s')"
    and "\<forall>p. call = ChunksGet p \<longrightarrow> handleGetAttachmentChunks cfg x r p s \<noteq> None"
  shows "turned_away s a s' \<or>
    (\<exists>c t g. SessionOpened (rq_Header r admissionHeader) c t \<in> set es \<and> x_now x < t + sessionTTL \<and>
       adm_Lookup c (x_now x) (sv_admissions s) = Inr g)"
proof -
  from serve_turns_away [OF assms(1,4,5)] assms(6) have "turned_away s a s' \<or> (\<exists>g. holds_session x r s g)" by blast
  then show ?thesis
  proof
    assume "\<exists>g. holds_session x r s g"
    then obtain g c where res: "fst (Resolve (x_now x) (rq_Header r admissionHeader) (sv_sessions s)) = Inr c"
      and look: "adm_Lookup c (x_now x) (sv_admissions s) = Inr g" by (auto simp: holds_session_def)
    from server_gate [OF assms(3)] obtain gs where gs: "gate_trace w gs NewSessions = (es, sv_sessions s)"
      by (auto simp: assms(2))
    have "session_books [] NewSessions" by (simp add: session_books_def NewSessions_def)
    from gate_sessions.trace_inv [OF this _ gs] have books: "session_books es (sv_sessions s)" by (simp add: list_all_iff)
    obtain b ss where call: "Resolve (x_now x) (rq_Header r admissionHeader) (sv_sessions s) = (b, ss)"
      by (cases "Resolve (x_now x) (rq_Header r admissionHeader) (sv_sessions s)")
    from call have "\<exists>t. SessionOpened (rq_Header r admissionHeader) c t \<in> set es \<and> x_now x < t + sessionTTL"
    proof (cases rule: Resolve_cases)
      case (live e)
      with res call books have "SessionOpened (rq_Header r admissionHeader) c (en_expiresAt e - sessionTTL) \<in> set es"
        by (auto simp: session_books_def)
      with live(2) show ?thesis by (intro exI [of _ "en_expiresAt e - sessionTTL"]) simp
    qed (use res call in simp_all)
    with look show ?thesis by blast
  qed blast
qed

theorem gate_enforced_witness:
  "turned_away sv_ex_server (ErrorReply 401 ''admission_required'')
     (snd (serve sv_ex_world sv_ex_cfg (sv_ex_instant 5 None) sv_ex_request MessagesGet sv_ex_server))"
proof -
  have fresh: "sv_sessions sv_ex_server = NewSessions" by (simp add: sv_ex_server_def NewServer_def)
  have on: "c_RequireAdmission sv_ex_cfg" by (simp add: sv_ex_cfg_def)
  let ?r = "serve sv_ex_world sv_ex_cfg (sv_ex_instant 5 None) sv_ex_request MessagesGet sv_ex_server"
  have call: "?r = (ErrorReply 401 ''admission_required'', snd ?r)"
    by (simp add: handleGetMessages_def gated_def admit_def sv_ex_request_def on)
  from gate_enforced [OF on fresh trace.simps(1) [of "server_step sv_ex_world sv_ex_cfg"] _ call] show ?thesis by simp
qed

section \<open>The exchange\<close>

text \<open>
  C17. A redeem opens a session only for a caller that signed, with the key of the credential, a
  nonce the relay holds and that has not run out, and only while the store admits the credential.
  Without such a proof the answer and the state after it are the same whatever credentials are
  loaded, so the route tells nobody which circles the relay carries.
\<close>

theorem redeem_needs_proof:
  assumes "handleAdmissionRedeem w x (Inr val) s = (a, s')"
  shows "(a = Reply status (VSession token ttl terms) \<longrightarrow>
      complete_proof val \<and> proved w x val s \<and> (\<exists>g. adm_Lookup (rb_Credential val) (x_now x) (sv_admissions s) = Inr g) \<and>
      fmlookup (ss_nonces (sv_sessions s')) (rb_Nonce val) = None) \<and>
    (\<not> (complete_proof val \<and> proved w x val s) \<longrightarrow>
      handleAdmissionRedeem w x (Inr val) (s\<lparr>sv_admissions := A\<rparr>) = (a, s'\<lparr>sv_admissions := A\<rparr>))"
proof (cases "complete_proof val \<and> proved w x val s")
  case True
  let ?so = "OpenSession (w_rng w) (x_now x) (x_rand x) (rb_Credential val) (sv_sessions (spend val s))"
  obtain b ss where o: "?so = (b, ss)" by (cases ?so)
  have "fmlookup (ss_nonces (sv_sessions (spend val s))) (rb_Nonce val) = None" by (simp add: spend_def)
  note gone = sweep_none(1) [OF this, of "w_rng w" "x_now x"]
  have "fmlookup (ss_nonces ss) (rb_Nonce val) = None" using o by (cases rule: Open_cases) (simp_all add: gone)
  with True assms redeem_proved [of val w x s] o show ?thesis
    by (auto simp: Let_def split: sum.splits admission_error.splits)
next
  case False
  from redeem_unproved [OF False, of A] assms False show ?thesis by auto
qed

definition sv_ex_id :: string where
  "sv_ex_id = b64url_encode (replicate 32 CHR ''k'')"

definition sv_ex_loaded :: Server where
  "sv_ex_loaded = sv_ex_server\<lparr>sv_admissions :=
     Replace [\<lparr>cred_ID = sv_ex_id, cred_Terms = zero_Terms\<lparr>te_NotAfter := 100\<rparr>\<rparr>] adm_NewStore\<rparr>"

definition sv_ex_guess :: RedeemBody where
  "sv_ex_guess = \<lparr>rb_Credential = sv_ex_id, rb_Nonce = ''n'', rb_Signature = ''AAAA''\<rparr>"

lemma sv_ex_sessions: "sv_sessions sv_ex_server = NewSessions" "sv_sessions sv_ex_loaded = NewSessions"
  by (simp_all add: sv_ex_loaded_def sv_ex_server_def NewServer_def)

theorem redeem_needs_proof_witness:
  "handleAdmissionRedeem sv_ex_world (sv_ex_instant 5 None) (Inr sv_ex_guess) sv_ex_server =
     (fst (handleAdmissionRedeem sv_ex_world (sv_ex_instant 5 None) (Inr sv_ex_guess) sv_ex_loaded),
      (snd (handleAdmissionRedeem sv_ex_world (sv_ex_instant 5 None) (Inr sv_ex_guess) sv_ex_loaded))\<lparr>sv_admissions := adm_NewStore\<rparr>)"
proof -
  have "\<not> proved sv_ex_world (sv_ex_instant 5 None) sv_ex_guess sv_ex_loaded"
    by (simp add: proved_def sv_ex_sessions NewSessions_def)
  moreover have "sv_ex_loaded\<lparr>sv_admissions := adm_NewStore\<rparr> = sv_ex_server"
    by (simp add: sv_ex_loaded_def sv_ex_server_def NewServer_def)
  ultimately show ?thesis
    using redeem_needs_proof [OF prod.collapse [symmetric], of sv_ex_world "sv_ex_instant 5 None" sv_ex_guess sv_ex_loaded _ _ _ _ adm_NewStore]
    by simp
qed

text \<open>What the holder of a code relies on of Ed25519.\<close>

definition ed25519_laws :: "crypto \<Rightarrow> bool" where
  "ed25519_laws cr \<longleftrightarrow>
     (\<forall>seed. length (cr_public cr seed) = 32) \<and>
     (\<forall>seed m. length (cr_sign cr seed m) = 64 \<and> cr_verify cr (cr_public cr seed) m (cr_sign cr seed m))"

definition proof_of :: "crypto \<Rightarrow> string \<Rightarrow> string \<Rightarrow> RedeemBody" where
  "proof_of cr code nonce =
     (let (seed, credentialID) = KeyFromCode cr code
      in \<lparr>rb_Credential = credentialID, rb_Nonce = nonce,
          rb_Signature = b64url_encode (cr_sign cr seed (Transcript nonce credentialID))\<rparr>)"

lemma proof_of_proves:
  assumes "ed25519_laws (w_crypto w)" "nonce \<noteq> []"
    "fmlookup (ss_nonces (sv_sessions s)) nonce = Some expiry" "x_now x < expiry"
  shows "complete_proof (proof_of (w_crypto w) code nonce)" "proved w x (proof_of (w_crypto w) code nonce) s"
proof -
  have len: "length (b64url_encode t) = 0 \<longleftrightarrow> t = []" for t
    using length_b64url_encode [of t] by (cases t) auto
  let ?cr = "w_crypto w"
  let ?seed = "fst (KeyFromCode ?cr code)" and ?id = "snd (KeyFromCode ?cr code)"
  have id: "?id = b64url_encode (cr_public ?cr ?seed)" by (simp add: KeyFromCode_def Let_def CredentialID_def)
  have ne: "cr_public ?cr ?seed \<noteq> []" "cr_sign ?cr ?seed (Transcript nonce ?id) \<noteq> []"
    using assms(1) by (auto simp: ed25519_laws_def) (metis list.size(3) zero_neq_numeral)+
  show "complete_proof (proof_of ?cr code nonce)"
    using ne len assms(2) by (auto simp: complete_proof_def proof_of_def case_prod_beta id)
  have "Verify ?cr ?id nonce (cr_sign ?cr ?seed (Transcript nonce ?id))"
    using assms(1) by (simp add: Verify_def id b64url_decode_encode ed25519_laws_def)
  then show "proved w x (proof_of ?cr code nonce) s"
    using assms(3,4) by (auto simp: proved_def proof_of_def case_prod_beta b64url_decode_encode)
qed

lemma challenge_nonce:
  assumes "serve w cfg x r AdmissionChallenge s = (Reply status (VChallenge nonce n), s')" "lists_ok (sv_sessions s)"
  shows "\<exists>ss. s' = s\<lparr>sv_sessions := ss\<rparr> \<and> fmlookup (ss_nonces ss) nonce = Some (x_now x + nonceTTL) \<and> lists_ok ss"
proof -
  obtain c ss where ch: "Challenge (w_rng w) (x_now x) (x_rand x) (sv_sessions s) = (c, ss)"
    by (cases "Challenge (w_rng w) (x_now x) (x_rand x) (sv_sessions s)")
  have s': "s' = s\<lparr>sv_sessions := ss\<rparr>" "\<exists>ttl. c = Inr (nonce, ttl)"
    using assms(1) ch by (auto simp: handleAdmissionChallenge_def Let_def split: sum.splits)
  from ch have "fmlookup (ss_nonces ss) nonce = Some (x_now x + nonceTTL) \<and> lists_ok ss"
  proof (cases rule: Challenge_cases)
    case (issued raw)
    with s'(2) lists_sweep [OF assms(2)] show ?thesis by (auto simp: lists_nonces)
  qed (use s'(2) in simp)
  with s'(1) show ?thesis by blast
qed

text \<open>The exchange, from the challenge to the session.\<close>

lemma code_exchange:
  assumes laws: "ed25519_laws (w_crypto w)" and form: "transcribes written_form code"
    and ok: "lists_ok (sv_sessions s0)"
    and ask: "serve w cfg x0 r0 AdmissionChallenge s0 = (Reply 200 (VChallenge nonce n), s1)" "nonce \<noteq> []"
    and soon: "x_now x1 < x_now x0 + nonceTTL"
    and look: "adm_Lookup (snd (KeyFromCode (w_crypto w) code)) (x_now x1) (sv_admissions s0) = Inr g"
    and redeem: "handleAdmissionRedeem w x1 (Inr (proof_of (w_crypto w) written_form nonce)) s1 = (a, s2)"
    and room: "a \<noteq> ErrorReply 429 ''admission_busy''"
  shows "\<exists>token. a = Reply 200 (VSession token (w_secs w sessionTTL) (termsJSON (w_secs w) (gr_Terms g))) \<and>
    (token \<noteq> [] \<and> fmlookup (ss_sessions (sv_sessions s1)) token = None \<longrightarrow>
      (\<forall>x2 r2 g2. rq_Header r2 admissionHeader = token \<and> x_now x2 < x_now x1 + sessionTTL \<and>
         adm_Lookup (snd (KeyFromCode (w_crypto w) code)) (x_now x2) (sv_admissions s0) = Inr g2 \<longrightarrow>
         admit cfg x2 r2 s2 = (Inr g2, s2)))"
proof -
  let ?cr = "w_crypto w" and ?val = "proof_of (w_crypto w) written_form nonce"
  from challenge_nonce [OF ask(1) ok] obtain ss where s1: "s1 = s0\<lparr>sv_sessions := ss\<rparr>"
    and held: "fmlookup (ss_nonces ss) nonce = Some (x_now x0 + nonceTTL)" "lists_ok ss" by blast
  have pr: "complete_proof ?val" "proved w x1 ?val s1"
    using proof_of_proves [OF laws ask(2), of s1 "x_now x0 + nonceTTL" x1 written_form] held soon by (simp_all add: s1)
  have cred: "rb_Credential ?val = snd (KeyFromCode ?cr code)" by (simp add: proof_of_def case_prod_beta transcribes_key [OF form])
  obtain b so where o: "OpenSession (w_rng w) (x_now x1) (x_rand x1) (rb_Credential ?val) (sv_sessions (spend ?val s1)) = (b, so)"
    by (cases "OpenSession (w_rng w) (x_now x1) (x_rand x1) (rb_Credential ?val) (sv_sessions (spend ?val s1))")
  have busy: "b = Inl e \<Longrightarrow> e = ErrGateBusy" for e
    using o by (auto simp: OpenSession_def Let_def randomToken_def split: if_splits option.splits prod.splits)
  note call = redeem [unfolded redeem_proved [OF pr] o Let_def, unfolded cred]
  obtain token ttl where b: "b = Inr (token, ttl)" and a: "a = Reply 200 (VSession token (w_secs w ttl) (termsJSON (w_secs w) (gr_Terms g)))"
    and s2: "s2 = (spend ?val s1)\<lparr>sv_sessions := so\<rparr>"
    using call look room busy by (cases b) (auto simp: s1)
  have lists: "lists_ok (sv_sessions (spend ?val s1))" using held(2) by (simp add: spend_def s1 lists_nonces)
  show ?thesis
  proof (intro exI conjI impI allI)
    show "a = Reply 200 (VSession token (w_secs w sessionTTL) (termsJSON (w_secs w) (gr_Terms g)))"
      using a o b by (auto elim!: Open_cases)
    fix x2 :: instant and r2 :: request and g2
    assume fresh: "token \<noteq> [] \<and> fmlookup (ss_sessions (sv_sessions s1)) token = None"
      and later: "rq_Header r2 admissionHeader = token \<and> x_now x2 < x_now x1 + sessionTTL \<and>
         adm_Lookup (snd (KeyFromCode ?cr code)) (x_now x2) (sv_admissions s0) = Inr g2"
    have "fmlookup (ss_sessions (sv_sessions (spend ?val s1))) token = None" using fresh by (simp add: spend_def)
    from Open_live(2) [OF o [unfolded b] lists this]
    have "fmlookup (ss_sessions (sv_sessions s2)) token = Some \<lparr>en_credentialID = snd (KeyFromCode ?cr code), en_expiresAt = x_now x1 + sessionTTL\<rparr>"
      by (simp add: s2 cred)
    from admit_live [OF _ _ this] fresh later show "admit cfg x2 r2 s2 = (Inr g2, s2)" by (simp add: s2 spend_def s1)
  qed
qed

text \<open>
  The holder of a code gets in. Whoever signs a fresh challenge with the key derived from any
  written form of a code, for a credential the store admits, is given a session with its terms
  unless the gate is full, and until the session runs out every request under its token is charged
  to the grant the store has for the credential at that moment.
\<close>

theorem code_holder_admitted:
  assumes laws: "ed25519_laws (w_crypto w)" and form: "transcribes written_form code"
    and ok: "lists_ok (sv_sessions s0)"
    and ask: "serve w cfg x0 r0 AdmissionChallenge s0 = (Reply 200 (VChallenge nonce n), s1)" "nonce \<noteq> []"
    and soon: "x_now x1 < x_now x0 + nonceTTL"
    and look: "adm_Lookup (snd (KeyFromCode (w_crypto w) code)) (x_now x1) (sv_admissions s0) = Inr g"
    and redeem: "handleAdmissionRedeem w x1 (Inr (proof_of (w_crypto w) written_form nonce)) s1 = (a, s2)"
    and room: "a \<noteq> ErrorReply 429 ''admission_busy''"
  shows "\<exists>token. a = Reply 200 (VSession token (w_secs w sessionTTL) (termsJSON (w_secs w) (gr_Terms g))) \<and>
    (token \<noteq> [] \<and> fmlookup (ss_sessions (sv_sessions s1)) token = None \<longrightarrow>
      (\<forall>x2 r2 g2. rq_Header r2 admissionHeader = token \<and> x_now x2 < x_now x1 + sessionTTL \<and>
         adm_Lookup (snd (KeyFromCode (w_crypto w) code)) (x_now x2) (sv_admissions s0) = Inr g2 \<longrightarrow>
         admit cfg x2 r2 s2 = (Inr g2, s2)))"
  by (rule code_exchange [OF assms])

theorem code_holder_admitted_witness:
  "\<exists>token. fst (handleAdmissionRedeem sv_ex_world (sv_ex_instant 6 (Some ''abd''))
      (Inr (proof_of sv_ex_crypto ''oO'' (b64url_encode ''abc'')))
      (snd (serve sv_ex_world sv_ex_cfg (sv_ex_instant 5 (Some ''abc'')) sv_ex_request AdmissionChallenge sv_ex_loaded))) =
    Reply 200 (VSession token 900 [(''notAfter'', TermTime 100)])"
proof -
  let ?w = sv_ex_world and ?x0 = "sv_ex_instant 5 (Some ''abc'')" and ?x1 = "sv_ex_instant 6 (Some ''abd'')"
  let ?n = "b64url_encode ''abc''"
  let ?ask = "serve ?w sv_ex_cfg ?x0 sv_ex_request AdmissionChallenge sv_ex_loaded"
  let ?redeem = "handleAdmissionRedeem ?w ?x1 (Inr (proof_of (w_crypto ?w) ''oO'' ?n)) (snd ?ask)"
  have cr: "w_crypto ?w = sv_ex_crypto" by (simp add: sv_ex_world_def)
  have laws: "ed25519_laws (w_crypto ?w)" by (simp add: cr ed25519_laws_def sv_ex_crypto_def)
  have ch: "written (CHR ''o'') (CHR ''0'')" "written (CHR ''O'') (CHR ''0'')" by (simp_all add: written_def codeAlphabet_def)
  have form: "transcribes ''oO'' ''00''" by (intro transcribes.intros ch)
  have ok: "lists_ok (sv_sessions sv_ex_loaded)"
    by (simp add: sv_ex_sessions lists_ok_def tokens_ok_def tokensOf_def NewSessions_def)
  have ne: "?n \<noteq> []" by (simp add: Let_def)
  have swept: "adm_sweepLocked sorted_list_of_fset now \<lparr>ss_nonces = fmempty, ss_sessions = fmempty, ss_byCredential = m\<rparr> =
      \<lparr>ss_nonces = fmempty, ss_sessions = fmempty, ss_byCredential = m\<rparr>" for now m
    by (simp add: adm_sweepLocked_def live_part_def)
  have asked: "?ask = (Reply 200 (VChallenge ?n 30), sv_ex_loaded\<lparr>sv_sessions := NewSessions\<lparr>ss_nonces := fmupd ?n (5 + nonceTTL) fmempty\<rparr>\<rparr>)"
    by (simp add: handleAdmissionChallenge_def Challenge_def sv_ex_sessions sv_ex_world_def sv_ex_instant_def NewSessions_def swept
        randomToken_def maxNonces_def nonceTTL_def Second_def del: b64url_encode.simps)
  have soon: "x_now ?x1 < x_now ?x0 + nonceTTL" by (simp add: sv_ex_instant_def nonceTTL_def Second_def)
  have look: "adm_Lookup (snd (KeyFromCode (w_crypto ?w) ''00'')) (x_now ?x1) (sv_admissions sv_ex_loaded) =
      Inr \<lparr>gr_Index = 1, gr_ID = sv_ex_id, gr_Terms = zero_Terms\<lparr>te_NotAfter := 100\<rparr>\<rparr>"
    by (simp add: cr KeyFromCode_def CredentialID_def sv_ex_crypto_def sv_ex_id_def sv_ex_loaded_def Replace_def replaceStep_def
        adm_NewStore_def adm_Lookup_def sv_ex_instant_def del: b64url_encode.simps)
  have held: "fmlookup (ss_nonces (sv_sessions (snd ?ask))) ?n = Some (5 + nonceTTL)"
    unfolding asked by (simp del: b64url_encode.simps)
  have "x_now ?x1 < 5 + nonceTTL" using soon by (simp add: sv_ex_instant_def)
  note pr = proof_of_proves [OF laws ne held this, of "''oO''"]
  have cred: "rb_Credential (proof_of (w_crypto ?w) ''oO'' ?n) = snd (KeyFromCode (w_crypto ?w) ''00'')"
    "rb_Nonce (proof_of (w_crypto ?w) ''oO'' ?n) = ?n"
    by (simp_all add: proof_of_def case_prod_beta transcribes_key [OF form])
  have left: "sv_sessions (spend (proof_of (w_crypto ?w) ''oO'' ?n) (snd ?ask)) = NewSessions"
    unfolding spend_def cred asked by (simp add: NewSessions_def fmdrop_fmupd_same del: b64url_encode.simps)
  have "fst ?redeem \<noteq> ErrorReply 429 ''admission_busy''"
    unfolding redeem_proved [OF pr] left cred unfolding asked snd_conv
    using look by (simp add: OpenSession_def NewSessions_def sv_ex_world_def sv_ex_instant_def swept randomToken_def
        adm_maxSessions_def tokensOf_def maxSessionsPerCredential_def del: b64url_encode.simps)
  from code_holder_admitted [OF laws form ok asked ne _ look, of "fst ?redeem" "snd ?redeem"] soon this
  show ?thesis
    unfolding asked snd_conv by (auto simp: cr termsJSON_def zero_Terms_def sv_ex_world_def sessionTTL_def Minute_def Second_def simp del: b64url_encode.simps)
qed

end
