(* ===== verification/Server_More_Props.thy ===== *)
theory Server_More_Props
  imports Server_Props
begin

text \<open>The long poll, the callers presence is charged to, and the tags an enforcing relay asks for.\<close>

section \<open>The long poll\<close>

text \<open>The loop, cut off after a number of rounds.\<close>

fun pollRounds ::
  "nat \<Rightarrow> (nat \<Rightarrow> Relay \<Rightarrow> Relay) \<Rightarrow> (nat \<Rightarrow> time) \<Rightarrow> (nat \<Rightarrow> bool) \<Rightarrow> time \<Rightarrow> string \<Rightarrow> string \<Rightarrow> nat \<Rightarrow> Relay \<Rightarrow> (answer reply \<times> Relay) option" where
  "pollRounds 0 others clock gone deadline recipient capability n re = None"
| "pollRounds (Suc k) others clock gone deadline recipient capability n re =
     (let (chunks, re) = Drain (clock n) (clock n) recipient capability (others n re) in
      if chunks \<noteq> [] then Some (Reply 200 (VChunks chunks), re)
      else if \<not> Before (clock n) deadline then Some (Reply 200 (VChunks []), re)
      else if gone n then Some (Hangup, re)
      else pollRounds k others clock gone deadline recipient capability (n + 1) re)"

lemma pollRounds_loop:
  "pollRounds k others clock gone deadline u c n re = Some y \<Longrightarrow> pollLoop others clock gone deadline u c n re = Some y"
proof (induction k arbitrary: n re)
  case (Suc k)
  then show ?case
    by (subst pollLoop.simps) (auto simp: Let_def split: prod.splits if_splits)
qed simp

lemma pollRounds_enough:
  assumes "\<forall>i. clock i + pollTick \<le> clock (Suc i)" "deadline \<le> clock n + int k * pollTick"
  shows "pollRounds (Suc k) others clock gone deadline u c n re \<noteq> None"
  using assms(2)
proof (induction k arbitrary: n re)
  case 0
  then show ?case by (auto simp: Let_def split: prod.splits)
next
  case (Suc k)
  have "clock n + pollTick \<le> clock (Suc n)" using assms(1) by blast
  with Suc.prems have "deadline \<le> clock (Suc n) + int k * pollTick" by (simp add: algebra_simps)
  from Suc.IH [OF this] show ?case
    by (subst pollRounds.simps) (auto simp: Let_def split: prod.splits simp del: pollRounds.simps)
qed

lemma pollWait_le: "pollWait cfg r \<le> c_RelayPollTimeout cfg"
  by (simp add: pollWait_def Let_def split: option.split)

text \<open>
  C39. A long poll returns: with a clock that moves by at least a tick while the handler sleeps, the
  handler answers, whatever other requests do to the relay meanwhile, whatever wait was asked for
  and however many seconds it names, and it has gone around at most as often as ticks fit into the
  configured timeout, and twice more.
\<close>

theorem long_poll_returns:
  assumes "\<forall>i. pa_clock p i + pollTick \<le> pa_clock p (Suc i)" "x_now x \<le> pa_clock p 0" "0 \<le> c_RelayPollTimeout cfg"
  shows "(\<exists>a s'. handleGetAttachmentChunks cfg x r p s = Some (a, s')) \<and>
    pollRounds (nat (c_RelayPollTimeout cfg div pollTick) + 2) (pa_others p) (pa_clock p) (pa_gone p)
      (x_now x + pollWait cfg r) u c 0 re \<noteq> None"
proof -
  let ?k = "Suc (nat (c_RelayPollTimeout cfg div pollTick))"
  have tick: "0 < pollTick" by (simp add: pollTick_def)
  let ?q = "c_RelayPollTimeout cfg div pollTick"
  have "0 \<le> ?q" using assms(3) tick by (simp add: pos_imp_zdiv_nonneg_iff)
  then have "int ?k * pollTick = ?q * pollTick + pollTick" by (simp add: algebra_simps)
  moreover have "c_RelayPollTimeout cfg = ?q * pollTick + c_RelayPollTimeout cfg mod pollTick"
    by (rule div_mult_mod_eq [symmetric])
  ultimately have "c_RelayPollTimeout cfg \<le> int ?k * pollTick"
    using pos_mod_bound [OF tick, of "c_RelayPollTimeout cfg"] by linarith
  then have "x_now x + pollWait cfg r \<le> pa_clock p 0 + int ?k * pollTick" using pollWait_le [of cfg r] assms(2) by linarith
  note enough = pollRounds_enough [OF assms(1) this, of "pa_others p" "pa_gone p"]
  have loop: "pollLoop (pa_others p) (pa_clock p) (pa_gone p) (x_now x + pollWait cfg r) u c 0 re \<noteq> None" for u c re
    using enough [of u c re] pollRounds_loop by blast
  have "handleGetAttachmentChunks cfg x r p s \<noteq> None"
    using loop by (auto simp: handleGetAttachmentChunks_def Let_def split: prod.splits sum.splits)
  then show ?thesis using enough [of u c re] by (simp del: pollRounds.simps)
qed

definition sv_ex_patience :: patience where
  "sv_ex_patience = \<lparr>pa_others = (\<lambda>_ re. re), pa_clock = (\<lambda>i. 5 + int i * pollTick), pa_gone = (\<lambda>_. False)\<rparr>"

theorem long_poll_returns_witness:
  "\<exists>a s'. handleGetAttachmentChunks sv_ex_cfg (sv_ex_instant 5 None) sv_ex_request sv_ex_patience sv_ex_server = Some (a, s')"
proof -
  have "0 \<le> c_RelayPollTimeout sv_ex_cfg"
    using envDuration_positive [of "25 * Second"] Hour_pos(2) by (simp add: sv_ex_cfg_def FromEnv_def Let_def less_imp_le)
  moreover have "x_now (sv_ex_instant 5 None) \<le> pa_clock sv_ex_patience 0" by (simp add: sv_ex_patience_def sv_ex_instant_def)
  moreover have "\<forall>i. pa_clock sv_ex_patience i + pollTick \<le> pa_clock sv_ex_patience (Suc i)"
    by (simp add: sv_ex_patience_def algebra_simps)
  ultimately show ?thesis using long_poll_returns [of sv_ex_patience "sv_ex_instant 5 None" sv_ex_cfg] by blast
qed

section \<open>Callers\<close>

text \<open>
  The key presence is charged to: a tag and a credential never share one, and two tags or two
  credentials never do.
\<close>

lemma presence_caller_inj:
  assumes "pg_Caller (presenceGrant w g r) = pg_Caller (presenceGrant w g' r')"
  defines "subj \<equiv> \<lambda>q. Subject (NewAuth (sha_of w) (Fields (rq_Header q queueCapabilityHeader)) False)"
  shows "subj r = subj r' \<and> (subj r = [] \<longrightarrow> gr_Index g = gr_Index g')"
proof -
  have same: "unat (ucast i :: uint64) = unat i" for i :: uint32
    using unsigned_less [of i, where ?'a = nat] by (simp add: unsigned_ucast_eq take_bit_nat_eq_self)
  have inj: "(ucast i :: uint64) = ucast j \<longleftrightarrow> i = j" for i j :: uint32
    by (metis same unsigned_word_eqI)
  show ?thesis using assms unfolding presenceGrant_def Let_def
    by (auto simp: FormatUint_inj inj split: if_splits)
qed

section \<open>Tags of blanks\<close>

text \<open>
  A relay that requires fetch authorization refuses an envelope without tags because nobody could
  ever fetch it. It looks at the tags before the store trims them: an envelope whose tag is a blank
  is accepted, stored without a tag, and no request it serves is authorized to read it.
\<close>

definition sv_ex_blank :: MessageEnvelope where
  "sv_ex_blank = zero_MessageEnvelope\<lparr>env_ID := ''m'', env_Sender := ''a'', env_Recipient := ''b'', env_CreatedAt := 4,
     env_ExpiresAt := 50, env_EncryptedPayload := ''p'', env_RecipientTag := '' '', env_SenderTag := '' ''\<rparr>"

definition sv_ex_fetch_cfg :: Config where
  "sv_ex_fetch_cfg = sv_ex_cfg\<lparr>c_RequireAdmission := False\<rparr>"

theorem blank_tag_accepted:
  "(let (a, s) = handlePostMessage sv_ex_fetch_cfg (sv_ex_instant 5 None) sv_ex_request (Inr sv_ex_blank) sv_ex_server
    in reply_status a = 202 \<and> map_option env_RecipientTag (fmlookup (messages (sv_store s)) ''m'') = Some []) \<and>
   (queueAuth w sv_ex_fetch_cfg r = Inr auth \<longrightarrow> \<not> permits auth [])"
proof
  show "let (a, s) = handlePostMessage sv_ex_fetch_cfg (sv_ex_instant 5 None) sv_ex_request (Inr sv_ex_blank) sv_ex_server
    in reply_status a = 202 \<and> map_option env_RecipientTag (fmlookup (messages (sv_store s)) ''m'') = Some []"
    by code_simp
  have "c_RequireFetchAuth sv_ex_fetch_cfg" by (simp add: sv_ex_fetch_cfg_def sv_ex_cfg_def)
  then show "queueAuth w sv_ex_fetch_cfg r = Inr auth \<longrightarrow> \<not> permits auth []"
    by (auto simp: queueAuth_def Let_def NewAuth_def permits_def)
qed

end
