(* ===== verification/Mesh.thy ===== *)
theory Mesh
  imports Config Http Peer Queue_Ops Presence
begin

text \<open>
  \<open>internal/mesh/syncer.go\<close>: a relay pulls pages of a peer's queue and imports them. What the peers
  answer is an argument of the definitions: the answer to the \<open>n\<close>-th request of a tick. Each
  definition that sends returns the requests it sent, which carry the pool secret.
\<close>

definition pagesPerSync :: nat where "pagesPerSync = 20"
definition pageSize :: int where "pageSize = 500"
definition snapshotRecordSlack :: int where "snapshotRecordSlack = 2048"
definition snapshotPresenceRecords :: int where "snapshotPresenceRecords = 2 * 5000"
definition snapshotPresenceSlack :: int where "snapshotPresenceSlack = 1024"
definition snapshotPurgeSlack :: int where "snapshotPurgeSlack = 1024"

definition maxSnapshotBytes :: "Config \<Rightarrow> int" where
  "maxSnapshotBytes cfg =
     (let payloadBytes = (if c_MaxPayloadBytes cfg \<le> 0 then 8192 else c_MaxPayloadBytes cfg);
          purges = (if c_MaxPurges cfg \<le> 0 then 1000 else c_MaxPurges cfg)
      in wrap64 (wrap64 (pageSize * wrap64 (payloadBytes + snapshotRecordSlack)) +
           wrap64 (purges * snapshotPurgeSlack) + snapshotPresenceRecords * snapshotPresenceSlack))"

record cursor =
  cu_epoch :: string
  cu_seq :: uint64

record PeerSyncResult =
  psr_PeerURL :: string
  psr_Pages :: int
  psr_PulledMessages :: int
  psr_PulledAcks :: int
  psr_AcceptedMessages :: int
  psr_AcceptedAcks :: int

text \<open>The stores a syncer works on, and its cursors.\<close>

record Syncer =
  sy_store :: Store
  sy_pool :: Pool
  sy_presence :: PresenceStore
  sy_cursors :: "(string, cursor) gomap"

definition NewSyncer :: "Store \<Rightarrow> Pool \<Rightarrow> PresenceStore \<Rightarrow> Syncer" where
  "NewSyncer store pool presence =
     \<lparr>sy_store = store, sy_pool = pool, sy_presence = presence, sy_cursors = fmempty\<rparr>"

definition zero_cursor :: cursor where
  "zero_cursor = \<lparr>cu_epoch = [], cu_seq = 0\<rparr>"

definition cursorFor :: "string \<Rightarrow> Syncer \<Rightarrow> cursor" where
  "cursorFor peerURL s = (case fmlookup (sy_cursors s) peerURL of None \<Rightarrow> zero_cursor | Some c \<Rightarrow> c)"

definition setCursor :: "string \<Rightarrow> cursor \<Rightarrow> Syncer \<Rightarrow> Syncer" where
  "setCursor peerURL c s = s\<lparr>sy_cursors := fmupd peerURL c (sy_cursors s)\<rparr>"

section \<open>One page\<close>

datatype sync_error =
    BadPeer
  | Unreachable
  | RedirectRefused
  | BadStatus int
  | PageTooLarge
  | PageMalformed
  | CursorStuck uint64
  | MeshDisabled

record pull_request =
  pq_target :: url
  pq_secret :: string
  pq_nodeID :: string

datatype pull_answer =
    NoAnswer
  | Redirected string
  | Answered int "SyncPayload body"

definition snapshotURL :: "netlib \<Rightarrow> string \<Rightarrow> uint64 \<Rightarrow> url option" where
  "snapshotURL net baseURL since =
     (case nl_ParseURL net (trimRightByte CHR ''/'' baseURL) of
        None \<Rightarrow> None
      | Some parsed \<Rightarrow>
          if ur_Host parsed = [] then None
          else
            let query = (ur_Query parsed)(''limit'' := formatNat (nat pageSize));
                query = (if since > 0 then query(''since'' := FormatUint since) else query)
            in Some (parsed\<lparr>ur_Path := trimRightByte CHR ''/'' (ur_Path parsed) @ ''/mesh/snapshot'', ur_Query := query\<rparr>))"

text \<open>The client refuses to follow a redirect.\<close>

definition fetchSnapshot ::
  "netlib \<Rightarrow> Config \<Rightarrow> (pull_request \<Rightarrow> pull_answer) \<Rightarrow> string \<Rightarrow> uint64 \<Rightarrow> pull_request list \<times> (sync_error + SyncPayload)" where
  "fetchSnapshot net cfg ask baseURL since =
     (case snapshotURL net baseURL since of
        None \<Rightarrow> ([], Inl BadPeer)
      | Some target \<Rightarrow>
          let rq = \<lparr>pq_target = target, pq_secret = c_MeshSecret cfg, pq_nodeID = c_NodeID cfg\<rparr> in
          ([rq],
           case ask rq of
             NoAnswer \<Rightarrow> Inl Unreachable
           | Redirected _ \<Rightarrow> Inl RedirectRefused
           | Answered status b \<Rightarrow>
               if status < 200 \<or> status \<ge> 300 then Inl (BadStatus status)
               else case decodeLimited (maxSnapshotBytes cfg) b of
                      Inl (BodyTooLarge _) \<Rightarrow> Inl PageTooLarge
                    | Inl _ \<Rightarrow> Inl PageMalformed
                    | Inr payload \<Rightarrow> Inr payload))"

definition importPage :: "(string fset \<Rightarrow> string list) \<Rightarrow> time \<Rightarrow> SyncPayload \<Rightarrow> Syncer \<Rightarrow> ImportResult \<times> Syncer" where
  "importPage rng now payload s =
     (let (imported, store) = ImportSnapshot rng now payload (sy_store s);
          presence = ImportRevocations rng now (sync_PresenceRevocations payload)
                       (presence_Import rng (\<lambda>_. now) (sync_Presence payload) (sy_presence s))
      in (imported, s\<lparr>sy_store := store, sy_presence := presence\<rparr>))"

section \<open>One peer\<close>

text \<open>
  The loop of \<open>SyncPeer\<close>, over the pages left in the tick. A page takes one reading of the clock,
  which stands for the readings its imports make.
\<close>

fun syncPages ::
  "(string fset \<Rightarrow> string list) \<Rightarrow> netlib \<Rightarrow> Config \<Rightarrow> (nat \<Rightarrow> pull_request \<Rightarrow> pull_answer) \<Rightarrow> (nat \<Rightarrow> time) \<Rightarrow> string \<Rightarrow>
   nat \<Rightarrow> nat \<Rightarrow> PeerSyncResult \<Rightarrow> string \<Rightarrow> Syncer \<Rightarrow>
   pull_request list \<times> (PeerSyncResult \<times> sync_error option) \<times> string \<times> Syncer" where
  "syncPages rng net cfg asks clock peerURL 0 page result claimedID s = ([], (result, None), claimedID, s)"
| "syncPages rng net cfg asks clock peerURL (Suc left) page result claimedID s =
     (let current = cursorFor peerURL s;
          (sent, fetched) = fetchSnapshot net cfg (asks page) peerURL (cu_seq current)
      in case fetched of
           Inl e \<Rightarrow> (sent, (result, Some e), claimedID, s)
         | Inr payload \<Rightarrow>
             let result = result\<lparr>psr_Pages := psr_Pages result + 1\<rparr>;
                 claimedID = sync_NodeID payload
             in if sync_Epoch payload \<noteq> cu_epoch current \<and> cu_epoch current \<noteq> [] \<and> cu_seq current \<noteq> 0
                then
                  let s = setCursor peerURL \<lparr>cu_epoch = sync_Epoch payload, cu_seq = 0\<rparr> s;
                      (later, r) = syncPages rng net cfg asks clock peerURL left (page + 1) result claimedID s
                  in (sent @ later, r)
                else
                  let (imported, s) = importPage rng (clock page) payload s;
                      result = result\<lparr>psr_PulledMessages := psr_PulledMessages result + int (length (sync_Messages payload)),
                        psr_PulledAcks := psr_PulledAcks result + int (length (sync_Acks payload)),
                        psr_AcceptedMessages := psr_AcceptedMessages result + AcceptedMessages imported,
                        psr_AcceptedAcks := psr_AcceptedAcks result + AcceptedAcks imported\<rparr>;
                      s = (if sync_NextSeq payload \<ge> cu_seq current
                           then setCursor peerURL \<lparr>cu_epoch = sync_Epoch payload, cu_seq = sync_NextSeq payload\<rparr> s else s)
                  in if \<not> sync_More payload then (sent, (result, None), claimedID, s)
                     else if sync_NextSeq payload \<le> cu_seq current
                     then (sent, (result, Some (CursorStuck (cu_seq current))), claimedID, s)
                     else
                       let (later, r) = syncPages rng net cfg asks clock peerURL left (page + 1) result claimedID s
                       in (sent @ later, r))"

definition SyncPeer ::
  "(string fset \<Rightarrow> string list) \<Rightarrow> netlib \<Rightarrow> Config \<Rightarrow> (nat \<Rightarrow> pull_request \<Rightarrow> pull_answer) \<Rightarrow> (nat \<Rightarrow> time) \<Rightarrow> string \<Rightarrow> Syncer \<Rightarrow>
   pull_request list \<times> (PeerSyncResult \<times> sync_error option) \<times> Syncer" where
  "SyncPeer rng net cfg asks clock peerURL s =
     (let zero = \<lparr>psr_PeerURL = peerURL, psr_Pages = 0, psr_PulledMessages = 0, psr_PulledAcks = 0,
                  psr_AcceptedMessages = 0, psr_AcceptedAcks = 0\<rparr>;
          (sent, (result, err), claimedID, s) = syncPages rng net cfg asks clock peerURL pagesPerSync 0 zero [] s
      in (sent, (result, err),
          if err = None then s\<lparr>sy_pool := RecordSuccess peerURL claimedID (clock pagesPerSync) (sy_pool s)\<rparr> else s))"

section \<open>One tick\<close>

text \<open>The text of an error, as far as the roster keeps it, is the argument \<open>err_text\<close>.\<close>

fun syncTargets ::
  "(string fset \<Rightarrow> string list) \<Rightarrow> netlib \<Rightarrow> Config \<Rightarrow> (sync_error \<Rightarrow> string) \<Rightarrow> (string \<Rightarrow> nat \<Rightarrow> pull_request \<Rightarrow> pull_answer) \<Rightarrow>
   (nat \<Rightarrow> time) \<Rightarrow> string list \<Rightarrow> Syncer \<Rightarrow> pull_request list \<times> (string \<times> sync_error) list \<times> Syncer" where
  "syncTargets rng net cfg err_text asks clock [] s = ([], [], s)"
| "syncTargets rng net cfg err_text asks clock (peerURL # peers) s =
     (let (sent, (_, err), s) = SyncPeer rng net cfg (asks peerURL) clock peerURL s;
          s = (case err of
                 None \<Rightarrow> s
               | Some e \<Rightarrow> s\<lparr>sy_pool := RecordFailure peerURL (err_text e) (clock pagesPerSync) (sy_pool s)\<rparr>);
          (later, errs, s) = syncTargets rng net cfg err_text asks clock peers s
      in (sent @ later, (case err of None \<Rightarrow> [] | Some e \<Rightarrow> [(peerURL, e)]) @ errs, s))"

definition SyncAll ::
  "(string fset \<Rightarrow> string list) \<Rightarrow> netlib \<Rightarrow> Config \<Rightarrow> (sync_error \<Rightarrow> string) \<Rightarrow> (string \<Rightarrow> nat \<Rightarrow> pull_request \<Rightarrow> pull_answer) \<Rightarrow>
   (nat \<Rightarrow> time) \<Rightarrow> Syncer \<Rightarrow> pull_request list \<times> (string \<times> sync_error) list \<times> Syncer" where
  "SyncAll rng net cfg err_text asks clock s =
     (if \<not> MeshEnabled cfg then ([], [([], MeshDisabled)], s)
      else syncTargets rng net cfg err_text asks clock (Targets (sy_pool s)) s)"

end
