(* ===== verification/Mesh_Inv.thy ===== *)
theory Mesh_Inv
  imports Mesh Queue_Sync
begin

text \<open>
  What a tick of the syncer does whatever the peers answer, and what it does against a peer that
  serves the pages of a store that does not change meanwhile.
\<close>

section \<open>The roster\<close>

lemma pool_step_roster: "roster_ok cs p \<Longrightarrow> pool_step net r p = (es, p') \<Longrightarrow> roster_ok cs p'"
proof -
  assume ok: "roster_ok cs p" and step: "pool_step net r p = (es, p')"
  have self: "roster_ok cs (p\<lparr>po_selfURL := a\<rparr>)" for a using ok by (simp add: roster_ok_def)
  show ?thesis using step record_roster [OF ok] self
    by (cases r) (auto simp: Self_def RefreshSelfURL_def Let_def split: prod.splits)
qed

interpretation pool_roster: machine "pool_step net" "\<lambda>_. True" "roster_ok cs" for net cs
  by unfold_locales (rule pool_step_roster)

section \<open>Whatever the peers answer\<close>

text \<open>The requests a peering URL stands for.\<close>

definition addressed_to :: "netlib \<Rightarrow> Config \<Rightarrow> string \<Rightarrow> pull_request \<Rightarrow> bool" where
  "addressed_to net cfg peerURL rq \<longleftrightarrow>
     (\<exists>base. nl_ParseURL net (trimRightByte CHR ''/'' peerURL) = Some base \<and>
        ur_Scheme (pq_target rq) = ur_Scheme base \<and> ur_Host (pq_target rq) = ur_Host base \<and> ur_Host base \<noteq> []) \<and>
     pq_secret rq = c_MeshSecret cfg"

lemma fetch_sent:
  assumes "fetchSnapshot net cfg ask peerURL since = (sent, a)"
  shows "length sent \<le> 1" "\<forall>rq\<in>set sent. addressed_to net cfg peerURL rq"
  using assms by (auto simp: fetchSnapshot_def snapshotURL_def addressed_to_def Let_def split: option.splits if_splits)

lemma importPage_frame:
  "sy_pool (snd (importPage rng now p s)) = sy_pool s" "sy_cursors (snd (importPage rng now p s)) = sy_cursors s"
  "sy_store (snd (importPage rng now p s)) = snd (ImportSnapshot rng now p (sy_store s))"
  by (simp_all add: importPage_def Let_def split: prod.split)

lemma setCursor_frame [simp]:
  "sy_pool (setCursor u c s) = sy_pool s" "sy_store (setCursor u c s) = sy_store s"
  "cursorFor u (setCursor u c s) = c"
  by (simp_all add: setCursor_def cursorFor_def)

text \<open>What the loop has done with a page it took, and the ways one round of it goes.\<close>

definition took :: "(string fset \<Rightarrow> string list) \<Rightarrow> time \<Rightarrow> string \<Rightarrow> SyncPayload \<Rightarrow> Syncer \<Rightarrow> Syncer" where
  "took rng now peerURL p s =
     (let s1 = snd (importPage rng now p s)
      in if sync_NextSeq p \<ge> cu_seq (cursorFor peerURL s)
         then setCursor peerURL \<lparr>cu_epoch = sync_Epoch p, cu_seq = sync_NextSeq p\<rparr> s1 else s1)"

definition stale_cursor :: "cursor \<Rightarrow> string \<Rightarrow> bool" where
  "stale_cursor cur ep \<longleftrightarrow> ep \<noteq> cu_epoch cur \<and> cu_epoch cur \<noteq> [] \<and> cu_seq cur \<noteq> 0"

lemma syncPages_cases [consumes 1, case_names failed reset ended stuck more]:
  assumes "syncPages rng net cfg asks clock peerURL (Suc left) page result claimedID s = (sent, r, c, s')"
  obtains e where "fetchSnapshot net cfg (asks page) peerURL (cu_seq (cursorFor peerURL s)) = (sent, Inl e)"
      "snd r = Some e" "s' = s"
    | p sent1 sent2 result1 where "fetchSnapshot net cfg (asks page) peerURL (cu_seq (cursorFor peerURL s)) = (sent1, Inr p)"
      "stale_cursor (cursorFor peerURL s) (sync_Epoch p)" "sent = sent1 @ sent2"
      "syncPages rng net cfg asks clock peerURL left (page + 1) result1 (sync_NodeID p)
         (setCursor peerURL \<lparr>cu_epoch = sync_Epoch p, cu_seq = 0\<rparr> s) = (sent2, r, c, s')"
    | p where "fetchSnapshot net cfg (asks page) peerURL (cu_seq (cursorFor peerURL s)) = (sent, Inr p)"
      "\<not> stale_cursor (cursorFor peerURL s) (sync_Epoch p)" "\<not> sync_More p" "snd r = None"
      "s' = took rng (clock page) peerURL p s"
    | p where "fetchSnapshot net cfg (asks page) peerURL (cu_seq (cursorFor peerURL s)) = (sent, Inr p)"
      "\<not> stale_cursor (cursorFor peerURL s) (sync_Epoch p)" "sync_More p" "sync_NextSeq p \<le> cu_seq (cursorFor peerURL s)"
      "snd r = Some (CursorStuck (cu_seq (cursorFor peerURL s)))" "s' = took rng (clock page) peerURL p s"
    | p sent1 sent2 result1 where "fetchSnapshot net cfg (asks page) peerURL (cu_seq (cursorFor peerURL s)) = (sent1, Inr p)"
      "\<not> stale_cursor (cursorFor peerURL s) (sync_Epoch p)" "sync_More p" "cu_seq (cursorFor peerURL s) < sync_NextSeq p"
      "sent = sent1 @ sent2"
      "syncPages rng net cfg asks clock peerURL left (page + 1) result1 (sync_NodeID p)
         (took rng (clock page) peerURL p s) = (sent2, r, c, s')"
proof -
  let ?cur = "cursorFor peerURL s"
  obtain sent1 fetched where f: "fetchSnapshot net cfg (asks page) peerURL (cu_seq ?cur) = (sent1, fetched)"
    by (cases "fetchSnapshot net cfg (asks page) peerURL (cu_seq ?cur)")
  show thesis
  proof (cases fetched)
    case (Inl e)
    with assms f show thesis by (intro that(1) [of e]) (auto simp: Let_def)
  next
    case (Inr p)
    obtain imported s1 where i: "importPage rng (clock page) p s = (imported, s1)" by (cases "importPage rng (clock page) p s")
    note call = assms [unfolded syncPages.simps Let_def f Inr prod.case sum.case i]
    have took: "took rng (clock page) peerURL p s =
      (if sync_NextSeq p \<ge> cu_seq ?cur then setCursor peerURL \<lparr>cu_epoch = sync_Epoch p, cu_seq = sync_NextSeq p\<rparr> s1 else s1)"
      by (simp add: took_def i)
    note call' = call [folded took, folded stale_cursor_def [of ?cur "sync_Epoch p"]]
    show thesis
    proof (cases "stale_cursor ?cur (sync_Epoch p)")
      case True
      obtain sent2 rest where l: "syncPages rng net cfg asks clock peerURL left (page + 1)
          (result\<lparr>psr_Pages := psr_Pages result + 1\<rparr>) (sync_NodeID p)
          (setCursor peerURL \<lparr>cu_epoch = sync_Epoch p, cu_seq = 0\<rparr> s) = (sent2, rest)" by (metis surj_pair)
      have "sent = sent1 @ sent2" "rest = (r, c, s')" using call' unfolding if_P [OF True] l by auto
      with l show thesis by (intro that(2) [OF f [unfolded Inr] True]) auto
    next
      case False
      note call'' = call' [unfolded if_not_P [OF False]]
      show thesis
      proof (cases "sync_More p")
        case no: False
        with call'' show thesis by (intro that(3) [OF _ False]) (auto simp: f Inr)
      next
        case more: True
        show thesis
        proof (cases "sync_NextSeq p \<le> cu_seq ?cur")
          case True
          with call'' more show thesis by (intro that(4) [OF _ False]) (auto simp: f Inr)
        next
          case adv: False
          let ?result = "result\<lparr>psr_Pages := psr_Pages result + 1,
              psr_PulledMessages := psr_PulledMessages result + int (length (sync_Messages p)),
              psr_PulledAcks := psr_PulledAcks result + int (length (sync_Acks p)),
              psr_AcceptedMessages := psr_AcceptedMessages result + AcceptedMessages imported,
              psr_AcceptedAcks := psr_AcceptedAcks result + AcceptedAcks imported\<rparr>"
          obtain sent2 rest where l: "syncPages rng net cfg asks clock peerURL left (page + 1) ?result (sync_NodeID p)
              (took rng (clock page) peerURL p s) = (sent2, rest)" by (metis surj_pair)
          have "sent = sent1 @ sent2" "rest = (r, c, s')" using call'' more adv l by auto
          with l adv show thesis by (intro that(5) [OF f [unfolded Inr] False more]) auto
        qed
      qed
    qed
  qed
qed

lemma took_frame:
  "sy_pool (took rng now u p s) = sy_pool s" "sy_store (took rng now u p s) = snd (ImportSnapshot rng now p (sy_store s))"
  by (simp_all add: took_def Let_def importPage_frame)

lemma syncPages_frame:
  assumes "syncPages rng net cfg asks clock peerURL left page result claimedID s = (sent, r, c, s')"
  shows "length sent \<le> left \<and> (\<forall>rq\<in>set sent. addressed_to net cfg peerURL rq) \<and> sy_pool s' = sy_pool s"
  using assms
proof (induction left arbitrary: page result claimedID s sent r c s')
  case (Suc left)
  from Suc.prems show ?case
  proof (cases rule: syncPages_cases)
    case (reset p sent1 sent2 result1)
    from fetch_sent [OF reset(1)] Suc.IH [OF reset(4)] reset(3) show ?thesis by auto
  next
    case (more p sent1 sent2 result1)
    from fetch_sent [OF more(1)] Suc.IH [OF more(6)] more(5) show ?thesis by (auto simp: took_frame)
  next
    case (failed e)
    from fetch_sent [OF failed(1)] failed(3) show ?thesis by simp
  next
    case (ended p)
    from fetch_sent [OF ended(1)] ended(5) show ?thesis by (simp add: took_frame)
  next
    case (stuck p)
    from fetch_sent [OF stuck(1)] stuck(6) show ?thesis by (simp add: took_frame)
  qed
qed simp

lemma SyncPeer_frame:
  assumes "SyncPeer rng net cfg asks clock peerURL s = (sent, r, s')"
  shows "length sent \<le> pagesPerSync \<and> (\<forall>rq\<in>set sent. addressed_to net cfg peerURL rq) \<and> Targets (sy_pool s') = Targets (sy_pool s)"
  using assms
  by (auto simp: SyncPeer_def Let_def Targets_def split: prod.splits if_splits dest!: syncPages_frame)

lemma syncTargets_frame:
  assumes "syncTargets rng net cfg err_text asks clock peers s = (sent, errs, s')"
  shows "length sent \<le> pagesPerSync * length peers \<and> (\<forall>rq\<in>set sent. \<exists>u\<in>set peers. addressed_to net cfg u rq) \<and>
    Targets (sy_pool s') = Targets (sy_pool s)"
  using assms
proof (induction peers arbitrary: s sent errs s')
  case (Cons u us)
  obtain sent1 result err s1 where p: "SyncPeer rng net cfg (asks u) clock u s = (sent1, (result, err), s1)"
    by (metis prod_cases3 surj_pair)
  let ?s2 = "case err of None \<Rightarrow> s1 | Some e \<Rightarrow> s1\<lparr>sy_pool := RecordFailure u (err_text e) (clock pagesPerSync) (sy_pool s1)\<rparr>"
  obtain sent2 errs2 s3 where l: "syncTargets rng net cfg err_text asks clock us ?s2 = (sent2, errs2, s3)"
    by (metis prod_cases3)
  have t: "Targets (sy_pool ?s2) = Targets (sy_pool s1)" by (simp add: Targets_def split: option.split)
  from Cons.prems have "sent = sent1 @ sent2" "s' = s3" by (simp_all add: p l Let_def)
  with SyncPeer_frame [OF p] Cons.IH [OF l] t show ?case by auto
qed simp

section \<open>Against a quiet peer\<close>

text \<open>The number of records beyond a cursor falls by a page with every page that says there is more.\<close>

lemma finite_waiting_any: "finite (waiting since q)"
  by (rule sorted_store.finite_waiting)

lemma waiting_mono: "lo \<le> hi \<Longrightarrow> waiting hi q \<subseteq> waiting lo q"
  by (auto simp: waiting_def)

lemma card_waiting_mono: "lo \<le> hi \<Longrightarrow> card (waiting hi q) \<le> card (waiting lo q)"
  by (rule card_mono [OF finite_waiting_any waiting_mono])

lemma sent_messages_card:
  assumes "distinct ms" "set ms = sent_messages lo hi q"
  shows "length ms \<le> card {r \<in> waiting lo q. ref_seq r \<le> hi \<and> \<not> ref_isAck r}"
proof -
  let ?R = "{r \<in> waiting lo q. ref_seq r \<le> hi \<and> \<not> ref_isAck r}"
  have "set ms \<subseteq> (\<lambda>r. the (fmlookup (messages q) (ref_id r))) ` ?R"
  proof
    fix e assume "e \<in> set ms"
    then obtain k v where "fmlookup (messages q) k = Some e" "fmlookup (messageSeq q) k = Some v" "lo < v" "v \<le> hi"
      using assms(2) by (auto simp: sent_messages_def)
    then show "e \<in> (\<lambda>r. the (fmlookup (messages q) (ref_id r))) ` ?R"
      by (intro image_eqI [of _ _ "\<lparr>ref_seq = v, ref_id = k, ref_isAck = False\<rparr>"]) (simp_all add: waiting_def arrival_def)
  qed
  moreover have "finite ?R" using finite_waiting_any [of lo q] by simp
  ultimately have "card (set ms) \<le> card ?R" by (meson card_image_le card_mono finite_imageI le_trans)
  then show ?thesis using distinct_card [OF assms(1)] by simp
qed

lemma sent_acks_card:
  assumes "distinct as" "set as = sent_acks lo hi q"
  shows "length as \<le> card {r \<in> waiting lo q. ref_seq r \<le> hi \<and> ref_isAck r}"
proof -
  let ?R = "{r \<in> waiting lo q. ref_seq r \<le> hi \<and> ref_isAck r}"
  have "set as \<subseteq> (\<lambda>r. the (fmlookup (acks q) (ref_id r))) ` ?R"
  proof
    fix a assume "a \<in> set as"
    then obtain k v where "fmlookup (acks q) k = Some a" "fmlookup (ackSeq q) k = Some v" "lo < v" "v \<le> hi"
      using assms(2) by (auto simp: sent_acks_def)
    then show "a \<in> (\<lambda>r. the (fmlookup (acks q) (ref_id r))) ` ?R"
      by (intro image_eqI [of _ _ "\<lparr>ref_seq = v, ref_id = k, ref_isAck = True\<rparr>"]) (simp_all add: waiting_def arrival_def)
  qed
  moreover have "finite ?R" using finite_waiting_any [of lo q] by simp
  ultimately have "card (set as) \<le> card ?R" by (meson card_image_le card_mono finite_imageI le_trans)
  then show ?thesis using distinct_card [OF assms(1)] by simp
qed

lemma page_shrinks:
  assumes "page_ok lo n q p" "sync_More p"
  shows "card (waiting (sync_NextSeq p) q) + n \<le> card (waiting lo q)"
proof -
  let ?hi = "sync_NextSeq p"
  let ?M = "{r \<in> waiting lo q. ref_seq r \<le> ?hi \<and> \<not> ref_isAck r}" and ?A = "{r \<in> waiting lo q. ref_seq r \<le> ?hi \<and> ref_isAck r}"
  have n: "n \<le> card ?M + card ?A"
    using assms sent_messages_card [of "sync_Messages p" lo ?hi q] sent_acks_card [of "sync_Acks p" lo ?hi q]
    by (auto simp: page_ok_def)
  have le: "lo \<le> ?hi" using assms(1) by (simp add: page_ok_def)
  have fin: "finite ?M" "finite ?A" "finite (waiting ?hi q)" using finite_waiting_any by simp_all
  have "waiting ?hi q \<union> (?M \<union> ?A) \<subseteq> waiting lo q" using waiting_mono [OF le, of q] by auto
  then have "card (waiting ?hi q \<union> (?M \<union> ?A)) \<le> card (waiting lo q)" by (rule card_mono [OF finite_waiting_any])
  moreover have "card (?M \<union> ?A) = card ?M + card ?A" by (rule card_Un_disjoint) (use fin in auto)
  moreover have "card (waiting ?hi q \<union> (?M \<union> ?A)) = card (waiting ?hi q) + card (?M \<union> ?A)"
    by (rule card_Un_disjoint) (use fin in \<open>auto simp: waiting_def\<close>)
  ultimately show ?thesis using n by simp
qed

lemma sent_split:
  assumes "lo \<le> mid" "mid \<le> hi"
  shows "sent_messages lo mid q \<union> sent_messages mid hi q = sent_messages lo hi q"
    "sent_acks lo mid q \<union> sent_acks mid hi q = sent_acks lo hi q"
proof -
  have "lo < v \<and> v \<le> hi \<longleftrightarrow> lo < v \<and> v \<le> mid \<or> mid < v \<and> v \<le> hi" for v
    using assms by (meson le_less_trans less_le_trans not_le order_trans)
  then show "sent_messages lo mid q \<union> sent_messages mid hi q = sent_messages lo hi q"
    "sent_acks lo mid q \<union> sent_acks mid hi q = sent_acks lo hi q"
    unfolding sent_messages_def sent_acks_def by blast+
qed

text \<open>The peer answers every request with the right page of the store \<open>q\<close>, under the epoch \<open>ep\<close>.\<close>

definition serves :: "netlib \<Rightarrow> Config \<Rightarrow> (nat \<Rightarrow> pull_request \<Rightarrow> pull_answer) \<Rightarrow> string \<Rightarrow> string \<Rightarrow> Store \<Rightarrow> bool" where
  "serves net cfg asks peerURL ep q \<longleftrightarrow>
     (\<forall>i since. \<exists>sent p. fetchSnapshot net cfg (asks i) peerURL since = (sent, Inr p) \<and>
        page_ok since (nat pageSize) q p \<and> sync_Epoch p = ep)"

lemma servesD:
  "serves net cfg asks peerURL ep q \<Longrightarrow> fetchSnapshot net cfg (asks i) peerURL since = (sent, a) \<Longrightarrow>
     \<exists>p. a = Inr p \<and> page_ok since (nat pageSize) q p \<and> sync_Epoch p = ep"
  unfolding serves_def by (metis prod.inject)

definition import_all :: "(string fset \<Rightarrow> string list) \<Rightarrow> (time \<times> SyncPayload) list \<Rightarrow> Store \<Rightarrow> Store" where
  "import_all rng ps st = fold (\<lambda>(t, p) st. snd (ImportSnapshot rng t p st)) ps st"

text \<open>
  The store \<open>s'\<close> has imported pages that hold exactly the records of \<open>q\<close> that arrived after \<open>lo\<close>, and its
  cursor is past every record of \<open>q\<close>.
\<close>

definition drained :: "(string fset \<Rightarrow> string list) \<Rightarrow> string \<Rightarrow> string \<Rightarrow> Store \<Rightarrow> uint64 \<Rightarrow> Syncer \<Rightarrow> Syncer \<Rightarrow> bool" where
  "drained rng peerURL ep q lo s s' \<longleftrightarrow>
     (\<exists>ps hi. lo \<le> hi \<and> cursorFor peerURL s' = \<lparr>cu_epoch = ep, cu_seq = hi\<rparr> \<and>
        (\<forall>x v. arrival q x = Some v \<longrightarrow> v \<le> hi) \<and>
        (\<Union>(t, p)\<in>set ps. set (sync_Messages p)) = sent_messages lo hi q \<and>
        (\<Union>(t, p)\<in>set ps. set (sync_Acks p)) = sent_acks lo hi q \<and>
        sy_store s' = import_all rng ps (sy_store s))"

lemma took_cursor:
  "page_ok (cu_seq (cursorFor u s)) n q p \<Longrightarrow>
     cursorFor u (took rng now u p s) = \<lparr>cu_epoch = sync_Epoch p, cu_seq = sync_NextSeq p\<rparr>"
  by (simp add: took_def Let_def page_ok_def)

lemma drained_ended:
  assumes "page_ok (cu_seq (cursorFor u s)) n q p" "\<not> sync_More p"
  shows "drained rng u (sync_Epoch p) q (cu_seq (cursorFor u s)) s (took rng now u p s)"
proof -
  let ?lo = "cu_seq (cursorFor u s)" and ?hi = "sync_NextSeq p"
  have p: "?lo \<le> ?hi" "set (sync_Messages p) = sent_messages ?lo ?hi q" "set (sync_Acks p) = sent_acks ?lo ?hi q"
    "\<not> (\<exists>x v. arrival q x = Some v \<and> ?hi < v)"
    using assms unfolding page_ok_def by blast+
  show ?thesis unfolding drained_def took_cursor [OF assms(1)]
  proof (intro exI conjI)
    show "(\<Union>(t, p)\<in>set [(now, p)]. set (sync_Messages p)) = sent_messages ?lo ?hi q" using p(2) by simp
    show "(\<Union>(t, p)\<in>set [(now, p)]. set (sync_Acks p)) = sent_acks ?lo ?hi q" using p(3) by simp
    show "sy_store (took rng now u p s) = import_all rng [(now, p)] (sy_store s)" by (simp add: import_all_def took_frame)
    show "\<forall>x v. arrival q x = Some v \<longrightarrow> v \<le> ?hi" using p(4) by (meson leI)
  qed (use p(1) in simp_all)
qed

lemma drained_more:
  assumes page: "page_ok (cu_seq (cursorFor u s)) n q p"
    and rest: "drained rng u ep q (sync_NextSeq p) (took rng now u p s) s'"
  shows "drained rng u ep q (cu_seq (cursorFor u s)) s s'"
proof -
  let ?lo = "cu_seq (cursorFor u s)" and ?mid = "sync_NextSeq p"
  obtain ps hi where r: "?mid \<le> hi" "cursorFor u s' = \<lparr>cu_epoch = ep, cu_seq = hi\<rparr>"
    "\<forall>x v. arrival q x = Some v \<longrightarrow> v \<le> hi"
    "(\<Union>(t, p)\<in>set ps. set (sync_Messages p)) = sent_messages ?mid hi q"
    "(\<Union>(t, p)\<in>set ps. set (sync_Acks p)) = sent_acks ?mid hi q"
    "sy_store s' = import_all rng ps (sy_store (took rng now u p s))"
    using rest unfolding drained_def by (elim exE conjE) (rule that; assumption)
  have p: "?lo \<le> ?mid" "set (sync_Messages p) = sent_messages ?lo ?mid q" "set (sync_Acks p) = sent_acks ?lo ?mid q"
    using page by (simp_all add: page_ok_def)
  show ?thesis unfolding drained_def
  proof (intro exI conjI)
    show "?lo \<le> hi" using p(1) r(1) by simp
    show "(\<Union>(t, p)\<in>set ((now, p) # ps). set (sync_Messages p)) = sent_messages ?lo hi q"
      using r(4) p(2) sent_split(1) [OF p(1) r(1), of q] by simp
    show "(\<Union>(t, p)\<in>set ((now, p) # ps). set (sync_Acks p)) = sent_acks ?lo hi q"
      using r(5) p(3) sent_split(2) [OF p(1) r(1), of q] by simp
    show "sy_store s' = import_all rng ((now, p) # ps) (sy_store s)"
      using r(6) by (simp add: import_all_def took_frame)
  qed (use r in simp_all)
qed

lemma drain_pages:
  assumes "serves net cfg asks u ep q" "\<not> stale_cursor (cursorFor u s) ep" "0 < left"
    "card (waiting (cu_seq (cursorFor u s)) q) \<le> nat pageSize * left"
    "syncPages rng net cfg asks clock u left page result claimedID s = (sent, r, c, s')"
  shows "snd r = None \<and> drained rng u ep q (cu_seq (cursorFor u s)) s s'"
  using assms(2-)
proof (induction left arbitrary: page result claimedID s sent)
  case (Suc left)
  note serve = servesD [OF assms(1)]
  from Suc.prems(4) show ?case
  proof (cases rule: syncPages_cases)
    case (failed e)
    from serve [OF failed(1)] show ?thesis by simp
  next
    case (reset p sent1 sent2 result1)
    from serve [OF reset(1)] reset(2) Suc.prems(1) show ?thesis by simp
  next
    case (ended p)
    from serve [OF ended(1)] have "page_ok (cu_seq (cursorFor u s)) (nat pageSize) q p" "sync_Epoch p = ep" by simp_all
    with drained_ended [OF this(1) ended(3)] ended show ?thesis by simp
  next
    case (stuck p)
    from serve [OF stuck(1)] stuck(3,4) show ?thesis by (auto simp: page_ok_def)
  next
    case (more p sent1 sent2 result1)
    from serve [OF more(1)] have p: "page_ok (cu_seq (cursorFor u s)) (nat pageSize) q p" "sync_Epoch p = ep" by simp_all
    let ?s = "took rng (clock page) u p s"
    have cur: "cursorFor u ?s = \<lparr>cu_epoch = ep, cu_seq = sync_NextSeq p\<rparr>" using took_cursor [OF p(1)] p(2) by simp
    have few: "card (waiting (sync_NextSeq p) q) \<le> nat pageSize * left"
      using page_shrinks [OF p(1) more(3)] Suc.prems(3) by simp
    obtain x v where "arrival q x = Some v" "sync_NextSeq p < v" using p(1) more(3) by (auto simp: page_ok_def)
    then have "\<lparr>ref_seq = v, ref_id = snd x, ref_isAck = fst x\<rparr> \<in> waiting (sync_NextSeq p) q" by (simp add: waiting_def)
    then have "0 < card (waiting (sync_NextSeq p) q)" using finite_waiting_any card_gt_0_iff by blast
    with few have "0 < left" by (cases left) simp_all
    from Suc.IH [OF _ this _ more(6)] few have "snd r = None \<and> drained rng u ep q (sync_NextSeq p) ?s s'"
      by (simp add: cur stale_cursor_def)
    with drained_more [OF p(1)] show ?thesis by blast
  qed
qed simp

end
