(* ===== verification/Mesh_Props.thy ===== *)
theory Mesh_Props
  imports Mesh_Inv Server_Props Queue_Examples
begin

text \<open>
  The properties of the mesh: what one tick sends and to whom, and that a tick against a peer that
  runs this server brings over everything the peer holds.
\<close>

section \<open>Two relays\<close>

text \<open>
  A pull as it arrives at the peer, and the peer's reply as it comes back. The size of a page on the
  wire is an argument.
\<close>

definition pull_arrives :: "pull_request \<Rightarrow> request" where
  "pull_arrives rq = \<lparr>rq_Header = (\<lambda>h. if h = meshSecretHeader then pq_secret rq else []), rq_Query = ur_Query (pq_target rq)\<rparr>"

fun reply_returns :: "(SyncPayload \<Rightarrow> int) \<Rightarrow> answer reply \<Rightarrow> pull_answer" where
  "reply_returns wire (Reply status (VSnapshot p)) =
     Answered status \<lparr>bo_present = True, bo_ContentLength = wire p, bo_needed = wire p, bo_result = Inr p\<rparr>"
| "reply_returns wire (ErrorReply status code) =
     Answered status \<lparr>bo_present = True, bo_ContentLength = 0, bo_needed = 0, bo_result = Inl MalformedJSON\<rparr>"
| "reply_returns wire _ = NoAnswer"

definition peer_answers ::
  "world \<Rightarrow> Config \<Rightarrow> (SyncPayload \<Rightarrow> int) \<Rightarrow> (nat \<Rightarrow> instant) \<Rightarrow> (nat \<Rightarrow> Server) \<Rightarrow> nat \<Rightarrow> pull_request \<Rightarrow> pull_answer" where
  "peer_answers w cfg wire xs servers i rq =
     reply_returns wire (fst (handleMeshSnapshot w cfg (xs i) (pull_arrives rq) (servers i)))"

text \<open>Nothing the store holds has run out at this instant; then a sweep leaves the store alone.\<close>

definition all_live :: "time \<Rightarrow> Store \<Rightarrow> bool" where
  "all_live now q \<longleftrightarrow>
     fmpred (\<lambda>_ e. \<not> message_dead now e) (messages q) \<and> fmpred (\<lambda>_ a. \<not> ack_dead now a) (acks q) \<and>
     fmpred (\<lambda>_ p. \<not> purge_dead now p) (purges q)"

lemma sweep_nothing:
  assumes "fmpred (\<lambda>_ v. \<not> dead v) (table s)"
  shows "sweep rng table dead del s = s"
proof -
  have "fold (\<lambda>k s. case fmlookup (table s) k of None \<Rightarrow> s | Some v \<Rightarrow> if dead v then del k s else s) ks s = s" for ks
    using assms by (induction ks) (auto split: option.split dest: fmpredD)
  then show ?thesis by (simp add: sweep_def)
qed

lemma expire_nothing: "all_live now q \<Longrightarrow> expireLocked rng now q = q"
  by (simp add: all_live_def expireLocked_def sweep_nothing)

lemma snapshot_query:
  assumes "snapshotURL net u since = Some target" "nl_ParseURL net (trimRightByte CHR ''/'' u) = Some base" "ur_Query base ''since'' = []"
  shows "ur_Query target ''limit'' = formatNat 500" "parseSince \<lparr>rq_Header = h, rq_Query = ur_Query target\<rparr> = Some since"
proof -
  from assms(1,2) have t: "target = base\<lparr>ur_Path := trimRightByte CHR ''/'' (ur_Path base) @ ''/mesh/snapshot'',
      ur_Query := (let query = (ur_Query base)(''limit'' := formatNat (nat pageSize))
        in if since > 0 then query(''since'' := FormatUint since) else query)\<rparr>"
    by (auto simp: snapshotURL_def Let_def split: if_splits)
  show "ur_Query target ''limit'' = formatNat 500" unfolding t by (simp add: Let_def pageSize_def)
  have "FormatUint since \<noteq> []"
    using ParseUint_FormatUint [of since] by (auto simp: ParseUint_def numeric_def split: if_splits)
  moreover have "since = 0" if "\<not> since > 0" using that by (metis word_gt_0)
  ultimately show "parseSince \<lparr>rq_Header = h, rq_Query = ur_Query target\<rparr> = Some since"
    unfolding t by (auto simp: Let_def parseSince_def assms(3) ParseUint_FormatUint)
qed

lemma Atoi_formatNat:
  assumes "n < 2 ^ 63"
  shows "Atoi (formatNat n) = Some (int n)"
proof -
  note round = formatNat_round [of n]
  obtain c r where cons: "formatNat n = c # r" using round by (cases "formatNat n") (auto simp: numeric_def)
  have "is_digit c" using round by (simp add: cons numeric_def)
  moreover have "\<not> is_digit CHR ''-''" "\<not> is_digit CHR ''+''" by code_simp+
  ultimately have "c \<noteq> CHR ''-''" "c \<noteq> CHR ''+''" by auto
  then show ?thesis using round assms unfolding cons Atoi_def by simp
qed

lemma parseLimit_500:
  assumes "rq_Query r ''limit'' = formatNat 500"
  shows "parseLimit r 500 = 500"
proof -
  have "formatNat 500 \<noteq> []" using formatNat_round [of 500] by (auto simp: numeric_def)
  with assms Atoi_formatNat [of 500] show ?thesis by (simp add: parseLimit_def)
qed

lemma served_page:
  assumes "store_order (w_rng w)" "store_wf q" "seq_ok m q" "m < 2 ^ 64" "all_live (x_now x) q"
    and "sv_store s = q" "isTrustedPeer cfg r" "parseSince r = Some since" "rq_Query r ''limit'' = formatNat 500"
  obtains p where "fst (handleMeshSnapshot w cfg x r s) = Reply 200 (VSnapshot p)" "page_ok since 500 q p" "sync_Epoch p = epoch q"
    and "sv_store (snd (handleMeshSnapshot w cfg x r s)) = q"
proof -
  obtain p0 q' where snap: "SnapshotSince (w_rng w) (x_now x) since 500 q = (p0, q')"
    by (cases "SnapshotSince (w_rng w) (x_now x) since 500 q")
  have q': "q' = q"
    using store_order.SnapshotSince_fields(1) [OF assms(1) snap] expire_nothing [OF assms(5)] by simp
  have page: "page_ok since 500 q p0"
    using store_order.SnapshotSince_page [OF assms(1-4) snap] by (simp add: q')
  have ep: "sync_Epoch p0 = epoch q" using store_order.SnapshotSince_fields(7) [OF assms(1) snap] by (simp add: q')
  show thesis
    using assms(6-8) snap page ep
    by (intro that [of "p0\<lparr>sync_NodeID := c_NodeID cfg,
          sync_Presence := fst (presence_Snapshot (w_rng w) (x_now x) (sv_presence s)),
          sync_PresenceRevocations := fst (Revocations (w_rng w) (x_now x) (snd (presence_Snapshot (w_rng w) (x_now x) (sv_presence s))))\<rparr>"])
      (simp_all add: handleMeshSnapshot_def parseLimit_500 [OF assms(9)] Let_def page_ok_def q' case_prod_beta)
qed

text \<open>
  What the tick relies on: the peering URL is one the library parses, with a host and no cursor of
  its own; both relays hold the secret; the peer's queue is \<open>q\<close> throughout, with nothing of it
  running out; and the pages fit under the cap the puller reads up to.
\<close>

definition peering ::
  "netlib \<Rightarrow> Config \<Rightarrow> string \<Rightarrow> world \<Rightarrow> Config \<Rightarrow> (SyncPayload \<Rightarrow> int) \<Rightarrow> (nat \<Rightarrow> instant) \<Rightarrow> (nat \<Rightarrow> Server) \<Rightarrow> Store \<Rightarrow> bool" where
  "peering net cfg u w peercfg wire xs servers q \<longleftrightarrow>
     (\<exists>base. nl_ParseURL net (trimRightByte CHR ''/'' u) = Some base \<and> ur_Host base \<noteq> [] \<and> ur_Query base ''since'' = []) \<and>
     c_MeshSecret peercfg = c_MeshSecret cfg \<and> MeshEnabled cfg \<and>
     (\<forall>i. sv_store (servers i) = q \<and> all_live (x_now (xs i)) q) \<and>
     (\<forall>i r p. fst (handleMeshSnapshot w peercfg (xs i) r (servers i)) = Reply 200 (VSnapshot p) \<longrightarrow> wire p \<le> maxSnapshotBytes cfg)"

lemma peering_serves:
  assumes "store_order (w_rng w)" "store_wf q" "seq_ok m q" "m < 2 ^ 64"
    and "peering net cfg u w peercfg wire xs servers q"
  shows "serves net cfg (peer_answers w peercfg wire xs servers) u (epoch q) q"
  unfolding serves_def
proof (intro allI)
  fix i since
  from assms(5) obtain base where base: "nl_ParseURL net (trimRightByte CHR ''/'' u) = Some base" "ur_Host base \<noteq> []"
      "ur_Query base ''since'' = []"
    and both: "c_MeshSecret peercfg = c_MeshSecret cfg" "MeshEnabled cfg" "sv_store (servers i) = q" "all_live (x_now (xs i)) q"
    and fits: "\<And>r p. fst (handleMeshSnapshot w peercfg (xs i) r (servers i)) = Reply 200 (VSnapshot p) \<Longrightarrow> wire p \<le> maxSnapshotBytes cfg"
    unfolding peering_def by blast
  obtain target where t: "snapshotURL net u since = Some target" using base by (auto simp: snapshotURL_def Let_def)
  let ?rq = "\<lparr>pq_target = target, pq_secret = c_MeshSecret cfg, pq_nodeID = c_NodeID cfg\<rparr>"
  note query = snapshot_query [OF t base(1,3)]
  have "isTrustedPeer peercfg (pull_arrives ?rq)" using both(1,2) by (simp add: isTrustedPeer_def pull_arrives_def MeshEnabled_def)
  moreover have "parseSince (pull_arrives ?rq) = Some since" using query(2) by (simp add: pull_arrives_def)
  moreover have "rq_Query (pull_arrives ?rq) ''limit'' = formatNat 500" using query(1) by (simp add: pull_arrives_def)
  ultimately obtain p where p: "fst (handleMeshSnapshot w peercfg (xs i) (pull_arrives ?rq) (servers i)) = Reply 200 (VSnapshot p)"
      "page_ok since 500 q p" "sync_Epoch p = epoch q"
    by (rule served_page [OF assms(1-4) both(4,3)])
  have "fetchSnapshot net cfg (peer_answers w peercfg wire xs servers i) u since = ([?rq], Inr p)"
    using fits [OF p(1)] by (simp add: fetchSnapshot_def t peer_answers_def p(1) decodeLimited_def)
  with p show "\<exists>sent p. fetchSnapshot net cfg (peer_answers w peercfg wire xs servers i) u since = (sent, Inr p) \<and>
      page_ok since (nat pageSize) q p \<and> sync_Epoch p = epoch q"
    by (auto simp: pageSize_def)
qed

text \<open>A stale cursor costs one page: the page is dropped and the drain starts over from zero.\<close>

lemma drain_stale:
  assumes "serves net cfg asks u ep q" "0 < left" "stale_cursor (cursorFor u s) ep" "card (waiting 0 q) \<le> nat pageSize * left"
    and call: "syncPages rng net cfg asks clock u (Suc left) page result claimedID s = (sent, r, c, s')"
  shows "snd r = None \<and> drained rng u ep q 0 s s'"
proof -
  note serve = servesD [OF assms(1)]
  from call show ?thesis
  proof (cases rule: syncPages_cases)
    case (reset p sent1 sent2 result1)
    from serve [OF reset(1)] have ep: "sync_Epoch p = ep" by simp
    let ?s = "setCursor u \<lparr>cu_epoch = ep, cu_seq = 0\<rparr> s"
    from drain_pages [OF assms(1) _ assms(2) _ reset(4) [unfolded ep]] assms(4)
    have "snd r = None \<and> drained rng u ep q 0 ?s s'" by (simp add: stale_cursor_def)
    then show ?thesis by (simp add: drained_def)
  qed (use serve assms(3) in auto)
qed

section \<open>Concrete inputs\<close>

definition me_ex_net :: netlib where
  "me_ex_net = sv_ex_net\<lparr>nl_ParseURL := (\<lambda>u. Some \<lparr>ur_Scheme = ''https'', ur_Host = u, ur_Hostname = u, ur_Port = [], ur_Path = [],
     ur_Query = (\<lambda>_. [])\<rparr>)\<rparr>"

definition me_ex_cfg :: Config where
  "me_ex_cfg = sv_ex_cfg\<lparr>c_MeshSecret := ''x'', c_MeshPeers := [''p'']\<rparr>"

definition me_ex_sync :: Syncer where
  "me_ex_sync = NewSyncer (NewStore ''g'' ex_cfg4) (NewPool me_ex_net [] ''n'' ''u'' [''p'', []]) (presence_NewStore 5 Hour)"

definition me_ex_instants :: "nat \<Rightarrow> instant" where
  "me_ex_instants i = sv_ex_instant 5 None"

definition me_ex_servers :: "nat \<Rightarrow> Server" where
  "me_ex_servers i = sv_ex_server\<lparr>sv_store := ex_store\<rparr>"

lemma me_ex_fits: "0 \<le> maxSnapshotBytes me_ex_cfg"
  by code_simp

lemma me_ex_live: "all_live 5 ex_store"
  by code_simp

lemma me_ex_peering:
  "peering me_ex_net me_ex_cfg ''p'' sv_ex_world me_ex_cfg (\<lambda>_. 0) me_ex_instants me_ex_servers ex_store"
  unfolding peering_def using me_ex_fits me_ex_live
  by (simp add: me_ex_net_def me_ex_servers_def me_ex_instants_def sv_ex_instant_def trimRightByte_def)
    (simp add: me_ex_cfg_def MeshEnabled_def)

lemma me_ex_few: "card (waiting 0 ex_store) \<le> 9500"
proof -
  let ?refs = "pendingRefs ex_rng 0 False (messageSeq ex_store) @ pendingRefs ex_rng 0 True (ackSeq ex_store)"
  have "card (waiting 0 ex_store) \<le> length ?refs"
    unfolding store_order.pending_refs(1) [OF ex_range(2), of 0 ex_store, symmetric] by (rule card_length)
  moreover have "length ?refs = 4" by code_simp
  ultimately show ?thesis by simp
qed

section \<open>One tick\<close>

text \<open>
  C14. Along every history of the roster a tick asks each configured peer for at most twenty pages,
  and every request it sends goes to the scheme and host of a configured peering URL: no answer,
  redirect or claimed name of a peer makes the relay send the pool secret anywhere else. Without a
  secret it sends nothing and changes nothing. The roster stays what was configured.
\<close>

theorem tick_bounded:
  assumes "sy_pool s = snd (trace (pool_step net) history (NewPool net ips nodeID publicURL peers))"
    and "SyncAll rng net cfg err_text asks clock s = (sent, errs, s')"
  shows "length sent \<le> 20 * card (set peers - {[]}) \<and>
    (\<forall>rq\<in>set sent. \<exists>u\<in>set peers. addressed_to net cfg u rq) \<and>
    (\<not> MeshEnabled cfg \<longrightarrow> sent = [] \<and> s' = s) \<and> Targets (sy_pool s') = Targets (sy_pool s)"
proof -
  have roster: "roster_ok peers (sy_pool s)"
    unfolding assms(1) by (rule pool_roster.run_keeps [OF NewPool_roster]) (simp add: list_all_iff)
  then have targets: "set (Targets (sy_pool s)) = set peers - {[]}" "length (Targets (sy_pool s)) = card (set peers - {[]})"
    by (auto simp: roster_ok_def Targets_def distinct_card [symmetric])
  show ?thesis
  proof (cases "MeshEnabled cfg")
    case True
    with assms(2) have "syncTargets rng net cfg err_text asks clock (Targets (sy_pool s)) s = (sent, errs, s')"
      by (simp add: SyncAll_def)
    from syncTargets_frame [OF this] True targets show ?thesis by (auto simp: pagesPerSync_def)
  next
    case False
    with assms(2) show ?thesis by (auto simp: SyncAll_def)
  qed
qed

theorem tick_bounded_witness:
  "let (sent, errs, s') = SyncAll ex_rng me_ex_net me_ex_cfg (\<lambda>_. []) (\<lambda>_ _ _. NoAnswer) (\<lambda>_. 9) me_ex_sync
   in length sent = 1 \<and> length sent \<le> 20 * card (set [''p'', []] - {[]}) \<and>
      (\<forall>rq\<in>set sent. \<exists>u\<in>set [''p'', []]. addressed_to me_ex_net me_ex_cfg u rq) \<and> map snd errs = [Unreachable]"
proof -
  let ?run = "SyncAll ex_rng me_ex_net me_ex_cfg (\<lambda>_. []) (\<lambda>_ _ _. NoAnswer) (\<lambda>_. 9) me_ex_sync"
  have pool: "sy_pool me_ex_sync = snd (trace (pool_step me_ex_net) [] (NewPool me_ex_net [] ''n'' ''u'' [''p'', []]))"
    by (simp add: me_ex_sync_def NewSyncer_def)
  have one: "length (fst ?run) = 1" "map snd (fst (snd ?run)) = [Unreachable]" by code_simp+
  from tick_bounded [OF pool, of ex_rng me_ex_cfg "\<lambda>_. []" "\<lambda>_ _ _. NoAnswer" "\<lambda>_. 9" "fst ?run" "fst (snd ?run)" "snd (snd ?run)"] one
  show ?thesis by (simp add: case_prod_beta Let_def)
qed

section \<open>Draining a peer\<close>

text \<open>
  C5. A tick against a peer that runs this server drains it: for every history of the peer's queue
  that left at most 9,500 records after the puller's cursor, the pull ends without an error, the
  pages it imported hold exactly the messages and acks that arrived after the cursor, and the new
  cursor is past all of them. A cursor from before a restart of the peer counts as zero.
\<close>

theorem sync_drains:
  assumes "range_order (w_rng w)" "config_fits storecfg" "clocked T rs" "sum_list (map request_weight rs) < 2 ^ 64"
    and q: "q = store_run (w_rng w) rs (NewStore ep storecfg)"
    and peer: "peering net cfg u w peercfg wire xs servers q"
    and lo: "lo = (if stale_cursor (cursorFor u s) ep then 0 else cu_seq (cursorFor u s))"
    and few: "card (waiting lo q) \<le> 9500"
    and call: "SyncPeer rng net cfg (peer_answers w peercfg wire xs servers) clock u s = (sent, (result, err), s')"
  shows "err = None \<and> drained rng u ep q lo s s'"
proof -
  have order: "store_order (w_rng w)" using assms(1) by (simp add: store_order_def)
  have wf: "store_wf q" unfolding q by (rule store_wf_run [OF assms(1-3)])
  have seq: "seq_ok (sum_list (map request_weight rs)) q"
    unfolding q using store_order.seq_run [OF order store_wf_NewStore [OF assms(2)] seq_ok_NewStore assms(3)] by simp
  have "caps q = caps (NewStore ep storecfg)" unfolding q by (rule store_order.caps_run [OF order store_wf_NewStore [OF assms(2)] assms(3)])
  then have "epoch q = ep" using caps_eqD(8) by (fastforce simp: NewStore_def Let_def)
  note serves = peering_serves [OF order wf seq assms(4) peer, unfolded this]
  obtain r c s1 where pages: "syncPages rng net cfg (peer_answers w peercfg wire xs servers) clock u (Suc 19) 0
      \<lparr>psr_PeerURL = u, psr_Pages = 0, psr_PulledMessages = 0, psr_PulledAcks = 0, psr_AcceptedMessages = 0, psr_AcceptedAcks = 0\<rparr>
      [] s = (sent, r, c, s1)" and r: "r = (result, err)"
      and s': "s' = (if err = None then s1\<lparr>sy_pool := RecordSuccess u c (clock pagesPerSync) (sy_pool s1)\<rparr> else s1)"
    using call by (auto simp: SyncPeer_def pagesPerSync_def Let_def simp del: syncPages.simps split: prod.splits)
  have "snd r = None \<and> drained rng u ep q lo s s1"
  proof (cases "stale_cursor (cursorFor u s) ep")
    case True
    from drain_stale [OF serves _ this _ pages] few True lo show ?thesis by (simp add: pageSize_def)
  next
    case False
    from drain_pages [OF serves this _ _ pages] few False lo show ?thesis by (simp add: pageSize_def)
  qed
  then show ?thesis unfolding r s' by (simp add: drained_def cursorFor_def)
qed

theorem sync_drains_witness:
  "let (sent, (result, err), s') = SyncPeer ex_rng me_ex_net me_ex_cfg
     (peer_answers sv_ex_world me_ex_cfg (\<lambda>_. 0) me_ex_instants me_ex_servers) (\<lambda>_. 5) ''p'' me_ex_sync
   in err = None \<and> drained ex_rng ''p'' ''e'' ex_store 0 me_ex_sync s'"
proof -
  obtain sent result err s' where run: "SyncPeer ex_rng me_ex_net me_ex_cfg
     (peer_answers sv_ex_world me_ex_cfg (\<lambda>_. 0) me_ex_instants me_ex_servers) (\<lambda>_. 5) ''p'' me_ex_sync = (sent, (result, err), s')"
    by (metis prod_cases3 surj_pair)
  have rng: "w_rng sv_ex_world = ex_rng" by (simp add: sv_ex_world_def ex_rng_def)
  have cur: "cursorFor ''p'' me_ex_sync = zero_cursor" by (simp add: me_ex_sync_def NewSyncer_def cursorFor_def)
  have "sum_list (map request_weight ex_history) < 2 ^ 64" by (simp add: ex_history_def ex_post_def)
  from sync_drains [of sv_ex_world, unfolded rng, OF ex_range(1) ex_hyps(2,3) this ex_store_def me_ex_peering _ _ run, of 0] me_ex_few
  show ?thesis by (simp add: run cur zero_cursor_def stale_cursor_def)
qed

section \<open>The health summary\<close>

text \<open>
  Once every peer has synced, \<open>Health\<close> counts the peers whose last attempt succeeded. Before that it
  leaves the loop at the first peer that never synced, and the peers configured after it are not
  counted: a pool whose second peer is replicating can report none reachable.
\<close>

lemma healthLoop_synced:
  assumes "\<forall>u\<in>set us. \<exists>st. fmlookup m u = Some st \<and> \<not> IsZero (pst_LastSuccessAt st)"
  shows "fst (healthLoop secs now m us n oldest) =
    n + int (length (filter (\<lambda>u. \<exists>st. fmlookup m u = Some st \<and> pst_ConsecutiveFailures st = 0) us))"
  using assms by (induction us arbitrary: n oldest) (auto simp: Let_def)

theorem health_undercounts:
  "let p = RecordSuccess ''b'' ''n'' 5 (NewPool me_ex_net [] ''n'' ''u'' [''a'', ''b''])
   in map_option (\<lambda>st. (pst_ConsecutiveFailures st, pst_LastSuccessAt st)) (fmlookup (po_status p) ''b'') = Some (0, 5) \<and>
      he_Reachable (pool_Health (\<lambda>d. d div Second) 6 p) = 0"
  by code_simp

end
