(* ===== verification/Node.thy ===== *)
theory Node
  imports Server Mesh
begin

text \<open>
  \<open>cmd/dee-relay/main.go\<close>: how the process starts, and the loops it runs beside the two listeners:
  re-reading the credential file on a hangup signal, the cleanup tick and the mesh tick. The
  stores are shared by pointer: the server, the syncer and the loops work on the same ones, so the
  process has one state and a syncer is a view of it.
\<close>

section \<open>Reading the credential file\<close>

text \<open>
  \<open>admission.ReadFile\<close>. A file is known by what the operating system and the JSON decoder make of it:
  nothing when it cannot be read or is not one document of the known fields, and otherwise the
  credentials in it.
\<close>

datatype file_error = Unreadable | BadCredential credential_error

definition ReadFile :: "Credential list option \<Rightarrow> file_error + Credential list" where
  "ReadFile contents =
     (case contents of
        None \<Rightarrow> Inl Unreadable
      | Some decoded \<Rightarrow> (case ParseCredentials decoded of Inl e \<Rightarrow> Inl (BadCredential e) | Inr cs \<Rightarrow> Inr cs))"

section \<open>Starting\<close>

datatype boot_error =
    InvalidConfiguration "config_error list"
  | CredentialsNotLoaded file_error
  | NoCredentials

text \<open>The process: its configuration, its stores, and the cursors of its syncer.\<close>

record Node =
  nd_cfg :: Config
  nd_server :: Server
  nd_cursors :: "(string, cursor) gomap"

definition storeConfig :: "Config \<Rightarrow> StoreConfig" where
  "storeConfig cfg =
     \<lparr>cfg_MaxMessages = c_MaxMessages cfg, cfg_MaxAcks = c_MaxAcks cfg, cfg_MaxPurges = c_MaxPurges cfg,
      cfg_MaxPerPair = c_MaxPerPair cfg, cfg_MaxPayloadBytes = c_MaxPayloadBytes cfg, cfg_MaxTTL = c_MaxTTL cfg,
      cfg_DefaultTTL = c_DefaultTTL cfg\<rparr>"

definition bootStores :: "world \<Rightarrow> Config \<Rightarrow> string \<Rightarrow> instant \<Rightarrow> AdmStore \<Rightarrow> Server" where
  "bootStores w cfg newEpoch x admissions =
     (let store = NewStore newEpoch (storeConfig cfg);
          pool = NewPool (w_net w) (x_localIPs x) (c_NodeID cfg) (c_PublicURL cfg) (c_MeshPeers cfg);
          presenceStore = presence_NewStore 5000 (24 * Hour);
          attachmentStore = NewRelay (c_RelayMaxWindow cfg) (c_MaxChunkBytes cfg) (c_MaxAttachmentBytes cfg)
            (c_RelayMaxSessions cfg) (c_RelayIdleTimeout cfg);
          prekeyStore = prekey_NewStoreWithLimits (w_fl w) (PrekeyLimits cfg)
      in WithAdmissions (Some admissions)
           (NewServerWithStores w cfg (x_now x) store pool (Some presenceStore) (Some attachmentStore) (Some prekeyStore)))"

text \<open>
  \<open>files\<close> is what is found at a path, \<open>mul\<close> the fractions of a duration, and \<open>newEpoch\<close> the epoch the
  store drew.
\<close>

definition boot ::
  "world \<Rightarrow> (nat \<Rightarrow> nat \<Rightarrow> nat \<Rightarrow> nat) \<Rightarrow> environ \<Rightarrow> (string \<Rightarrow> Credential list option) \<Rightarrow> string \<Rightarrow> instant \<Rightarrow> boot_error + Node" where
  "boot w mul env files newEpoch x =
     (let cfg = FromEnv mul env; errs = Validate (w_net w) env cfg in
      if errs \<noteq> [] then Inl (InvalidConfiguration errs)
      else
        let (loaded, admissions) =
              (if c_AdmissionFile cfg \<noteq> [] then LoadFile (ReadFile (files (c_AdmissionFile cfg))) adm_NewStore
               else (Inr 0, adm_NewStore))
        in case loaded of
             Inl e \<Rightarrow> Inl (CredentialsNotLoaded e)
           | Inr _ \<Rightarrow>
               if c_RequireAdmission cfg \<and> adm_Count admissions = 0 then Inl NoCredentials
               else Inr \<lparr>nd_cfg = cfg, nd_server = bootStores w cfg newEpoch x admissions, nd_cursors = fmempty\<rparr>)"

section \<open>The loops\<close>

text \<open>
  A hangup signal is handled only where a credential file is configured; without one the signal ends
  the process, and its history with it.
\<close>

definition hangup :: "Credential list option \<Rightarrow> Node \<Rightarrow> Node" where
  "hangup contents n =
     (case ReadFile contents of
        Inl _ \<Rightarrow> n
      | Inr reloaded \<Rightarrow>
          if c_RequireAdmission (nd_cfg n) \<and> reloaded = [] then n
          else n\<lparr>nd_server := (nd_server n)\<lparr>sv_admissions := Replace reloaded (sv_admissions (nd_server n))\<rparr>\<rparr>)"

definition cleanupTick :: "world \<Rightarrow> instant \<Rightarrow> Node \<Rightarrow> Node" where
  "cleanupTick w x n =
     (let s = nd_server n;
          (_, pool) = RefreshSelfURL (w_net w) (x_now x) (x_localIPs x) (sv_pool s);
          (_, store) = PruneExpired (w_rng w) (x_now x) (sv_store s);
          presenceStore = presence_Prune (w_rng w) (x_now x) (sv_presence s);
          (_, attachmentStore) = att_Prune (w_rng w) (x_now x) (sv_attachments s);
          prekeyStore = prekey_Prune (x_now x) (sv_prekeys s)
      in n\<lparr>nd_server := s\<lparr>sv_pool := pool, sv_store := store, sv_presence := presenceStore,
             sv_attachments := attachmentStore, sv_prekeys := prekeyStore\<rparr>\<rparr>)"

definition syncerOf :: "Node \<Rightarrow> Syncer" where
  "syncerOf n = \<lparr>sy_store = sv_store (nd_server n), sy_pool = sv_pool (nd_server n), sy_presence = sv_presence (nd_server n),
     sy_cursors = nd_cursors n\<rparr>"

definition withSyncer :: "Syncer \<Rightarrow> Node \<Rightarrow> Node" where
  "withSyncer y n =
     n\<lparr>nd_server := (nd_server n)\<lparr>sv_store := sy_store y, sv_pool := sy_pool y, sv_presence := sy_presence y\<rparr>,
       nd_cursors := sy_cursors y\<rparr>"

text \<open>The mesh loop runs only with peers, a secret and an interval; its tick returns what it sent.\<close>

definition meshTick ::
  "world \<Rightarrow> (sync_error \<Rightarrow> string) \<Rightarrow> (string \<Rightarrow> nat \<Rightarrow> pull_request \<Rightarrow> pull_answer) \<Rightarrow> (nat \<Rightarrow> time) \<Rightarrow> Node \<Rightarrow> pull_request list \<times> Node" where
  "meshTick w err_text asks clock n =
     (if c_MeshPeers (nd_cfg n) \<noteq> [] \<and> MeshEnabled (nd_cfg n) \<and> c_MeshSyncInterval (nd_cfg n) > 0
      then let (sent, _, y) = SyncAll (w_rng w) (w_net w) (nd_cfg n) err_text asks clock (syncerOf n)
           in (sent, withSyncer y n)
      else ([], n))"

text \<open>The mesh listener: a second server, up only with a secret and an address to bind.\<close>

definition meshListener :: "world \<Rightarrow> instant \<Rightarrow> request \<Rightarrow> Node \<Rightarrow> (answer reply \<times> Node) option" where
  "meshListener w x r n =
     (case MeshHandler w (nd_cfg n) of
        None \<Rightarrow> None
      | Some handler \<Rightarrow>
          if c_MeshAddr (nd_cfg n) = [] then None
          else let (a, s) = handler x r (nd_server n) in Some (a, n\<lparr>nd_server := s\<rparr>))"

section \<open>The process as a machine\<close>

datatype node_event =
    ClientRequest instant request call
  | PeerRequest instant request
  | HangupSignal "Credential list option"
  | CleanupTick instant
  | MeshTick "sync_error \<Rightarrow> string" "string \<Rightarrow> nat \<Rightarrow> pull_request \<Rightarrow> pull_answer" "nat \<Rightarrow> time"

fun node_step :: "world \<Rightarrow> node_event \<Rightarrow> Node \<Rightarrow> pull_request list \<times> Node" where
  "node_step w (ClientRequest x r call) n = ([], n\<lparr>nd_server := snd (serve w (nd_cfg n) x r call (nd_server n))\<rparr>)"
| "node_step w (PeerRequest x r) n = (case meshListener w x r n of None \<Rightarrow> ([], n) | Some (_, n') \<Rightarrow> ([], n'))"
| "node_step w (HangupSignal contents) n = ([], if c_AdmissionFile (nd_cfg n) \<noteq> [] then hangup contents n else n)"
| "node_step w (CleanupTick x) n = ([], cleanupTick w x n)"
| "node_step w (MeshTick err_text asks clock) n = meshTick w err_text asks clock n"

end
