(* ===== verification/Node_Reach.thy ===== *)
theory Node_Reach
  imports Node Server_Inv Mesh_Inv Prekey_Inv Presence_Inv Attachment_Inv Queue_Wf
begin

text \<open>
  The process refines its components: whatever a request, a signal or a tick does, each store goes
  only through requests of its own machine. What was proved of the histories of a component then
  holds of the component inside the process.
\<close>

section \<open>Reachability\<close>

definition reaches :: "('r \<Rightarrow> 's \<Rightarrow> 'e list \<times> 's) \<Rightarrow> ('r \<Rightarrow> bool) \<Rightarrow> 's \<Rightarrow> 's \<Rightarrow> bool" where
  "reaches step ok s s' \<longleftrightarrow> (\<exists>rs. list_all ok rs \<and> snd (trace step rs s) = s')"

lemma reaches_refl [simp, intro]: "reaches step ok s s"
  unfolding reaches_def by (rule exI [of _ "[]"]) simp

lemma reaches_step: "ok r \<Longrightarrow> snd (step r s) = s' \<Longrightarrow> reaches step ok s s'"
  unfolding reaches_def by (rule exI [of _ "[r]"]) (auto split: prod.split)

lemma reaches_trans [trans]:
  assumes "reaches step ok s t" "reaches step ok t u"
  shows "reaches step ok s u"
proof -
  obtain rs rs' where rs: "list_all ok rs" "snd (trace step rs s) = t" "list_all ok rs'" "snd (trace step rs' t) = u"
    using assms by (auto simp: reaches_def)
  have "trace step (rs @ rs') s = (fst (trace step rs s) @ fst (trace step rs' t), u)"
    using rs by (intro trace_append) (simp_all add: prod_eq_iff)
  with rs show ?thesis unfolding reaches_def by (intro exI [of _ "rs @ rs'"]) simp
qed

lemma reaches_trace: "list_all ok rs \<Longrightarrow> reaches step ok s (snd (trace step rs s))"
  by (auto simp: reaches_def)

lemma reaches_fold:
  assumes "\<And>x s. x \<in> set xs \<Longrightarrow> reaches step ok s (f x s)"
  shows "reaches step ok s (fold f xs s)"
  using assms by (induction xs arbitrary: s) (auto intro: reaches_trans)

context machine
begin

lemma reaches_keeps: "inv s \<Longrightarrow> reaches step ok s s' \<Longrightarrow> inv s'"
  using run_keeps by (auto simp: reaches_def)

end

section \<open>The stores of a server\<close>

definition on_time :: "time \<Rightarrow> store_request \<Rightarrow> bool" where
  "on_time T r \<longleftrightarrow> zero_time \<le> request_time r \<and> request_time r \<le> T"

abbreviation queue_step :: "world \<Rightarrow> store_request \<Rightarrow> Store \<Rightarrow> unit list \<times> Store" where
  "queue_step w \<equiv> (\<lambda>r s. ([], store_step (w_rng w) r s))"

lemma queue_reaches:
  "reaches (queue_step w) (on_time T) s s' \<longleftrightarrow> (\<exists>rs. clocked T rs \<and> s' = store_run (w_rng w) rs s)"
proof -
  have "snd (trace (queue_step w) rs s) = store_run (w_rng w) rs s" for rs
    by (induction rs arbitrary: s) (simp_all add: case_prod_beta)
  then show ?thesis by (auto simp: reaches_def clocked_def on_time_def [abs_def])
qed

definition sv_reaches :: "world \<Rightarrow> time \<Rightarrow> Server \<Rightarrow> Server \<Rightarrow> bool" where
  "sv_reaches w T s s' \<longleftrightarrow>
     reaches (queue_step w) (on_time T) (sv_store s) (sv_store s') \<and>
     reaches (presence_step (w_rng w)) (\<lambda>_. True) (sv_presence s) (sv_presence s') \<and>
     reaches (prekey_step (w_fl w)) (\<lambda>_. True) (sv_prekeys s) (sv_prekeys s') \<and>
     reaches (relay_step (w_rng w)) (\<lambda>_. True) (sv_attachments s) (sv_attachments s') \<and>
     reaches (pool_step (w_net w)) (\<lambda>_. True) (sv_pool s) (sv_pool s') \<and>
     reaches (gate_step (w_rng w) (w_crypto w)) (\<lambda>_. True) (sv_sessions s) (sv_sessions s')"

lemma sv_reaches_refl [simp, intro]: "sv_reaches w T s s"
  by (simp add: sv_reaches_def)

lemma sv_reaches_trans [trans]: "sv_reaches w T s t \<Longrightarrow> sv_reaches w T t u \<Longrightarrow> sv_reaches w T s u"
  unfolding sv_reaches_def by (blast intro: reaches_trans)

named_theorems reach_intros

lemma sv_store_reaches [reach_intros]:
  "on_time T rq \<Longrightarrow> q = store_step (w_rng w) rq (sv_store s) \<Longrightarrow> sv_reaches w T s (s\<lparr>sv_store := q\<rparr>)"
  by (auto simp: sv_reaches_def intro: reaches_step)

lemma sv_presence_reaches:
  "reaches (presence_step (w_rng w)) (\<lambda>_. True) (sv_presence s) p \<Longrightarrow> sv_reaches w T s (s\<lparr>sv_presence := p\<rparr>)"
  by (simp add: sv_reaches_def)

lemma sv_prekeys_reaches:
  "reaches (prekey_step (w_fl w)) (\<lambda>_. True) (sv_prekeys s) p \<Longrightarrow> sv_reaches w T s (s\<lparr>sv_prekeys := p\<rparr>)"
  by (simp add: sv_reaches_def)

lemma sv_attachments_reaches:
  "reaches (relay_step (w_rng w)) (\<lambda>_. True) (sv_attachments s) p \<Longrightarrow> sv_reaches w T s (s\<lparr>sv_attachments := p\<rparr>)"
  by (simp add: sv_reaches_def)

lemma sv_pool_reaches:
  "reaches (pool_step (w_net w)) (\<lambda>_. True) (sv_pool s) p \<Longrightarrow> sv_reaches w T s (s\<lparr>sv_pool := p\<rparr>)"
  by (simp add: sv_reaches_def)

lemma sv_sessions_reaches:
  "reaches (gate_step (w_rng w) (w_crypto w)) (\<lambda>_. True) (sv_sessions s) m \<Longrightarrow> sv_reaches w T s (s\<lparr>sv_sessions := m\<rparr>)"
  by (simp add: sv_reaches_def)

text \<open>The operations that are one request, or a sweep.\<close>

lemma reaches_any: "reaches step (\<lambda>_. True) s (snd (step r s))"
  by (rule reaches_step) (rule TrueI, rule refl)

lemmas presence_any = reaches_any [of "presence_step rng" s r for rng s r]

lemmas presence_ops =
  presence_any [of _ _ "HeartbeatReq now val g" for now val g, unfolded presence_step.simps snd_conv]
  presence_any [of _ _ "QueryReq now hs" for now hs, unfolded presence_step.simps snd_conv]
  presence_any [of _ _ "RevokeReq now owner" for now owner, unfolded presence_step.simps snd_conv]
  presence_any [of _ _ "PresencePruneReq now" for now, unfolded presence_step.simps snd_conv]
  presence_any [of _ _ "PresenceCountReq now" for now, unfolded presence_step.simps snd_conv]
  presence_any [of _ _ "PresenceSnapshotReq now" for now, unfolded presence_step.simps snd_conv]
  presence_any [of _ _ "RevocationsReq now" for now, unfolded presence_step.simps snd_conv]
  presence_any [of _ _ "ImportRevocationsReq now vs" for now vs, unfolded presence_step.simps snd_conv]

lemma presence_import_op: "reaches (presence_step rng) (\<lambda>_. True) s (presence_Import rng clock vs s)"
  unfolding presence_Import_def by (rule reaches_fold) (auto simp: Heartbeat_def intro: presence_ops(1))

lemmas prekey_any = reaches_any [of "prekey_step fl" s r for fl s r]

lemmas prekey_ops =
  prekey_any [of _ _ "PublishReq now tag val" for now tag val, unfolded prekey_step.simps Let_def snd_conv]
  prekey_any [of fl _ "ClaimReq now tag dev" for fl now tag dev, unfolded prekey_step.simps Let_def snd_conv]
  prekey_any [of _ _ "PruneReq now" for now, unfolded prekey_step.simps prekey_Prune_def snd_conv]

lemma prekey_reads:
  "snd (prekey_Status now tag dev s) = prekey_pruneLocked now s" "snd (BucketCount now s) = prekey_pruneLocked now s"
  "snd (prekey_Count rng now s) = prekey_pruneLocked now s" "snd (LastResortCount now s) = prekey_pruneLocked now s"
  "prekey_Prune now s = prekey_pruneLocked now s"
  by (simp_all add: prekey_Status_def BucketCount_def prekey_Count_def LastResortCount_def prekey_Prune_def Let_def)

lemmas relay_any = reaches_any [of "relay_step rng" s r for rng s r]

lemmas relay_ops =
  relay_any [of _ _ "PushReq now c g" for now c g, unfolded relay_step.simps Let_def case_prod_beta snd_conv]
  relay_any [of _ _ "DrainReq now now' u cap" for now now' u cap, unfolded relay_step.simps Let_def case_prod_beta snd_conv]
  relay_any [of _ _ "CompleteReq now t cap" for now t cap, unfolded relay_step.simps snd_conv]
  relay_any [of _ _ "AttPruneReq now" for now, unfolded relay_step.simps snd_conv]

lemmas pool_any = reaches_any [of "pool_step net" s r for net s r]

lemmas pool_ops =
  pool_any [of _ _ "SyncSucceeded u c now" for u c now, unfolded pool_step.simps snd_conv]
  pool_any [of _ _ "SyncFailed u e now" for u e now, unfolded pool_step.simps snd_conv]
  pool_any [of _ _ "SelfRead now ips" for now ips, unfolded pool_step.simps Let_def case_prod_beta snd_conv]
  pool_any [of _ _ "SelfRefresh now ips" for now ips, unfolded pool_step.simps Let_def case_prod_beta snd_conv]

section \<open>Requests\<close>

lemma admit_reaches: "sv_reaches w T s (snd (admit cfg x r s))"
proof -
  have "snd (admit cfg x r s) = s\<lparr>sv_sessions := sv_sessions (snd (admit cfg x r s))\<rparr>"
    by (simp add: admit_def Let_def split: prod.split sum.split)
  moreover have "reaches (gate_step (w_rng w) (w_crypto w)) (\<lambda>_. True) (sv_sessions s) (sv_sessions (snd (admit cfg x r s)))"
    using reaches_trace [of "\<lambda>_. True" "admit_calls x r s"] admit_trace [of w x r s cfg] by (metis list_all_iff snd_conv)
  ultimately show ?thesis by (metis sv_sessions_reaches)
qed

lemma gated_reaches:
  assumes "\<And>g s. sv_reaches w T s (snd (handle g s))"
  shows "sv_reaches w T s (snd (gated cfg x r handle s))"
proof -
  have "sv_reaches w T s (snd (admit cfg x r s))" by (rule admit_reaches)
  with assms show ?thesis by (auto simp: gated_def split: prod.splits sum.splits intro: sv_reaches_trans)
qed

definition in_time :: "time \<Rightarrow> instant \<Rightarrow> bool" where
  "in_time T x \<longleftrightarrow> zero_time \<le> x_now x \<and> x_now x \<le> T"

lemma in_time_requests:
  assumes "in_time T x"
  shows "on_time T (PostMessage (x_now x) e i g)" "on_time T (GetMessages (x_now x) u n a)" "on_time T (PostAck (x_now x) k i g a)"
    "on_time T (GetAcks (x_now x) u n a)" "on_time T (ServeSnapshot (x_now x) c n)" "on_time T (Purge (x_now x) h)"
    "on_time T (Prune (x_now x))"
  using assms by (simp_all add: in_time_def on_time_def)

lemma store_ops:
  assumes "in_time T x"
  shows "sv_reaches w T s (s\<lparr>sv_store := snd (snd (AddMessageWithGrant (x_now x) e i g (sv_store s)))\<rparr>)"
    "sv_reaches w T s (s\<lparr>sv_store := snd (MessagesForRecipient (w_rng w) (x_now x) u n a (sv_store s))\<rparr>)"
    "sv_reaches w T s (s\<lparr>sv_store := snd (AddAckWithGrant (x_now x) k i g a (sv_store s))\<rparr>)"
    "sv_reaches w T s (s\<lparr>sv_store := snd (AcksForSender (w_rng w) (x_now x) u n a (sv_store s))\<rparr>)"
    "sv_reaches w T s (s\<lparr>sv_store := snd (SnapshotSince (w_rng w) (x_now x) c n (sv_store s))\<rparr>)"
    "sv_reaches w T s (s\<lparr>sv_store := snd (snd (PurgeOwner (w_rng w) (x_now x) h (sv_store s)))\<rparr>)"
    "sv_reaches w T s (s\<lparr>sv_store := snd (PruneExpired (w_rng w) (x_now x) (sv_store s))\<rparr>)"
  using in_time_requests [OF assms, THEN sv_store_reaches [OF _ refl, of T _ w s], unfolded store_step.simps] by blast+

lemmas part_ops = sv_presence_reaches [OF presence_ops(1)] sv_presence_reaches [OF presence_ops(2)]
  sv_presence_reaches [OF presence_ops(3)] sv_presence_reaches [OF presence_ops(4)]
  sv_prekeys_reaches [OF prekey_ops(1)] sv_prekeys_reaches [OF prekey_ops(2)] sv_prekeys_reaches [OF prekey_ops(3)]
  sv_attachments_reaches [OF relay_ops(1)] sv_attachments_reaches [OF relay_ops(2)]
  sv_attachments_reaches [OF relay_ops(3)] sv_attachments_reaches [OF relay_ops(4)]
  sv_pool_reaches [OF pool_ops(3)] sv_pool_reaches [OF pool_ops(4)]

lemma publish_then_status:
  "sv_reaches w T s (s\<lparr>sv_prekeys := prekey_pruneLocked t (snd (Publish now tag val (sv_prekeys s)))\<rparr>)"
  by (rule sv_prekeys_reaches) (rule reaches_trans [OF prekey_ops(1) prekey_ops(3)])

lemma gated_handlers_reach:
  assumes "in_time T x"
  shows "sv_reaches w T s (snd (handlePostMessage cfg x r d1 s))" "sv_reaches w T s (snd (handleGetMessages w cfg x r s))"
    "sv_reaches w T s (snd (handlePostAck w cfg x r d2 s))" "sv_reaches w T s (snd (handleGetAcks w cfg x r s))"
    "sv_reaches w T s (snd (handlePresenceHeartbeat w cfg x r d3 s))" "sv_reaches w T s (snd (handlePresenceQuery w cfg x r d4 s))"
    "sv_reaches w T s (snd (handlePublishPrekeys w cfg x r d5 s))" "sv_reaches w T s (snd (handleClaimPrekey w cfg x r s))"
    "sv_reaches w T s (snd (handlePrekeyStatus w cfg x r s))" "sv_reaches w T s (snd (handlePostAttachmentChunk cfg x r d6 s))"
    "sv_reaches w T s (snd (handleCompleteAttachment cfg x r d7 s))"
  unfolding gated_handler_defs
  by (rule gated_reaches; simp add: Let_def case_prod_beta store_ops [OF assms] part_ops prekey_reads publish_then_status
      split: sum.split)+

lemma ungated_handlers_reach:
  assumes "in_time T x"
  shows "sv_reaches w T s (snd (handleHealth w cfg x s))" "sv_reaches w T s (snd (handleNodes w x s))"
    "sv_reaches w T s (snd (handlePresenceRevoke w x d1 s))" "sv_reaches w T s (snd (handleProfilePurge w x d2 s))"
    "sv_reaches w T s (snd (handleMeshSnapshot w cfg x r s))"
proof -
  show "sv_reaches w T s (snd (handleHealth w cfg x s))"
    by (simp add: handleHealth_def Let_def case_prod_beta sv_reaches_def prekey_reads presence_ops relay_ops(4) att_Stats_def
        reaches_trans [OF prekey_ops(3) reaches_trans [OF prekey_ops(3) prekey_ops(3)]])
  show "sv_reaches w T s (snd (handleNodes w x s))" "sv_reaches w T s (snd (handlePresenceRevoke w x d1 s))"
    by (simp_all add: handleNodes_def handlePresenceRevoke_def case_prod_beta part_ops Let_def split: sum.split)
  show "sv_reaches w T s (snd (handleProfilePurge w x d2 s))"
    using store_ops(6) [OF assms, of w s]
    by (simp add: handleProfilePurge_def case_prod_beta Let_def sv_reaches_def presence_ops split: sum.split)
  show "sv_reaches w T s (snd (handleMeshSnapshot w cfg x r s))"
    using store_ops(5) [OF assms, of w s] reaches_trans [OF presence_ops(6) presence_ops(7)]
    by (simp add: handleMeshSnapshot_def case_prod_beta Let_def sv_reaches_def split: option.split)
qed

text \<open>The two admission routes touch only the gate's tables.\<close>

lemma gate_traced: "m = snd (gate_trace w rs (sv_sessions s)) \<Longrightarrow> sv_reaches w T s (s\<lparr>sv_sessions := m\<rparr>)"
  by (rule sv_sessions_reaches) (auto intro!: reaches_trace simp: list_all_iff)

lemma admission_reach:
  "sv_reaches w T s (snd (handleAdmissionChallenge w x s))" "sv_reaches w T s (snd (handleAdmissionRedeem w x d s))"
proof -
  have c: "snd (handleAdmissionChallenge w x s) = s\<lparr>sv_sessions := sv_sessions (snd (handleAdmissionChallenge w x s))\<rparr>"
    by (simp add: handleAdmissionChallenge_def Let_def case_prod_beta split: sum.split)
  show "sv_reaches w T s (snd (handleAdmissionChallenge w x s))" by (subst c) (rule gate_traced [OF challenge_trace])
  have r: "snd (handleAdmissionRedeem w x d s) = s\<lparr>sv_sessions := sv_sessions (snd (handleAdmissionRedeem w x d s))\<rparr>"
    by (simp add: handleAdmissionRedeem_def Let_def case_prod_beta split: sum.split option.split admission_error.split)
  show "sv_reaches w T s (snd (handleAdmissionRedeem w x d s))" by (subst r) (rule gate_traced [OF redeem_trace])
qed

text \<open>
  What the requests served while a long poll sleeps do to the relay is itself a history of the
  relay; then so is the poll.
\<close>

definition patience_ok :: "world \<Rightarrow> patience \<Rightarrow> bool" where
  "patience_ok w p \<longleftrightarrow> (\<forall>n re. reaches (relay_step (w_rng w)) (\<lambda>_. True) re (pa_others p n re))"

lemma pollLoop_reaches:
  assumes "\<forall>n re. reaches (relay_step rng) (\<lambda>_. True) re (others n re)"
    and "pollLoop others clock gone deadline u c n re = Some (a, re')"
  shows "reaches (relay_step rng) (\<lambda>_. True) re re'"
proof -
  let ?ok = "\<lambda>others. \<forall>n re. reaches (relay_step rng) (\<lambda>_. True) re (others n re)"
  have "?ok others \<longrightarrow> reaches (relay_step rng) (\<lambda>_. True) re (snd (a, re'))"
  proof (rule pollLoop.raw_induct [where P = "\<lambda>others clock gone deadline u c n re y.
      ?ok others \<longrightarrow> reaches (relay_step rng) (\<lambda>_. True) re (snd y)", OF _ assms(2)], intro impI)
    fix loop others clock gone deadline u c n re y
    assume IH: "\<And>others clock gone deadline u c n re y. loop others clock gone deadline u c n re = Some y \<Longrightarrow>
        ?ok others \<longrightarrow> reaches (relay_step rng) (\<lambda>_. True) re (snd y)"
      and body: "(let (chunks, re) = Drain (clock n) (clock n) u c (others n re) in
        if chunks \<noteq> [] then Some (Reply 200 (VChunks chunks), re)
        else if \<not> Before (clock n) deadline then Some (Reply 200 (VChunks []), re)
        else if gone n then Some (Hangup, re) else loop others clock gone deadline u c (n + 1) re) = Some y"
      and ok: "?ok others"
    let ?re = "snd (Drain (clock n) (clock n) u c (others n re))"
    have one: "reaches (relay_step rng) (\<lambda>_. True) re ?re" using ok relay_ops(2) by (blast intro: reaches_trans)
    have rest: "reaches (relay_step rng) (\<lambda>_. True) re (snd y)" if "loop others clock gone deadline u c (n + 1) ?re = Some y"
      using IH [OF that] ok one by (blast intro: reaches_trans)
    from body one rest show "reaches (relay_step rng) (\<lambda>_. True) re (snd y)"
      by (auto simp: Let_def case_prod_beta split: if_splits)
  qed
  with assms(1) show ?thesis by simp
qed

lemma get_chunks_reaches:
  assumes "patience_ok w p" "handleGetAttachmentChunks cfg x r p s = Some (a, s')"
  shows "sv_reaches w T s s'"
proof -
  obtain g s1 where ad: "admit cfg x r s = (g, s1)" by (cases "admit cfg x r s")
  have one: "sv_reaches w T s s1" using admit_reaches [of w T s cfg x r] by (simp add: ad)
  have "s' = s1 \<or> (\<exists>re. s' = s1\<lparr>sv_attachments := re\<rparr> \<and> reaches (relay_step (w_rng w)) (\<lambda>_. True) (sv_attachments s1) re)"
    using assms unfolding handleGetAttachmentChunks_def ad Let_def patience_ok_def
    by (auto split: sum.splits if_splits dest!: pollLoop_reaches [rotated])
  with one show ?thesis by (auto intro: sv_reaches_trans sv_attachments_reaches)
qed

fun call_ok :: "world \<Rightarrow> call \<Rightarrow> bool" where
  "call_ok w (ChunksGet p) = patience_ok w p"
| "call_ok w _ = True"

lemma serve_reaches:
  assumes "in_time T x" "call_ok w call"
  shows "sv_reaches w T s (snd (serve w cfg x r call s))"
proof (cases call)
  case (ChunksGet p)
  with assms(2) get_chunks_reaches [of w p cfg x r s _ _ T] show ?thesis by (auto split: option.split)
qed (simp_all add: limitBodies_eq gated_handlers_reach [OF assms(1)] ungated_handlers_reach [OF assms(1)] admission_reach)

end
