(* ===== verification/Node_Inv.thy ===== *)
theory Node_Inv
  imports Node_Reach Admission_Inv Prekey_Props Presence_Props Attachment_Props Admission_Props
begin

text \<open>The invariant of the whole process, from the invariants of its components.\<close>

section \<open>No operation changes a cap\<close>

lemma fold_field: "(\<And>x s. f (g x s) = f s) \<Longrightarrow> f (fold g xs s) = f s"
  by (induction xs arbitrary: s) simp_all

lemma heartbeat_cap: "ps_maxRecords (snd (HeartbeatWithGrant rng now val grant s)) = ps_maxRecords s"
proof -
  have room: "ps_maxRecords (snd (makeRoomLocked rng now caller u)) = ps_maxRecords u" for caller u
    by (simp add: makeRoomLocked_def case_prod_beta split: option.split)
  obtain ok s' where call: "HeartbeatWithGrant rng now val grant s = (ok, s')" by (cases "HeartbeatWithGrant rng now val grant s")
  from call show ?thesis
  proof (cases rule: Heartbeat_cases)
    case (search u v)
    have "ps_maxRecords v = ps_maxRecords s" using arg_cong [OF search(4), of "\<lambda>a. ps_maxRecords (snd a)"] by (simp add: room)
    with search(6) show ?thesis by (simp add: call)
  qed (simp_all add: call)
qed

lemma revoke_cap: "ps_maxRecords (snd (Revoke rng now owner s)) = ps_maxRecords s"
proof -
  have "(ps_maxRecords \<circ> snd) (fold (revokeStep owner) ks (n, s)) = (ps_maxRecords \<circ> snd) (n, s)" for ks n
    by (rule fold_field) (auto simp: revokeStep_def split: prod.split option.split)
  then show ?thesis by (simp add: Revoke_def case_prod_beta)
qed

interpretation presence_cap: machine "presence_step rng" "\<lambda>_. True" "\<lambda>s. ps_maxRecords s = m" for rng m
proof unfold_locales
  fix s r es' s'
  assume "ps_maxRecords s = m" "presence_step rng r s = (es', s')"
  moreover have "ps_maxRecords (ImportRevocations rng now vs s) = ps_maxRecords s" for now vs
    unfolding ImportRevocations_def by (rule fold_field) (simp add: importRevocationStep_def Let_def)
  ultimately show "ps_maxRecords s' = m"
    by (cases r) (auto simp: Query_def presence_Prune_def presence_Count_def presence_Snapshot_def Revocations_def Let_def
        heartbeat_cap revoke_cap)
qed

interpretation prekey_cap: machine "prekey_step fl" "\<lambda>_. True" "\<lambda>s. pk_maxBuckets s = m" for fl m
proof unfold_locales
  fix s r es' s'
  assume A: "pk_maxBuckets s = m" "prekey_step fl r s = (es', s')"
  show "pk_maxBuckets s' = m"
  proof (cases r)
    case (PublishReq now tag val)
    with A show ?thesis by (auto simp: Publish_def Let_def publishLastResort_def split: prod.splits option.splits)
  next
    case (ClaimReq now tag dev)
    with A have "s' = snd (Claim fl now tag dev s)" by (simp add: Let_def)
    with A(1) show ?thesis by (cases rule: Claim_cases [of tag dev now s fl]) (simp_all add: takeToken_fields)
  qed (use A in \<open>auto simp: prekey_Prune_def\<close>)
qed

interpretation relay_cap: machine "relay_step rng" "\<lambda>_. True" "\<lambda>r. relay_wf r \<and> relay_caps r = c" for rng c
proof unfold_locales
  fix r rq es' r'
  assume A: "relay_wf r \<and> relay_caps r = c" "relay_step rng rq r = (es', r')"
  have "relay_caps r' = relay_caps r"
  proof (cases rq)
    case (PushReq now chunk grant)
    then obtain e where call: "PushWithGrant now chunk grant r = (e, r')" using A(2) by (auto simp: Let_def split: prod.splits)
    from call show ?thesis by (cases rule: Push_cases) simp_all
  qed (use A in \<open>auto simp: Drain_def Complete_def att_Prune_def Let_def relay_caps_def sweepLocked_def putSession_def
      split: prod.splits option.splits if_splits\<close>)
  with A step_relay_wf [of r rng rq es' r'] show "relay_wf r' \<and> relay_caps r' = c" by simp
qed

section \<open>No request changes the credentials\<close>

lemma admit_admissions: "sv_admissions (snd (admit cfg x r s)) = sv_admissions s"
  by (simp add: admit_def Let_def case_prod_beta split: sum.split)

lemma gated_admissions:
  "(\<And>g s. sv_admissions (snd (handle g s)) = sv_admissions s) \<Longrightarrow> sv_admissions (snd (gated cfg x r handle s)) = sv_admissions s"
  using admit_admissions [of cfg x r s] by (auto simp: gated_def split: prod.splits sum.splits)

lemma handler_admissions:
  "sv_admissions (snd (handlePostMessage cfg x r d1 s)) = sv_admissions s" "sv_admissions (snd (handleGetMessages w cfg x r s)) = sv_admissions s"
  "sv_admissions (snd (handlePostAck w cfg x r d2 s)) = sv_admissions s" "sv_admissions (snd (handleGetAcks w cfg x r s)) = sv_admissions s"
  "sv_admissions (snd (handlePresenceHeartbeat w cfg x r d3 s)) = sv_admissions s" "sv_admissions (snd (handlePresenceQuery w cfg x r d4 s)) = sv_admissions s"
  "sv_admissions (snd (handlePublishPrekeys w cfg x r d5 s)) = sv_admissions s" "sv_admissions (snd (handleClaimPrekey w cfg x r s)) = sv_admissions s"
  "sv_admissions (snd (handlePrekeyStatus w cfg x r s)) = sv_admissions s" "sv_admissions (snd (handlePostAttachmentChunk cfg x r d6 s)) = sv_admissions s"
  "sv_admissions (snd (handleCompleteAttachment cfg x r d7 s)) = sv_admissions s"
  unfolding gated_handler_defs by (rule gated_admissions; simp add: Let_def case_prod_beta split: sum.split)+

lemma serve_admissions: "sv_admissions (snd (serve w cfg x r call s)) = sv_admissions s"
proof (cases call)
  case (ChunksGet p)
  with admit_admissions [of cfg x r s] show ?thesis
    by (auto simp: handleGetAttachmentChunks_def Let_def split: option.splits prod.splits sum.splits if_splits)
qed (simp_all add: limitBodies_eq handler_admissions handleHealth_def handleNodes_def handleAdmissionChallenge_def
    handleAdmissionRedeem_def handlePresenceRevoke_def handleProfilePurge_def Let_def case_prod_beta
    split: sum.split option.split admission_error.split)

section \<open>The mesh tick\<close>

definition sy_reaches :: "world \<Rightarrow> time \<Rightarrow> Syncer \<Rightarrow> Syncer \<Rightarrow> bool" where
  "sy_reaches w T s s' \<longleftrightarrow>
     reaches (queue_step w) (on_time T) (sy_store s) (sy_store s') \<and>
     reaches (presence_step (w_rng w)) (\<lambda>_. True) (sy_presence s) (sy_presence s') \<and>
     reaches (pool_step (w_net w)) (\<lambda>_. True) (sy_pool s) (sy_pool s')"

lemma sy_reaches_refl [simp, intro]: "sy_reaches w T s s"
  by (simp add: sy_reaches_def)

lemma sy_reaches_trans [trans]: "sy_reaches w T s t \<Longrightarrow> sy_reaches w T t u \<Longrightarrow> sy_reaches w T s u"
  unfolding sy_reaches_def by (blast intro: reaches_trans)

lemma sy_frames [simp]:
  "sy_reaches w T s (setCursor u c s') \<longleftrightarrow> sy_reaches w T s s'" "sy_reaches w T (setCursor u c s) s' \<longleftrightarrow> sy_reaches w T s s'"
  by (simp_all add: sy_reaches_def setCursor_def)

definition ticking :: "time \<Rightarrow> (nat \<Rightarrow> time) \<Rightarrow> bool" where
  "ticking T clock \<longleftrightarrow> (\<forall>i. zero_time \<le> clock i \<and> clock i \<le> T)"

lemma took_reaches:
  assumes "ticking T clock"
  shows "sy_reaches w T s (took (w_rng w) (clock i) u p s)"
proof -
  have "reaches (queue_step w) (on_time T) (sy_store s) (snd (ImportSnapshot (w_rng w) (clock i) p (sy_store s)))"
    using assms by (intro reaches_step [of _ "Import (clock i) p"]) (simp_all add: ticking_def on_time_def)
  moreover have "reaches (presence_step (w_rng w)) (\<lambda>_. True) (sy_presence s)
      (ImportRevocations (w_rng w) (clock i) vs (presence_Import (w_rng w) (\<lambda>_. clock i) hs (sy_presence s)))" for hs vs
    by (rule reaches_trans [OF presence_import_op presence_ops(8)])
  ultimately show ?thesis by (simp add: took_def importPage_def Let_def case_prod_beta sy_reaches_def setCursor_def)
qed

lemma syncPages_reaches:
  assumes "ticking T clock" "syncPages (w_rng w) net cfg asks clock u left page result claimedID s = (sent, r, c, s')"
  shows "sy_reaches w T s s'"
  using assms(2)
proof (induction left arbitrary: page result claimedID s sent)
  case (Suc left)
  note took = took_reaches [OF assms(1), of w]
  from Suc.prems show ?case
  proof (cases rule: syncPages_cases)
    case (reset p sent1 sent2 result1)
    from Suc.IH [OF reset(4)] show ?thesis by simp
  next
    case (more p sent1 sent2 result1)
    from Suc.IH [OF more(6)] show ?thesis by (rule sy_reaches_trans [OF took])
  qed (simp_all add: took)
qed simp

lemma SyncPeer_reaches:
  assumes "ticking T clock" "SyncPeer (w_rng w) net cfg asks clock u s = (sent, r, s')"
  shows "sy_reaches w T s s'"
proof -
  have pool: "sy_reaches w T s1 (s1\<lparr>sy_pool := RecordSuccess u c now (sy_pool s1)\<rparr>)" for s1 c now
    by (simp add: sy_reaches_def pool_ops)
  from assms(2) show ?thesis
    by (auto simp: SyncPeer_def Let_def split: prod.splits if_splits dest!: syncPages_reaches [OF assms(1)]
        intro: sy_reaches_trans pool)
qed

lemma syncTargets_reaches:
  assumes "ticking T clock" "syncTargets (w_rng w) net cfg err_text asks clock peers s = (sent, errs, s')"
  shows "sy_reaches w T s s'"
  using assms(2)
proof (induction peers arbitrary: s sent errs)
  case (Cons u us)
  obtain sent1 result err s1 where p: "SyncPeer (w_rng w) net cfg (asks u) clock u s = (sent1, (result, err), s1)"
    by (metis prod_cases3 surj_pair)
  let ?s2 = "case err of None \<Rightarrow> s1 | Some e \<Rightarrow> s1\<lparr>sy_pool := RecordFailure u (err_text e) (clock pagesPerSync) (sy_pool s1)\<rparr>"
  obtain sent2 errs2 s3 where l: "syncTargets (w_rng w) net cfg err_text asks clock us ?s2 = (sent2, errs2, s3)"
    by (metis prod_cases3)
  have s3: "s' = s3" using Cons.prems by (simp add: p l Let_def)
  have one: "sy_reaches w T s s1" by (rule SyncPeer_reaches [OF assms(1) p])
  have two: "sy_reaches w T s1 ?s2" by (simp add: sy_reaches_def pool_ops split: option.split)
  show ?case unfolding s3 by (rule sy_reaches_trans [OF one sy_reaches_trans [OF two Cons.IH [OF l [folded s3], unfolded s3]]])
qed simp

section \<open>The process\<close>

fun event_ok :: "world \<Rightarrow> time \<Rightarrow> node_event \<Rightarrow> bool" where
  "event_ok w T (ClientRequest x r call) \<longleftrightarrow> in_time T x \<and> call_ok w call"
| "event_ok w T (PeerRequest x r) \<longleftrightarrow> in_time T x"
| "event_ok w T (HangupSignal contents) \<longleftrightarrow> True"
| "event_ok w T (CleanupTick x) \<longleftrightarrow> in_time T x"
| "event_ok w T (MeshTick err_text asks clock) \<longleftrightarrow> ticking T clock"

lemma node_step_reaches:
  assumes "event_ok w T ev" "node_step w ev n = (sent, n')"
  shows "sv_reaches w T (nd_server n) (nd_server n') \<and> nd_cfg n' = nd_cfg n"
proof (cases ev)
  case (ClientRequest x r call)
  with assms serve_reaches [of T x w call "nd_server n" "nd_cfg n" r] show ?thesis by auto
next
  case (PeerRequest x r)
  with assms ungated_handlers_reach(5) [of T x w "nd_server n" "nd_cfg n" r] show ?thesis
    by (auto simp: meshListener_def MeshHandler_def case_prod_beta split: option.splits if_splits)
next
  case (HangupSignal contents)
  with assms show ?thesis by (auto simp: hangup_def sv_reaches_def split: sum.splits)
next
  case (CleanupTick x)
  with assms have x: "in_time T x" by simp
  from CleanupTick assms store_ops(7) [OF x, of w "nd_server n"] show ?thesis
    by (auto simp: cleanupTick_def Let_def case_prod_beta sv_reaches_def presence_ops relay_ops pool_ops prekey_reads prekey_ops)
next
  case (MeshTick err_text asks clock)
  obtain sent1 errs y where all: "SyncAll (w_rng w) (w_net w) (nd_cfg n) err_text asks clock (syncerOf n) = (sent1, errs, y)"
    by (metis prod_cases3)
  from MeshTick assms(1) have "sy_reaches w T (syncerOf n) y"
    using all by (auto simp: SyncAll_def split: if_splits intro: syncTargets_reaches)
  then have "sv_reaches w T (nd_server n) (nd_server (withSyncer y n))"
    by (simp add: sy_reaches_def sv_reaches_def withSyncer_def syncerOf_def)
  with MeshTick assms(2) show ?thesis by (auto simp: meshTick_def all withSyncer_def split: if_splits)
qed

text \<open>Every component keeps its books, and the credentials are a checked set, never empty on an enforcing relay.\<close>

definition sound :: "Config \<Rightarrow> Server \<Rightarrow> bool" where
  "sound cfg s \<longleftrightarrow>
     store_wf (sv_store s) \<and> presence_wf (sv_presence s) \<and> prekey_wf (sv_prekeys s) \<and> relay_wf (sv_attachments s) \<and>
     gate_bounded (sv_sessions s) \<and> roster_ok (c_MeshPeers cfg) (sv_pool s) \<and>
     store_ok (sv_admissions s) \<and> (c_RequireAdmission cfg \<longrightarrow> 0 < adm_Count (sv_admissions s))"

text \<open>The caps are the configured ones.\<close>

definition sized :: "Config \<Rightarrow> Server \<Rightarrow> bool" where
  "sized cfg s \<longleftrightarrow>
     (\<exists>ep. caps (sv_store s) = caps (NewStore ep (storeConfig cfg))) \<and> ps_maxRecords (sv_presence s) = 5000 \<and>
     pk_maxBuckets (sv_prekeys s) = pk_maxBuckets (prekey_NewStoreWithLimits (\<lambda>q. q) (PrekeyLimits cfg)) \<and>
     relay_caps (sv_attachments s) = relay_caps (NewRelay (c_RelayMaxWindow cfg) (c_MaxChunkBytes cfg)
       (c_MaxAttachmentBytes cfg) (c_RelayMaxSessions cfg) (c_RelayIdleTimeout cfg))"

lemma Replace_count:
  assumes "store_ok s" "ReadFile contents = Inr cs"
  shows "store_ok (Replace cs s)" "cs \<noteq> [] \<Longrightarrow> 0 < adm_Count (Replace cs s)"
proof -
  from assms(2) obtain doc where "ParseCredentials doc = Inr cs" by (auto simp: ReadFile_def split: option.splits sum.splits)
  note parsed = Parse_cases [OF this]
  note rep = Replace_store [OF assms(1) parsed(5,4)]
  show "store_ok (Replace cs s)" by (rule rep)
  assume "cs \<noteq> []"
  then obtain c where "fmlookup (ad_credentials (Replace cs s)) (cred_ID c) = Some c" using rep(4) by (cases cs) auto
  then have "ad_credentials (Replace cs s) \<noteq> fmempty" by auto
  then have "0 < go_len (ad_credentials (Replace cs s))"
    using go_len_zero_iff [of "ad_credentials (Replace cs s)"] go_len_nonneg [of "ad_credentials (Replace cs s)"] by linarith
  with rep(1) show "0 < adm_Count (Replace cs s)" by (simp add: store_ok_def adm_Count_def)
qed

lemma node_step_admissions:
  assumes "node_step w ev n = (sent, n')" "store_ok (sv_admissions (nd_server n))"
    and "c_RequireAdmission (nd_cfg n) \<longrightarrow> 0 < adm_Count (sv_admissions (nd_server n))"
  shows "store_ok (sv_admissions (nd_server n')) \<and>
    (c_RequireAdmission (nd_cfg n) \<longrightarrow> 0 < adm_Count (sv_admissions (nd_server n')))"
proof (cases ev)
  case (ClientRequest x r call)
  with assms serve_admissions [of w "nd_cfg n" x r call "nd_server n"] show ?thesis by auto
next
  case (PeerRequest x r)
  with assms show ?thesis
    by (auto simp: meshListener_def MeshHandler_def handleMeshSnapshot_def Let_def case_prod_beta split: option.splits if_splits)
next
  case (HangupSignal contents)
  with assms Replace_count [OF assms(2), of contents] show ?thesis by (auto simp: hangup_def split: sum.splits if_splits)
next
  case (CleanupTick x)
  with assms show ?thesis by (auto simp: cleanupTick_def Let_def case_prod_beta)
next
  case (MeshTick err_text asks clock)
  with assms show ?thesis by (auto simp: meshTick_def withSyncer_def split: prod.splits if_splits)
qed

lemma reaches_sound:
  assumes "range_order (w_rng w)" "sv_reaches w T s s'" "sound cfg s" "sized cfg s"
    and "store_ok (sv_admissions s')" "c_RequireAdmission cfg \<longrightarrow> 0 < adm_Count (sv_admissions s')"
  shows "sound cfg s' \<and> sized cfg s'"
proof -
  have order: "store_order (w_rng w)" "presence_order (w_rng w)" using assms(1) by (simp_all add: store_order_def presence_order_def)
  note r = assms(2) [unfolded sv_reaches_def]
  obtain rs where rs: "clocked T rs" "sv_store s' = store_run (w_rng w) rs (sv_store s)"
    using r by (auto simp: queue_reaches)
  have wf: "store_wf (sv_store s)" using assms(3) by (simp add: sound_def)
  have "store_wf (sv_store s')" "caps (sv_store s') = caps (sv_store s)"
    unfolding rs(2) by (rule store_order.wf_run [OF order(1) wf rs(1)], rule store_order.caps_run [OF order(1) wf rs(1)])
  moreover have "presence_wf (sv_presence s')"
  proof -
    obtain rs where "snd (trace (presence_step (w_rng w)) rs (sv_presence s)) = sv_presence s'" using r unfolding reaches_def by blast
    with presence_order.presence_wf_run [OF order(2), of "sv_presence s" rs] assms(3) show ?thesis by (simp add: sound_def)
  qed
  moreover have "ps_maxRecords (sv_presence s') = ps_maxRecords (sv_presence s)"
    by (rule presence_cap.reaches_keeps [OF refl]) (use r in blast)
  moreover have "prekey_wf (sv_prekeys s')"
    by (rule prekey_bounds.reaches_keeps [of "sv_prekeys s"]) (use r assms(3) in \<open>auto simp: sound_def\<close>)
  moreover have "pk_maxBuckets (sv_prekeys s') = pk_maxBuckets (sv_prekeys s)"
    by (rule prekey_cap.reaches_keeps [OF refl]) (use r in blast)
  moreover have "gate_bounded (sv_sessions s')"
    by (rule gate_bounds.reaches_keeps [of "sv_sessions s"]) (use r assms(3) in \<open>auto simp: sound_def\<close>)
  moreover have "roster_ok (c_MeshPeers cfg) (sv_pool s')"
    by (rule pool_roster.reaches_keeps [of _ "sv_pool s"]) (use r assms(3) in \<open>auto simp: sound_def\<close>)
  moreover have "relay_wf (sv_attachments s') \<and> relay_caps (sv_attachments s') = relay_caps (sv_attachments s)"
    by (rule relay_cap.reaches_keeps [of "sv_attachments s"]) (use r assms(3) in \<open>auto simp: sound_def\<close>)
  ultimately show ?thesis using assms(4-6) by (simp add: sound_def sized_def)
qed

text \<open>What a tick sends goes to a configured peer, whatever happened before.\<close>

lemma node_step_sends:
  assumes "roster_ok (c_MeshPeers (nd_cfg n)) (sv_pool (nd_server n))" "node_step w ev n = (sent, n')"
  shows "\<forall>rq\<in>set sent. \<exists>u\<in>set (c_MeshPeers (nd_cfg n)). addressed_to (w_net w) (nd_cfg n) u rq"
proof (cases ev)
  case (PeerRequest x r)
  with assms(2) show ?thesis by (auto split: option.splits)
next
  case (MeshTick err_text asks clock)
  obtain sent1 errs y where all: "SyncAll (w_rng w) (w_net w) (nd_cfg n) err_text asks clock (syncerOf n) = (sent1, errs, y)"
    by (metis prod_cases3)
  have "\<forall>rq\<in>set sent1. \<exists>u\<in>set (Targets (sy_pool (syncerOf n))). addressed_to (w_net w) (nd_cfg n) u rq"
    using all syncTargets_frame by (fastforce simp: SyncAll_def split: if_splits)
  moreover have "set (Targets (sy_pool (syncerOf n))) \<subseteq> set (c_MeshPeers (nd_cfg n))"
    using assms(1) by (auto simp: roster_ok_def Targets_def syncerOf_def)
  ultimately show ?thesis using MeshTick assms(2) by (auto simp: meshTick_def all split: if_splits)
qed (use assms(2) in auto)

definition node_books :: "world \<Rightarrow> Config \<Rightarrow> pull_request list \<Rightarrow> Node \<Rightarrow> bool" where
  "node_books w cfg sent n \<longleftrightarrow> nd_cfg n = cfg \<and> sound cfg (nd_server n) \<and> sized cfg (nd_server n) \<and>
     (\<forall>rq\<in>set sent. \<exists>u\<in>set (c_MeshPeers cfg). addressed_to (w_net w) cfg u rq)"

interpretation process: observed_machine "node_step w" "\<lambda>ev. range_order (w_rng w) \<and> event_ok w T ev" "node_books w cfg" for w T cfg
proof unfold_locales
  fix sent n ev sent' n'
  assume inv: "node_books w cfg sent n" and ok: "range_order (w_rng w) \<and> event_ok w T ev" and step: "node_step w ev n = (sent', n')"
  from inv have n: "nd_cfg n = cfg" "sound cfg (nd_server n)" "sized cfg (nd_server n)" by (simp_all add: node_books_def)
  from node_step_reaches [OF _ step, of T] ok have r: "sv_reaches w T (nd_server n) (nd_server n')" "nd_cfg n' = cfg"
    using n(1) by auto
  from node_step_admissions [OF step] n
  have "store_ok (sv_admissions (nd_server n'))" "c_RequireAdmission cfg \<longrightarrow> 0 < adm_Count (sv_admissions (nd_server n'))"
    by (auto simp: sound_def)
  from reaches_sound [OF _ r(1) n(2,3) this] ok have "sound cfg (nd_server n') \<and> sized cfg (nd_server n')" by blast
  with r(2) inv node_step_sends [OF _ step] n show "node_books w cfg (sent @ sent') n'"
    by (auto simp: node_books_def sound_def)
qed

section \<open>A process that starts\<close>

lemma boot_cases:
  assumes "boot w mul env files ep x = Inr n"
  obtains adm where "n = \<lparr>nd_cfg = FromEnv mul env, nd_server = bootStores w (FromEnv mul env) ep x adm, nd_cursors = fmempty\<rparr>"
    "Validate (w_net w) env (FromEnv mul env) = []" "store_ok adm"
    "c_RequireAdmission (FromEnv mul env) \<longrightarrow> 0 < adm_Count adm"
proof -
  let ?cfg = "FromEnv mul env"
  have nonneg: "0 \<le> adm_Count adm" if "store_ok adm" for adm using that by (simp add: store_ok_def adm_Count_def)
  have loaded: "store_ok adm" if "LoadFile (ReadFile c) adm_NewStore = (Inr k, adm)" for c k adm
    using that Replace_count(1) [OF store_start] by (auto simp: LoadFile_def split: sum.splits)
  from assms obtain adm where adm: "n = \<lparr>nd_cfg = ?cfg, nd_server = bootStores w ?cfg ep x adm, nd_cursors = fmempty\<rparr>"
      "Validate (w_net w) env ?cfg = []" "\<not> (c_RequireAdmission ?cfg \<and> adm_Count adm = 0)" "store_ok adm"
    using loaded store_start by (auto simp: boot_def Let_def split: if_splits prod.splits sum.splits)
  from adm nonneg [OF adm(4)] show thesis by (intro that [of adm]) auto
qed

lemma boot_books:
  assumes "boot w mul env files ep x = Inr n" "c_MaxMessages (nd_cfg n) < 2 ^ 62"
  shows "node_books w (nd_cfg n) [] n"
proof -
  from assms(1) obtain adm where n: "n = \<lparr>nd_cfg = FromEnv mul env, nd_server = bootStores w (FromEnv mul env) ep x adm, nd_cursors = fmempty\<rparr>"
    and adm: "store_ok adm" "c_RequireAdmission (FromEnv mul env) \<longrightarrow> 0 < adm_Count adm" by (rule boot_cases)
  let ?cfg = "FromEnv mul env"
  have "store_wf (NewStore ep (storeConfig ?cfg))"
    by (rule store_wf_NewStore) (use assms(2) in \<open>simp add: n config_fits_def storeConfig_def\<close>)
  moreover have "pk_maxBuckets (prekey_NewStoreWithLimits (w_fl w) l) = pk_maxBuckets (prekey_NewStoreWithLimits (\<lambda>q. q) l)" for l
    by (simp add: prekey_NewStoreWithLimits_def)
  moreover have "ps_maxRecords (presence_NewStore 5000 (24 * Hour)) = 5000" by (simp add: presence_NewStore_def)
  ultimately show ?thesis using adm
    by (auto simp: n node_books_def sound_def sized_def bootStores_def Let_def WithAdmissions_def NewServerWithStores_def NewServer_def
        presence_wf_New prekey_wf_New relay_wf_def gate_start NewPool_roster less_imp_le)
qed

end
