(* ===== verification/Node_Props.thy ===== *)
theory Node_Props
  imports Node_Inv Server_Props
begin

text \<open>The properties of the process as a whole.\<close>

section \<open>The configuration a process starts with\<close>

lemma from_env_positive:
  fixes mul env
  defines "cfg \<equiv> FromEnv mul env"
  shows "0 < c_MaxMessages cfg" "0 < c_MaxPurges cfg" "0 < c_MaxPerPair cfg" "0 < c_MaxPayloadBytes cfg" "0 < c_RelayMaxWindow cfg"
    "0 < c_MaxChunkBytes cfg" "0 < c_MaxAttachmentBytes cfg" "0 < c_RelayMaxSessions cfg" "0 < c_MaxPrekeyBuckets cfg"
    "0 < c_MaxTTL cfg" "0 < c_DefaultTTL cfg" "0 < c_RelayIdleTimeout cfg"
  using Hour_pos by (simp_all add: cfg_def FromEnv_def Let_def envInt_positive envDuration_positive)

lemma from_env_acks:
  assumes "c_MaxMessages (FromEnv mul env) < 2 ^ 62" "Validate net env (FromEnv mul env) = []"
  shows "c_MaxMessages (FromEnv mul env) < c_MaxAcks (FromEnv mul env)"
proof -
  let ?cfg = "FromEnv mul env"
  have "0 < c_MaxMessages ?cfg" by (rule from_env_positive)
  moreover from this assms(1) have "0 < wrap64 (2 * c_MaxMessages ?cfg)" by (simp add: wrap64_id)
  then have "0 < c_MaxAcks ?cfg" unfolding FromEnv_def Let_def by (simp add: envInt_positive)
  moreover have "\<not> (c_MaxAcks ?cfg > 0 \<and> c_MaxMessages ?cfg > 0 \<and> c_MaxAcks ?cfg \<le> c_MaxMessages ?cfg)"
    using assms(2) by (auto simp: Validate_def case_prod_beta Let_def split: if_splits)
  ultimately show ?thesis by linarith
qed

text \<open>What the tables of the process hold, against the configured numbers.\<close>

definition within_caps :: "Config \<Rightarrow> Server \<Rightarrow> bool" where
  "within_caps cfg s \<longleftrightarrow>
     go_len (messages (sv_store s)) \<le> c_MaxMessages cfg \<and> go_len (acks (sv_store s)) \<le> c_MaxAcks cfg \<and>
     go_len (purges (sv_store s)) \<le> c_MaxPurges cfg \<and>
     go_len (ps_records (sv_presence s)) \<le> 5000 \<and> go_len (ps_revocations (sv_presence s)) \<le> 5000 \<and>
     int (card (buckets (sv_prekeys s))) \<le> c_MaxPrekeyBuckets cfg \<and> go_len (pk_tokens (sv_prekeys s)) \<le> c_MaxPrekeyBuckets cfg \<and>
     go_len (re_sessions (sv_attachments s)) \<le> c_RelayMaxSessions cfg \<and>
     (\<forall>cap t. fmlookup (re_sessions (sv_attachments s)) cap = Some t \<longrightarrow> int (length (se_window t)) \<le> c_RelayMaxWindow cfg) \<and>
     go_len (ss_nonces (sv_sessions s)) \<le> maxNonces \<and> go_len (ss_sessions (sv_sessions s)) \<le> adm_maxSessions"

lemma sound_within_caps:
  assumes "sound cfg s" "sized cfg s" "cfg = FromEnv mul env" "c_MaxMessages cfg < 2 ^ 62" "Validate net env cfg = []"
  shows "within_caps cfg s"
proof -
  note pos = from_env_positive [of mul env, folded assms(3)]
  have acks: "c_MaxMessages cfg < c_MaxAcks cfg" using from_env_acks [of mul env net] assms(3-5) by simp
  obtain ep where caps: "caps (sv_store s) = caps (NewStore ep (storeConfig cfg))" using assms(2) by (auto simp: sized_def)
  have store: "maxMessages (sv_store s) = c_MaxMessages cfg" "maxAcks (sv_store s) = c_MaxAcks cfg" "maxPurges (sv_store s) = c_MaxPurges cfg"
    using pos acks unfolding caps_eqD(1-3) [OF caps] by (simp_all add: NewStore_def storeConfig_def Let_def)
  have relay: "re_maxSessions (sv_attachments s) = c_RelayMaxSessions cfg" "re_maxWindow (sv_attachments s) = c_RelayMaxWindow cfg"
    using assms(2) pos by (auto simp: sized_def relay_caps_def NewRelay_def)
  have prekeys: "pk_maxBuckets (sv_prekeys s) = c_MaxPrekeyBuckets cfg"
    using assms(2) pos by (auto simp: sized_def prekey_NewStoreWithLimits_def PrekeyLimits_def)
  from assms(1,2) store relay prekeys show ?thesis
    by (auto simp: within_caps_def sound_def sized_def store_wf_def sizes_ok_def presence_wf_def prekey_wf_def relay_wf_def
        session_ok_def gate_bounded_def)
qed

section \<open>The process\<close>

text \<open>
  C2. From every start that succeeds, along every history of client requests, peer requests, hangup
  signals, cleanup ticks and mesh ticks, in any order: every component keeps its books; every table
  stays within the configured cap; the credentials are a checked set, which on an enforcing relay
  is never empty, whatever file a reload finds; the roster and the configuration are what the
  process started with; and every pull the process ever sends, the pool secret in it, goes to
  a configured peer. The message cap must leave room for doubling it in 64 bits.
\<close>

theorem process_invariant:
  assumes "range_order (w_rng w)" "boot w mul env files ep x = Inr n0" "c_MaxMessages (nd_cfg n0) < 2 ^ 62"
    and "list_all (event_ok w T) evs" "trace (node_step w) evs n0 = (sent, n)"
  shows "nd_cfg n = FromEnv mul env \<and> sound (nd_cfg n) (nd_server n) \<and> within_caps (nd_cfg n) (nd_server n) \<and>
    (\<forall>rq\<in>set sent. \<exists>u\<in>set (c_MeshPeers (nd_cfg n)). addressed_to (w_net w) (nd_cfg n) u rq)"
proof -
  from assms(2) have start: "nd_cfg n0 = FromEnv mul env" "Validate (w_net w) env (FromEnv mul env) = []"
    by (auto elim: boot_cases)
  have "list_all (\<lambda>ev. range_order (w_rng w) \<and> event_ok w T ev) evs" using assms(1,4) by (simp add: list_all_iff)
  from process.trace_inv [OF boot_books [OF assms(2,3)] this assms(5)]
  have "node_books w (FromEnv mul env) sent n" by (simp add: start(1))
  then show ?thesis using sound_within_caps [of "nd_cfg n" "nd_server n" mul env "w_net w"] assms(3) start
    by (auto simp: node_books_def)
qed

definition nd_ex_env :: environ where
  "nd_ex_env k = (if k = ''DEE_NODE_REQUIRE_ADMISSION'' then ''true'' else if k = ''DEE_NODE_ADMISSION_FILE'' then ''f'' else [])"

definition nd_ex_credential :: Credential where
  "nd_ex_credential = \<lparr>cred_ID = sv_ex_id, cred_Terms = zero_Terms\<lparr>te_NotAfter := 100\<rparr>\<rparr>"

definition nd_ex_boot :: "boot_error + Node" where
  "nd_ex_boot = boot sv_ex_world (\<lambda>_ _ _. 0) nd_ex_env (\<lambda>_. Some [nd_ex_credential]) ''e'' (sv_ex_instant 1 None)"

definition nd_ex_events :: "node_event list" where
  "nd_ex_events = [ClientRequest (sv_ex_instant 2 None) sv_ex_request MessagesGet, HangupSignal (Some []), CleanupTick (sv_ex_instant 3 None),
     MeshTick (\<lambda>_. []) (\<lambda>_ _ _. NoAnswer) (\<lambda>_. 4), HangupSignal None]"

lemma nd_ex_config:
  fixes cfg
  defines "cfg \<equiv> FromEnv (\<lambda>_ _ _. 0) nd_ex_env"
  shows "c_MaxMessages cfg = 1000" "c_MaxAcks cfg = 2000" "c_MeshSecret cfg = []" "c_MeshAddr cfg = []" "c_MeshPeers cfg = []"
    "c_AdmissionFile cfg = ''f''" "c_RequireAdmission cfg" "c_PublicURL cfg = ''http://localhost:8080''"
proof -
  have trim: "TrimSpace ''f'' = ''f''" "TrimSpace ''true'' = ''true''" "ParseBool ''true'' = Some True" by code_simp+
  have env: "envInt nd_ex_env k d = d" "envString nd_ex_env k e = e"
    if "k \<noteq> ''DEE_NODE_REQUIRE_ADMISSION''" "k \<noteq> ''DEE_NODE_ADMISSION_FILE''" for k d e
    using that by (simp_all add: envInt_def envString_def nd_ex_env_def Let_def)
  show "c_MaxMessages cfg = 1000" "c_MaxAcks cfg = 2000" "c_MeshSecret cfg = []" "c_MeshAddr cfg = []" "c_MeshPeers cfg = []"
    "c_PublicURL cfg = ''http://localhost:8080''"
    by (simp_all add: cfg_def FromEnv_def Let_def env envCSV_def nd_ex_env_def wrap64_def)
  show "c_AdmissionFile cfg = ''f''" "c_RequireAdmission cfg"
    using trim by (simp_all add: cfg_def FromEnv_def Let_def envString_def envBool_def nd_ex_env_def)
qed

lemma nd_ex_file: "ReadFile (Some [nd_ex_credential]) = Inr [nd_ex_credential]"
  by (simp add: ReadFile_def ParseCredentials_def validateCredential_def nd_ex_credential_def sv_ex_id_def b64url_decode_encode
      zero_Terms_def del: b64url_encode.simps)

lemma nd_ex_boots: "\<not> isl nd_ex_boot" "nd_cfg (projr nd_ex_boot) = FromEnv (\<lambda>_ _ _. 0) nd_ex_env"
proof -
  let ?cfg = "FromEnv (\<lambda>_ _ _. 0) nd_ex_env"
  have "Validate (w_net sv_ex_world) nd_ex_env ?cfg = []" by (simp add: Validate_def nd_ex_config nd_ex_env_def)
  moreover have "0 < adm_Count (Replace [nd_ex_credential] adm_NewStore)" by (rule Replace_count(2) [OF store_start nd_ex_file]) simp
  ultimately have eq: "nd_ex_boot = Inr \<lparr>nd_cfg = ?cfg,
      nd_server = bootStores sv_ex_world ?cfg ''e'' (sv_ex_instant 1 None) (Replace [nd_ex_credential] adm_NewStore), nd_cursors = fmempty\<rparr>"
    by (simp add: nd_ex_boot_def boot_def Let_def nd_ex_config nd_ex_file LoadFile_def)
  show "\<not> isl nd_ex_boot" "nd_cfg (projr nd_ex_boot) = ?cfg" unfolding eq by simp_all
qed

theorem process_invariant_witness:
  "let n = snd (trace (node_step sv_ex_world) nd_ex_events (projr nd_ex_boot))
   in \<not> isl nd_ex_boot \<and> within_caps (nd_cfg n) (nd_server n) \<and> 0 < adm_Count (sv_admissions (nd_server n))"
proof -
  let ?t = "trace (node_step sv_ex_world) nd_ex_events (projr nd_ex_boot)"
  have "range_order (w_rng sv_ex_world)" by (simp add: sv_ex_world_def sorted_range.range_order_axioms)
  moreover have boot: "boot sv_ex_world (\<lambda>_ _ _. 0) nd_ex_env (\<lambda>_. Some [nd_ex_credential]) ''e'' (sv_ex_instant 1 None) = Inr (projr nd_ex_boot)"
    using nd_ex_boots(1) by (simp add: nd_ex_boot_def)
  moreover have "c_MaxMessages (nd_cfg (projr nd_ex_boot)) < 2 ^ 62" by (simp add: nd_ex_boots nd_ex_config)
  moreover have "list_all (event_ok sv_ex_world 9) nd_ex_events"
    by (simp add: nd_ex_events_def in_time_def sv_ex_instant_def ticking_def)
  ultimately have inv: "nd_cfg (snd ?t) = FromEnv (\<lambda>_ _ _. 0) nd_ex_env \<and> sound (nd_cfg (snd ?t)) (nd_server (snd ?t)) \<and>
      within_caps (nd_cfg (snd ?t)) (nd_server (snd ?t))"
    using process_invariant [OF _ _ _ _ prod.collapse [symmetric]] by blast
  then show ?thesis using nd_ex_boots nd_ex_config(7) by (auto simp: sound_def)
qed

section \<open>A message cap that cannot be doubled\<close>

text \<open>
  The default ack cap is twice the message cap, in 64 bits. With a message cap of \<open>2\<^sup>6\<^sup>2\<close> it is negative,
  the check of the two caps against each other passes over it because it only looks at positive
  ones, and so does the fallback of the store: the process starts with an ack lane that refuses
  every message.
\<close>

definition nd_ex_huge :: environ where
  "nd_ex_huge k = (if k = ''DEE_NODE_MAX_MESSAGES'' then ''4611686018427387904'' else [])"

lemma nd_ex_huge_atoi: "envInt nd_ex_huge ''DEE_NODE_MAX_MESSAGES'' 1000 = 2 ^ 62"
proof -
  have trim: "TrimSpace ''4611686018427387904'' = ''4611686018427387904''" "numeric ''4611686018427387904''" by code_simp+
  have "decimal ''4611686018427387904'' = 4611686018427387904" by (simp add: decimal_def digit_value_def)
  then show ?thesis using trim by (simp add: envInt_def nd_ex_huge_def Atoi_def Let_def)
qed

theorem huge_message_cap:
  fixes ep x
  defines "n \<equiv> boot sv_ex_world (\<lambda>_ _ _. 0) nd_ex_huge (\<lambda>_. None) ep x"
  shows "\<not> isl n \<and> c_MaxAcks (nd_cfg (projr n)) < 0 \<and> maxAcks (sv_store (nd_server (projr n))) < 0"
proof -
  let ?cfg = "FromEnv (\<lambda>_ _ _. 0) nd_ex_huge"
  have env: "envInt nd_ex_huge k d = d" "envString nd_ex_huge k e = e" if "k \<noteq> ''DEE_NODE_MAX_MESSAGES''" for k d e
    using that by (simp_all add: envInt_def envString_def nd_ex_huge_def Let_def)
  have cfg: "c_MaxMessages ?cfg = 2 ^ 62" "c_MaxAcks ?cfg = - (2 ^ 63)"
    by (simp_all add: FromEnv_def Let_def nd_ex_huge_atoi env wrap64_def)
  have other: "c_MeshSecret ?cfg = []" "c_MeshAddr ?cfg = []" "c_MeshPeers ?cfg = []" "c_AdmissionFile ?cfg = []" "\<not> c_RequireAdmission ?cfg"
    by (simp_all add: FromEnv_def Let_def env envCSV_def envBool_def nd_ex_huge_def)
  have "Validate (w_net sv_ex_world) nd_ex_huge ?cfg = []"
    by (simp add: Validate_def other cfg nd_ex_huge_def)
  then have boot: "n = Inr \<lparr>nd_cfg = ?cfg, nd_server = bootStores sv_ex_world ?cfg ep x adm_NewStore, nd_cursors = fmempty\<rparr>"
    by (simp add: n_def boot_def Let_def other)
  have "sv_store (bootStores sv_ex_world ?cfg ep x adm_NewStore) = NewStore ep (storeConfig ?cfg)"
    by (simp add: bootStores_def Let_def WithAdmissions_def NewServerWithStores_def NewServer_def)
  then show ?thesis by (simp add: boot cfg NewStore_def storeConfig_def Let_def wrap64_def)
qed

end
