(* ===== verification/Issue.thy ===== *)
theory Issue
  imports Node "HOL-Library.Product_Lexorder"
begin

text \<open>
  \<open>internal/issue/issue.go\<close>: the credential file as the issuing tool reads, edits and replaces it, and
  the tier presets it mints from. A disk is the files of it by path, with the attributes the tool
  carries across. The JSON encoder and the strict decoder are arguments; what the file must survive is
  checked by the code itself.
\<close>

section \<open>Files\<close>

record stored =
  st_bytes :: string
  st_mode :: nat
  st_owner :: nat
  st_regular :: bool

text \<open>
  \<open>dk_denied\<close> holds where \<open>Stat\<close> fails for another reason than that nothing is there, \<open>dk_dirMissing\<close>
  where the directory of a path cannot be looked at.
\<close>

record disk =
  dk_files :: "(string, stored) gomap"
  dk_denied :: "string \<Rightarrow> bool"
  dk_dirMissing :: "string \<Rightarrow> bool"

record json =
  js_render :: "Credential list \<Rightarrow> string option"
  js_decode :: "string \<Rightarrow> Credential list option"

definition contentsAt :: "json \<Rightarrow> disk \<Rightarrow> string \<Rightarrow> Credential list option" where
  "contentsAt js d path = (case fmlookup (dk_files d) path of None \<Rightarrow> None | Some e \<Rightarrow> js_decode js (st_bytes e))"

record File =
  fi_path :: string
  fi_credentials :: "Credential list"
  fi_mode :: nat
  fi_existed :: bool

datatype save_step = CreateTemp | ChmodTemp | ChownTemp | WriteTemp | SyncTemp | CloseTemp | RenameTemp | RemoveTemp

datatype issue_error =
    NoFileGiven
  | StatFailed
  | NoDirectory
  | NotRegular
  | FileRefused file_error
  | NoRandomness
  | ErrAlreadyAdmitted
  | ErrNoSuchCredential
  | NoExtension
  | NotRendered
  | WouldNotLoad file_error
  | ReadBackDiffers
  | WriteFailed save_step
  | NoTiers
  | UnnamedTier
  | TierTwice
  | ErrNoSuchTier
  | NotACode
  | NoCodeOnInput

definition Open :: "json \<Rightarrow> disk \<Rightarrow> string \<Rightarrow> issue_error + File" where
  "Open js d path =
     (if TrimSpace path = [] then Inl NoFileGiven
      else if dk_denied d path then Inl StatFailed
      else case fmlookup (dk_files d) path of
             None \<Rightarrow>
               if dk_dirMissing d path then Inl NoDirectory
               else Inr \<lparr>fi_path = path, fi_credentials = [], fi_mode = 384, fi_existed = False\<rparr>
           | Some e \<Rightarrow>
               if \<not> st_regular e then Inl NotRegular
               else (case ReadFile (contentsAt js d path) of
                       Inl err \<Rightarrow> Inl (FileRefused err)
                     | Inr credentials \<Rightarrow>
                         Inr \<lparr>fi_path = path, fi_credentials = credentials, fi_mode = st_mode e, fi_existed = True\<rparr>))"

text \<open>Soonest expiry first, then by id.\<close>

definition Credentials :: "File \<Rightarrow> Credential list" where
  "Credentials f = sort_key (\<lambda>c. (te_NotAfter (cred_Terms c), cred_ID c)) (fi_credentials f)"

definition file_Count :: "File \<Rightarrow> int" where
  "file_Count f = int (length (fi_credentials f))"

section \<open>Editing\<close>

fun findFrom :: "nat \<Rightarrow> string \<Rightarrow> Credential list \<Rightarrow> nat option" where
  "findFrom i idc [] = None"
| "findFrom i idc (c # cs) = (if cred_ID c = idc then Some i else findFrom (i + 1) idc cs)"

definition file_find :: "string \<Rightarrow> File \<Rightarrow> nat option" where
  "file_find idc f = findFrom 0 idc (fi_credentials f)"

definition Mint :: "crypto \<Rightarrow> string option \<Rightarrow> Terms \<Rightarrow> File \<Rightarrow> issue_error + (string \<times> Credential \<times> File)" where
  "Mint cr rand terms f =
     (case NewCode rand of
        None \<Rightarrow> Inl NoRandomness
      | Some code \<Rightarrow>
          let (_, idc) = KeyFromCode cr code in
          if file_find idc f \<noteq> None then Inl ErrAlreadyAdmitted
          else let credential = \<lparr>cred_ID = idc, cred_Terms = terms\<rparr>
               in Inr (code, credential, f\<lparr>fi_credentials := fi_credentials f @ [credential]\<rparr>))"

text \<open>\<open>Truncate(time.Second)\<close>, counted from the zero time.\<close>

definition truncSecond :: "time \<Rightarrow> time" where
  "truncSecond t = t - t mod Second"

definition Renew :: "string \<Rightarrow> time \<Rightarrow> duration \<Rightarrow> File \<Rightarrow> issue_error + (time \<times> time \<times> File)" where
  "Renew idc now extension f =
     (case file_find idc f of
        None \<Rightarrow> Inl ErrNoSuchCredential
      | Some i \<Rightarrow>
          if extension \<le> 0 then Inl NoExtension
          else
            let credential = fi_credentials f ! i;
                was = te_NotAfter (cred_Terms credential);
                base = (if Before was now then now else was);
                until = truncSecond (base + extension)
            in Inr (was, until, f\<lparr>fi_credentials := (fi_credentials f)[i := credential\<lparr>cred_Terms := (cred_Terms credential)\<lparr>te_NotAfter := until\<rparr>\<rparr>]\<rparr>))"

definition file_Revoke :: "string \<Rightarrow> File \<Rightarrow> issue_error + (Credential \<times> File)" where
  "file_Revoke idc f =
     (case file_find idc f of
        None \<Rightarrow> Inl ErrNoSuchCredential
      | Some i \<Rightarrow>
          Inr (fi_credentials f ! i, f\<lparr>fi_credentials := take i (fi_credentials f) @ drop (i + 1) (fi_credentials f)\<rparr>))"

section \<open>Writing\<close>

definition Marshal :: "json \<Rightarrow> File \<Rightarrow> issue_error + string" where
  "Marshal js f =
     (let ordered = sort_key cred_ID (fi_credentials f) in
      case js_render js ordered of
        None \<Rightarrow> Inl NotRendered
      | Some body \<Rightarrow>
          (case ReadFile (js_decode js body) of
             Inl e \<Rightarrow> Inl (WouldNotLoad e)
           | Inr parsed \<Rightarrow> if length parsed \<noteq> length ordered then Inl ReadBackDiffers else Inr body))"

definition putFile :: "string \<Rightarrow> stored \<Rightarrow> disk \<Rightarrow> disk" where
  "putFile path e d = d\<lparr>dk_files := fmupd path e (dk_files d)\<rparr>"

definition removeFile :: "string \<Rightarrow> disk \<Rightarrow> disk" where
  "removeFile path d = d\<lparr>dk_files := fmdrop path (dk_files d)\<rparr>"

definition renameFile :: "string \<Rightarrow> string \<Rightarrow> disk \<Rightarrow> disk" where
  "renameFile from to d =
     (case fmlookup (dk_files d) from of None \<Rightarrow> d | Some e \<Rightarrow> putFile to e (removeFile from d))"

text \<open>\<open>adoptOwner\<close>: best effort, so a chown that fails is passed over.\<close>

definition adoptOwner :: "(save_step \<Rightarrow> bool) \<Rightarrow> string \<Rightarrow> stored \<Rightarrow> disk \<Rightarrow> stored" where
  "adoptOwner fails replacing temp d =
     (case fmlookup (dk_files d) replacing of
        None \<Rightarrow> temp
      | Some e \<Rightarrow> if fails ChownTemp then temp else temp\<lparr>st_owner := st_owner e\<rparr>)"

text \<open>
  \<open>Save\<close>, with the disk after every system call of it, oldest first: a power cut or a reader sees one
  of these. \<open>me\<close> is the user running the tool, \<open>temp\<close> the name the system chose for the temporary file,
  \<open>fails\<close> the calls that fail and \<open>short\<close> how much of a body was written at some moment of the write.
\<close>

definition Save ::
  "json \<Rightarrow> nat \<Rightarrow> string \<Rightarrow> (save_step \<Rightarrow> bool) \<Rightarrow> nat \<Rightarrow> File \<Rightarrow> disk \<Rightarrow> disk list \<times> (issue_error option \<times> File)" where
  "Save js me temp fails short f d =
     (case Marshal js f of
        Inl e \<Rightarrow> ([d], Some e, f)
      | Inr body \<Rightarrow>
          if fails CreateTemp then ([d], Some (WriteFailed CreateTemp), f)
          else
            let e1 = \<lparr>st_bytes = [], st_mode = 384, st_owner = me, st_regular = True\<rparr>;
                d1 = putFile temp e1 d;
                giveUp = (\<lambda>seen at. (seen @ (if fails RemoveTemp then [] else [removeFile temp (last seen)]), Some (WriteFailed at), f))
            in if fails ChmodTemp then giveUp [d, d1] ChmodTemp
               else
                 let e2 = e1\<lparr>st_mode := fi_mode f\<rparr>;
                     d2 = putFile temp e2 d1;
                     e3 = (if fi_existed f then adoptOwner fails (fi_path f) e2 d2 else e2);
                     d3 = putFile temp e3 d2;
                     d4 = putFile temp (e3\<lparr>st_bytes := take short body\<rparr>) d3
                 in if fails WriteTemp then giveUp [d, d1, d2, d3, d4] WriteTemp
                    else
                      let d5 = putFile temp (e3\<lparr>st_bytes := body\<rparr>) d4; seen = [d, d1, d2, d3, d4, d5]
                      in if fails SyncTemp then giveUp seen SyncTemp
                         else if fails CloseTemp then giveUp seen CloseTemp
                         else if fails RenameTemp then giveUp seen RenameTemp
                         else (seen @ [renameFile temp (fi_path f) d5], None, f\<lparr>fi_existed := True\<rparr>))"

section \<open>Tiers\<close>

record Preset =
  pt_Tier :: string
  pt_QueueSlots :: int
  pt_RetentionWindow :: duration
  pt_AttachmentBytes :: int
  pt_ConcurrentTransfers :: int
  pt_TransitBytesPerDay :: int
  pt_MaxPerPair :: int

definition preset_Terms :: "Preset \<Rightarrow> time \<Rightarrow> Terms" where
  "preset_Terms p notAfter =
     \<lparr>te_Tier = pt_Tier p, te_NotAfter = truncSecond notAfter, te_QueueSlots = pt_QueueSlots p,
      te_RetentionWindow = pt_RetentionWindow p, te_AttachmentBytes = pt_AttachmentBytes p,
      te_ConcurrentTransfers = pt_ConcurrentTransfers p, te_TransitBytesPerDay = pt_TransitBytesPerDay p,
      te_MaxPerPair = pt_MaxPerPair p\<rparr>"

fun checkTiers :: "Preset list \<Rightarrow> string fset \<Rightarrow> issue_error option" where
  "checkTiers [] seen = None"
| "checkTiers (tier # tiers) seen =
     (if TrimSpace (pt_Tier tier) = [] then Some UnnamedTier
      else if pt_Tier tier |\<in>| seen then Some TierTwice
      else checkTiers tiers (finsert (pt_Tier tier) seen))"

text \<open>The file is known by the tiers the strict decoder finds in it.\<close>

definition LoadPresets :: "Preset list option \<Rightarrow> issue_error + Preset list" where
  "LoadPresets contents =
     (case contents of
        None \<Rightarrow> Inl (FileRefused Unreadable)
      | Some tiers \<Rightarrow>
          if tiers = [] then Inl NoTiers
          else (case checkTiers tiers {||} of Some e \<Rightarrow> Inl e | None \<Rightarrow> Inr tiers))"

text \<open>\<open>strings.EqualFold\<close> on ASCII names.\<close>

definition lower_ascii :: "char \<Rightarrow> char" where
  "lower_ascii c = (if CHR ''A'' \<le> c \<and> c \<le> CHR ''Z'' then char_of (of_char c + (32 :: nat)) else c)"

definition EqualFold :: "string \<Rightarrow> string \<Rightarrow> bool" where
  "EqualFold s t \<longleftrightarrow> map lower_ascii s = map lower_ascii t"

fun tier_Lookup :: "string \<Rightarrow> Preset list \<Rightarrow> issue_error + Preset" where
  "tier_Lookup name [] = Inl ErrNoSuchTier"
| "tier_Lookup name (tier # tiers) = (if EqualFold (pt_Tier tier) name then Inr tier else tier_Lookup name tiers)"

definition Names :: "Preset list \<Rightarrow> string list" where
  "Names tiers = map pt_Tier tiers"

section \<open>Codes\<close>

definition CredentialFromCode :: "crypto \<Rightarrow> string \<Rightarrow> issue_error + string" where
  "CredentialFromCode cr code =
     (let normalized = NormalizeCode code in
      if normalized = [] then Inl NotACode else let (_, idc) = KeyFromCode cr normalized in Inr idc)"

text \<open>The first line of the input, where there is one.\<close>

definition ReadCode :: "string option \<Rightarrow> issue_error + string" where
  "ReadCode line = (case line of None \<Rightarrow> Inl NoCodeOnInput | Some text \<Rightarrow> Inr (TrimSpace text))"

end
