(* ===== verification/Admit.thy ===== *)
theory Admit
  imports Issue
begin

text \<open>
  \<open>cmd/dee-admit\<close>: the commands that mint, renew, revoke and list credentials (\<open>main.go\<close>), and the one that
  opens a session against a running relay (\<open>session.go\<close>). Flags are taken as parsed. A command gives
  its result and the disk after every system call, oldest first; what it prints is left out.
\<close>

datatype admit_error =
    Issue issue_error
  | BothSubjects
  | NoSubject
  | NoWindow
  | NoPresetsFile
  | NoRelay
  | NeedsCode
  | RelayUnreachable
  | ChallengesBusy
  | BeforeTheGate
  | ChallengeRefused int
  | NotANonce
  | WindowEnded
  | NotAdmitted
  | SessionsBusy
  | RedeemRefused int
  | NoToken

record flags =
  fl_file :: string
  fl_tiers :: string
  fl_tier :: string
  fl_days :: int
  fl_code :: string
  fl_credential :: string

text \<open>What a run sees of its surroundings; one reading of the clock stands for those it makes.\<close>

record tool =
  to_json :: json
  to_crypto :: crypto
  to_me :: nat
  to_temp :: string
  to_fails :: "save_step \<Rightarrow> bool"
  to_short :: nat
  to_now :: time
  to_rand :: "string option"
  to_stdin :: "string option"
  to_presets :: "string \<Rightarrow> Preset list option"

section \<open>Flags\<close>

definition codeGiven :: "tool \<Rightarrow> string \<Rightarrow> admit_error + string" where
  "codeGiven t code =
     (if code = ''-'' then (case ReadCode (to_stdin t) of Inl e \<Rightarrow> Inl (Issue e) | Inr c \<Rightarrow> Inr c) else Inr code)"

definition subject :: "tool \<Rightarrow> flags \<Rightarrow> admit_error + string" where
  "subject t f =
     (if fl_credential f \<noteq> [] \<and> fl_code f \<noteq> [] then Inl BothSubjects
      else if fl_credential f \<noteq> [] then Inr (fl_credential f)
      else if fl_code f = [] then Inl NoSubject
      else case codeGiven t (fl_code f) of
             Inl e \<Rightarrow> Inl e
           | Inr code \<Rightarrow> (case CredentialFromCode (to_crypto t) code of Inl e \<Rightarrow> Inl (Issue e) | Inr idc \<Rightarrow> Inr idc))"

text \<open>The product of the days and the length of a day, in 64 bits.\<close>

definition window :: "flags \<Rightarrow> admit_error + duration" where
  "window f = (if fl_days f \<le> 0 then Inl NoWindow else Inr (wrap64 (wrap64 (fl_days f * 24) * Hour)))"

section \<open>The commands on the file\<close>

definition mintTerms :: "tool \<Rightarrow> flags \<Rightarrow> duration \<Rightarrow> admit_error + Terms" where
  "mintTerms t f len =
     (if fl_tier f \<noteq> []
      then if fl_tiers f = [] then Inl NoPresetsFile
           else case LoadPresets (to_presets t (fl_tiers f)) of
                  Inl e \<Rightarrow> Inl (Issue e)
                | Inr tiers \<Rightarrow>
                    (case tier_Lookup (fl_tier f) tiers of
                       Inl e \<Rightarrow> Inl (Issue e)
                     | Inr preset \<Rightarrow> Inr (preset_Terms preset (to_now t + len)))
      else Inr (zero_Terms\<lparr>te_NotAfter := truncSecond (to_now t + len)\<rparr>))"

definition saveFile :: "tool \<Rightarrow> File \<Rightarrow> disk \<Rightarrow> 'a \<Rightarrow> (admit_error + 'a) \<times> disk list" where
  "saveFile t file d done' =
     (let (seen, err, _) = Save (to_json t) (to_me t) (to_temp t) (to_fails t) (to_short t) file d
      in (case err of Some e \<Rightarrow> Inl (Issue e) | None \<Rightarrow> Inr done', seen))"

definition mint :: "tool \<Rightarrow> flags \<Rightarrow> disk \<Rightarrow> (admit_error + string \<times> Credential) \<times> disk list" where
  "mint t f d =
     (case window f of
        Inl e \<Rightarrow> (Inl e, [d])
      | Inr len \<Rightarrow>
          (case mintTerms t f len of
             Inl e \<Rightarrow> (Inl e, [d])
           | Inr terms \<Rightarrow>
               (case Open (to_json t) d (fl_file f) of
                  Inl e \<Rightarrow> (Inl (Issue e), [d])
                | Inr file \<Rightarrow>
                    (case Mint (to_crypto t) (to_rand t) terms file of
                       Inl e \<Rightarrow> (Inl (Issue e), [d])
                     | Inr (code, credential, file) \<Rightarrow> saveFile t file d (code, credential)))))"

definition renew :: "tool \<Rightarrow> flags \<Rightarrow> disk \<Rightarrow> (admit_error + time \<times> time) \<times> disk list" where
  "renew t f d =
     (case subject t f of
        Inl e \<Rightarrow> (Inl e, [d])
      | Inr idc \<Rightarrow>
          (case window f of
             Inl e \<Rightarrow> (Inl e, [d])
           | Inr len \<Rightarrow>
               (case Open (to_json t) d (fl_file f) of
                  Inl e \<Rightarrow> (Inl (Issue e), [d])
                | Inr file \<Rightarrow>
                    (case Renew idc (to_now t) len file of
                       Inl e \<Rightarrow> (Inl (Issue e), [d])
                     | Inr (was, until, file) \<Rightarrow> saveFile t file d (was, until)))))"

definition revoke :: "tool \<Rightarrow> flags \<Rightarrow> disk \<Rightarrow> (admit_error + Credential) \<times> disk list" where
  "revoke t f d =
     (case subject t f of
        Inl e \<Rightarrow> (Inl e, [d])
      | Inr idc \<Rightarrow>
          (case Open (to_json t) d (fl_file f) of
             Inl e \<Rightarrow> (Inl (Issue e), [d])
           | Inr file \<Rightarrow>
               (case file_Revoke idc file of
                  Inl e \<Rightarrow> (Inl (Issue e), [d])
                | Inr (revoked, file) \<Rightarrow> saveFile t file d revoked)))"

definition list_command :: "tool \<Rightarrow> flags \<Rightarrow> disk \<Rightarrow> admit_error + Credential list" where
  "list_command t f d = (case Open (to_json t) d (fl_file f) of Inl e \<Rightarrow> Inl (Issue e) | Inr file \<Rightarrow> Inr (Credentials file))"

section \<open>A session\<close>

text \<open>
  The client's side of the exchange. A reply that did not come is \<open>None\<close>; a body that is not what was
  asked for, a proxy's page for example, is any other value.
\<close>

definition signChallenge :: "crypto \<Rightarrow> string \<Rightarrow> string \<Rightarrow> string \<Rightarrow> string" where
  "signChallenge cr key nonce credentialID = b64url_encode (cr_sign cr key (Transcript nonce credentialID))"

definition challenge :: "answer reply option \<Rightarrow> admit_error + string" where
  "challenge a =
     (case a of
        None \<Rightarrow> Inl RelayUnreachable
      | Some r \<Rightarrow>
          if reply_status r = 200
          then (case r of
                  Reply _ (VChallenge nonce _) \<Rightarrow> if nonce = [] then Inl NotANonce else Inr nonce
                | _ \<Rightarrow> Inl NotANonce)
          else if reply_status r = 429 then Inl ChallengesBusy
          else if reply_status r = 404 then Inl BeforeTheGate
          else Inl (ChallengeRefused (reply_status r)))"

fun failureCode :: "answer reply \<Rightarrow> string" where
  "failureCode (ErrorReply status code) = code"
| "failureCode _ = []"

definition redeem :: "answer reply option \<Rightarrow> admit_error + (string \<times> int \<times> (string \<times> term_value) list)" where
  "redeem a =
     (case a of
        None \<Rightarrow> Inl RelayUnreachable
      | Some r \<Rightarrow>
          if reply_status r \<noteq> 200
          then (if failureCode r = ''admission_expired'' then Inl WindowEnded
                else if failureCode r = ''admission_refused'' then Inl NotAdmitted
                else if failureCode r = ''admission_busy'' then Inl SessionsBusy
                else Inl (RedeemRefused (reply_status r)))
          else (case r of
                  Reply _ (VSession token expiresIn terms) \<Rightarrow> if token = [] then Inl NoToken else Inr (token, expiresIn, terms)
                | _ \<Rightarrow> Inl NoToken))"

text \<open>The relay is what it answers to a challenge and, afterwards, to a proof.\<close>

definition session_command ::
  "tool \<Rightarrow> flags \<Rightarrow> string \<Rightarrow> answer reply option \<Rightarrow> (RedeemBody \<Rightarrow> answer reply option) \<Rightarrow> admit_error + string" where
  "session_command t f relay asked posted =
     (if relay = [] then Inl NoRelay
      else if fl_credential f \<noteq> [] \<and> fl_code f = [] then Inl NeedsCode
      else if fl_code f = [] then Inl NoSubject
      else case codeGiven t (fl_code f) of
             Inl e \<Rightarrow> Inl e
           | Inr code \<Rightarrow>
               if NormalizeCode code = [] then Inl (Issue NotACode)
               else
                 let (key, credentialID) = KeyFromCode (to_crypto t) code in
                 (case challenge asked of
                   Inl e \<Rightarrow> Inl e
                 | Inr nonce \<Rightarrow>
                     (case redeem (posted \<lparr>rb_Credential = credentialID, rb_Nonce = nonce,
                                     rb_Signature = signChallenge (to_crypto t) key nonce credentialID\<rparr>) of
                        Inl e \<Rightarrow> Inl e
                      | Inr (token, _, _) \<Rightarrow> Inr token)))"

end
