(* ===== verification/Issue_Props.thy ===== *)
theory Issue_Props
  imports Admit Node_Inv Server_Props
begin

text \<open>
  The properties of issuing: the file is replaced whole or not at all, and a code that was minted
  opens the relay that re-reads it.
\<close>

section \<open>Editing the set\<close>

lemma findFrom_None: "findFrom i idc cs = None \<longleftrightarrow> idc \<notin> cred_ID ` set cs"
  by (induction cs arbitrary: i) auto

lemma findFrom_Some: "findFrom i idc cs = Some k \<Longrightarrow> i \<le> k \<and> k - i < length cs \<and> cred_ID (cs ! (k - i)) = idc"
proof (induction cs arbitrary: i)
  case (Cons c cs)
  show ?case
  proof (cases "cred_ID c = idc")
    case False
    with Cons have "i + 1 \<le> k \<and> k - (i + 1) < length cs \<and> cred_ID (cs ! (k - (i + 1))) = idc" by simp
    then show ?thesis by (auto simp: nth_Cons' Suc_diff_Suc)
  qed (use Cons.prems in auto)
qed simp

lemma Open_checked:
  assumes "Open js d path = Inr f"
  shows "fi_path f = path" "distinct (map cred_ID (fi_credentials f))" "\<forall>c\<in>set (fi_credentials f). credential_ok c"
    "fi_existed f \<Longrightarrow> ReadFile (contentsAt js d path) = Inr (fi_credentials f)"
    "\<not> fi_existed f \<Longrightarrow> fmlookup (dk_files d) path = None \<and> fi_credentials f = []"
proof -
  have read: "distinct (map cred_ID cs) \<and> (\<forall>c\<in>set cs. credential_ok c)" if "ReadFile c = Inr cs" for c cs
    using that Parse_cases by (auto simp: ReadFile_def split: option.splits sum.splits)
  show "fi_path f = path" "distinct (map cred_ID (fi_credentials f))" "\<forall>c\<in>set (fi_credentials f). credential_ok c"
    "fi_existed f \<Longrightarrow> ReadFile (contentsAt js d path) = Inr (fi_credentials f)"
    "\<not> fi_existed f \<Longrightarrow> fmlookup (dk_files d) path = None \<and> fi_credentials f = []"
    using assms read by (auto simp: Open_def split: if_splits option.splits sum.splits)
qed

section \<open>Replacing the file\<close>

text \<open>The file a save puts in place.\<close>

definition replaced :: "json \<Rightarrow> (save_step \<Rightarrow> bool) \<Rightarrow> File \<Rightarrow> disk \<Rightarrow> stored \<Rightarrow> bool" where
  "replaced js fails f d e \<longleftrightarrow>
     Marshal js f = Inr (st_bytes e) \<and> st_mode e = fi_mode f \<and> st_regular e \<and>
     (\<forall>old. fi_existed f \<longrightarrow> \<not> fails ChownTemp \<longrightarrow> fmlookup (dk_files d) (fi_path f) = Some old \<longrightarrow> st_owner e = st_owner old)"

lemma Marshal_loads:
  assumes "Marshal js f = Inr body"
  shows "\<exists>cs. ReadFile (js_decode js body) = Inr cs \<and> length cs = length (fi_credentials f)"
  using assms by (auto simp: Marshal_def Let_def split: option.splits sum.splits if_splits)

lemma disk_ops [simp]:
  "dk_files (putFile p e d) = fmupd p e (dk_files d)" "dk_files (removeFile p d) = fmdrop p (dk_files d)"
  "putFile p e (putFile p e' d) = putFile p e d"
  by (simp_all add: putFile_def removeFile_def)

lemma remove_put [simp]:
  assumes "fmlookup (dk_files d) p = None"
  shows "removeFile p (putFile p e d) = d"
proof -
  have "fmdrop p (dk_files d) = dk_files d" using assms by (intro fmap_ext) simp
  then show ?thesis by (simp add: putFile_def removeFile_def fmdrop_fmupd_same)
qed

text \<open>The disks a save goes through: the one it found, that one with a temporary file, and the one it leaves.\<close>

lemma Save_cases:
  assumes "Save js me temp fails short f d = (seen, err, f')" "temp \<noteq> fi_path f" "fmlookup (dk_files d) temp = None"
  obtains (early) "seen = [d]" "err \<noteq> None" "f' = f"
  | (failed) es where "es \<noteq> []" "seen = d # map (\<lambda>e. putFile temp e d) es @ (if fails RemoveTemp then [] else [d])"
      "err \<noteq> None" "f' = f"
  | (saved) es e where "seen = d # map (\<lambda>e. putFile temp e d) es @ [putFile (fi_path f) e d]" "replaced js fails f d e"
      "err = None" "f' = f\<lparr>fi_existed := True\<rparr>"
proof (cases "Marshal js f")
  case (Inl e)
  with assms(1) show thesis by (intro that(1)) (auto simp: Save_def)
next
  case (Inr body)
  let ?e1 = "\<lparr>st_bytes = [], st_mode = 384, st_owner = me, st_regular = True\<rparr>"
  let ?e2 = "?e1\<lparr>st_mode := fi_mode f\<rparr>"
  define e3 where "e3 = (if fi_existed f then adoptOwner fails (fi_path f) ?e2 d else ?e2)"
  let ?four = "[?e1, ?e2, e3, e3\<lparr>st_bytes := take short body\<rparr>]"
  have rename: "renameFile temp (fi_path f) (putFile temp e d) = putFile (fi_path f) e d" for e
    using assms(3) by (simp add: renameFile_def)
  have adopt: "adoptOwner fails (fi_path f) e2 (putFile temp e d) = adoptOwner fails (fi_path f) e2 d" for e2 e
    using assms(2) by (simp add: adoptOwner_def)
  note run = assms(1) [unfolded Save_def Let_def Inr sum.case adopt disk_ops rename, folded e3_def, unfolded disk_ops]
  note undo = remove_put [OF assms(3)]
  consider (create) "fails CreateTemp" | (chmod) "\<not> fails CreateTemp" "fails ChmodTemp" | (writing) "\<not> fails CreateTemp" "\<not> fails ChmodTemp" "fails WriteTemp"
    | (later) "\<not> fails CreateTemp" "\<not> fails ChmodTemp" "\<not> fails WriteTemp" "fails SyncTemp \<or> fails CloseTemp \<or> fails RenameTemp"
    | (ok) "\<not> (fails CreateTemp \<or> fails ChmodTemp \<or> fails WriteTemp \<or> fails SyncTemp \<or> fails CloseTemp \<or> fails RenameTemp)" by blast
  then show thesis
  proof cases
    case create
    with run show ?thesis by (intro that(1)) auto
  next
    case chmod
    with run show ?thesis by (intro that(2) [of "[?e1]"]) (auto simp: undo)
  next
    case writing
    with run show ?thesis by (intro that(2) [of ?four]) (auto simp: undo)
  next
    case later
    with run show ?thesis by (intro that(2) [of "?four @ [e3\<lparr>st_bytes := body\<rparr>]"]) (auto simp: undo split: if_splits)
  next
    case ok
    have "replaced js fails f d (e3\<lparr>st_bytes := body\<rparr>)"
      using Inr by (auto simp: replaced_def e3_def adoptOwner_def split: option.split)
    with run ok show ?thesis by (intro that(3) [of "?four @ [e3\<lparr>st_bytes := body\<rparr>]"]) auto
  qed
qed

lemma contents_put: "contentsAt js (putFile p e d) q = (if q = p then js_decode js (st_bytes e) else contentsAt js d q)"
  by (simp add: contentsAt_def)

text \<open>
  C6. A save replaces the credential file whole or not at all, whichever system call fails and
  wherever it is cut off. After every call of it, the path reads as it did before or as a file the
  relay loads, with as many credentials as were to be written, and no other file has changed but
  the temporary one; so a relay that re-reads the file at any moment of the save ends up with the
  old set or the new one. A save that reports success has put the rendered file in place with the
  mode of the old one, and with its owner where the system allowed it; one that reports an error
  has changed nothing, unless the temporary file could not be removed.
\<close>

theorem save_atomic:
  assumes "Save js me temp fails short f d = (seen, err, f')" "temp \<noteq> fi_path f" "fmlookup (dk_files d) temp = None"
  shows "(\<forall>d'\<in>set seen.
      (contentsAt js d' (fi_path f) = contentsAt js d (fi_path f) \<or>
       (\<exists>cs. ReadFile (contentsAt js d' (fi_path f)) = Inr cs \<and> length cs = length (fi_credentials f))) \<and>
      (\<forall>p. p \<noteq> fi_path f \<longrightarrow> p \<noteq> temp \<longrightarrow> fmlookup (dk_files d') p = fmlookup (dk_files d) p) \<and>
      (hangup (contentsAt js d' (fi_path f)) n = hangup (contentsAt js d (fi_path f)) n \<or>
       hangup (contentsAt js d' (fi_path f)) n = hangup (contentsAt js (last seen) (fi_path f)) n)) \<and>
    (err = None \<longrightarrow> (\<exists>e. fmlookup (dk_files (last seen)) (fi_path f) = Some e \<and> replaced js fails f d e \<and>
       fmlookup (dk_files (last seen)) temp = None)) \<and>
    (err \<noteq> None \<longrightarrow> fmlookup (dk_files (last seen)) (fi_path f) = fmlookup (dk_files d) (fi_path f) \<and>
       (\<not> fails RemoveTemp \<longrightarrow> last seen = d))"
  using assms
proof (cases rule: Save_cases)
  case early
  then show ?thesis by auto
next
  case (failed es)
  then show ?thesis using assms(2) by (auto simp: contents_put last_map)
next
  case (saved es e)
  then have "\<exists>cs. ReadFile (js_decode js (st_bytes e)) = Inr cs \<and> length cs = length (fi_credentials f)"
    by (intro Marshal_loads) (simp add: replaced_def)
  with saved assms(2,3) show ?thesis by (auto simp: contents_put)
qed

section \<open>From minting to a session\<close>

text \<open>What the JSON library promises of a list it rendered: decoding gives it back, or refuses it.\<close>

definition json_laws :: "json \<Rightarrow> bool" where
  "json_laws js \<longleftrightarrow> (\<forall>cs body. js_render js cs = Some body \<longrightarrow> js_decode js body = None \<or> js_decode js body = Some cs)"

lemma Marshal_reads:
  assumes "Marshal js f = Inr body" "json_laws js"
  obtains cs where "ReadFile (js_decode js body) = Inr cs" "set cs = set (fi_credentials f)"
proof -
  let ?ordered = "sort_key cred_ID (fi_credentials f)"
  from assms(1) obtain cs where r: "js_render js ?ordered = Some body" and cs: "ReadFile (js_decode js body) = Inr cs"
    by (auto simp: Marshal_def Let_def split: option.splits sum.splits if_splits)
  have "js_decode js body \<noteq> None" using cs by (auto simp: ReadFile_def split: option.splits)
  then have "js_decode js body = Some ?ordered" using assms(2) [unfolded json_laws_def, rule_format, OF r] by auto
  with cs have "ParseCredentials ?ordered = Inr cs" by (auto simp: ReadFile_def split: sum.splits)
  from that [OF cs] Parse_cases(1) [OF this] show thesis by simp
qed

lemma mint_cases:
  assumes "mint t f d = (Inr (code, c), seen)"
  obtains len terms fo where "window f = Inr len" "mintTerms t f len = Inr terms" "Open (to_json t) d (fl_file f) = Inr fo"
    "NewCode (to_rand t) = Some code" "c = \<lparr>cred_ID = snd (KeyFromCode (to_crypto t) code), cred_Terms = terms\<rparr>"
    "cred_ID c \<notin> cred_ID ` set (fi_credentials fo)"
    "\<exists>f'. Save (to_json t) (to_me t) (to_temp t) (to_fails t) (to_short t)
       (fo\<lparr>fi_credentials := fi_credentials fo @ [c]\<rparr>) d = (seen, None, f')"
proof -
  from assms obtain len terms fo where 1: "window f = Inr len" "mintTerms t f len = Inr terms" "Open (to_json t) d (fl_file f) = Inr fo"
    and m: "(case Mint (to_crypto t) (to_rand t) terms fo of Inl e \<Rightarrow> (Inl (Issue e), [d])
      | Inr (code, credential, fo) \<Rightarrow> saveFile t fo d (code, credential)) = (Inr (code, c), seen)"
    by (auto simp: mint_def split: sum.splits)
  from m obtain code' c' fn where mi: "Mint (to_crypto t) (to_rand t) terms fo = Inr (code', c', fn)"
    and sv: "saveFile t fn d (code', c') = (Inr (code, c), seen)" by (auto split: sum.splits)
  have eq: "code' = code" "c' = c" using sv by (auto simp: saveFile_def Let_def split: prod.splits option.splits)
  from mi [unfolded eq] have 2: "NewCode (to_rand t) = Some code" "c = \<lparr>cred_ID = snd (KeyFromCode (to_crypto t) code), cred_Terms = terms\<rparr>"
      "cred_ID c \<notin> cred_ID ` set (fi_credentials fo)" "fn = fo\<lparr>fi_credentials := fi_credentials fo @ [c]\<rparr>"
    by (auto simp: Mint_def Let_def file_find_def findFrom_None split: option.splits prod.splits if_splits)
  have 3: "\<exists>f'. Save (to_json t) (to_me t) (to_temp t) (to_fails t) (to_short t) fn d = (seen, None, f')"
    using sv by (auto simp: saveFile_def Let_def split: prod.splits option.splits)
  show thesis using that [OF 1 2(1-3)] 3 2(4) by simp
qed

text \<open>What the relay has after it re-read a file that was saved.\<close>

lemma saved_loaded:
  assumes "Save js me temp fails short fo d = (seen, None, f')" "temp \<noteq> fi_path fo" "fmlookup (dk_files d) temp = None"
    and "json_laws js" "store_ok (sv_admissions (nd_server n))"
    and "n' = hangup (contentsAt js (last seen) (fi_path fo)) n"
  shows "c_RequireAdmission (nd_cfg n) \<Longrightarrow> fi_credentials fo = [] \<Longrightarrow> n' = n"
    "\<not> c_RequireAdmission (nd_cfg n) \<or> fi_credentials fo \<noteq> [] \<Longrightarrow>
       fmlookup (ad_credentials (sv_admissions (nd_server n'))) i = Some k \<longleftrightarrow> k \<in> set (fi_credentials fo) \<and> cred_ID k = i"
    "\<exists>a. nd_server n' = (nd_server n)\<lparr>sv_admissions := a\<rparr>"
proof -
  from assms(1-3) obtain e es where last: "seen = d # map (\<lambda>e. putFile temp e d) es @ [putFile (fi_path fo) e d]"
    and r: "replaced js fails fo d e"
    by (cases rule: Save_cases) auto
  have "Marshal js fo = Inr (st_bytes e)" using r by (simp add: replaced_def)
  from this assms(4) obtain cs where cs: "ReadFile (js_decode js (st_bytes e)) = Inr cs" "set cs = set (fi_credentials fo)"
    by (rule Marshal_reads) simp
  have read: "contentsAt js (last seen) (fi_path fo) = js_decode js (st_bytes e)" by (simp add: last contents_put)
  have empty: "cs = [] \<longleftrightarrow> fi_credentials fo = []" using arg_cong [OF cs(2), of "\<lambda>S. S = {}"] by simp
  show "n' = n" if "c_RequireAdmission (nd_cfg n)" "fi_credentials fo = []"
    using that empty cs(1) by (simp add: assms(6) hangup_def read)
  from cs(1) obtain doc where "ParseCredentials doc = Inr cs" by (auto simp: ReadFile_def split: option.splits sum.splits)
  note parsed = Parse_cases [OF this]
  note held = Replace_store(4) [OF assms(5) parsed(5,4)]
  show "fmlookup (ad_credentials (sv_admissions (nd_server n'))) i = Some k \<longleftrightarrow> k \<in> set (fi_credentials fo) \<and> cred_ID k = i"
    if "\<not> c_RequireAdmission (nd_cfg n) \<or> fi_credentials fo \<noteq> []"
    using that held cs empty by (auto simp: assms(6) hangup_def read)
  show "\<exists>a. nd_server n' = (nd_server n)\<lparr>sv_admissions := a\<rparr>"
    by (auto simp: assms(6) hangup_def split: sum.split intro: exI [of _ "sv_admissions (nd_server n)"])
qed

lemma minted_loaded:
  assumes "mint t f d = (Inr (code, c), seen)" "to_temp t \<noteq> fl_file f" "fmlookup (dk_files d) (to_temp t) = None"
    and "json_laws (to_json t)" "store_ok (sv_admissions (nd_server n))"
    and "n' = hangup (contentsAt (to_json t) (last seen) (fl_file f)) n"
  shows "fmlookup (ad_credentials (sv_admissions (nd_server n'))) (cred_ID c) = Some c"
    "Open (to_json t) d (fl_file f) = Inr fo \<Longrightarrow> k \<in> set (fi_credentials fo) \<Longrightarrow>
       fmlookup (ad_credentials (sv_admissions (nd_server n'))) (cred_ID k) = Some k"
    "\<exists>a. nd_server n' = (nd_server n)\<lparr>sv_admissions := a\<rparr>"
proof -
  from assms(1) obtain len terms old f' where mi: "Open (to_json t) d (fl_file f) = Inr old"
    "Save (to_json t) (to_me t) (to_temp t) (to_fails t) (to_short t) (old\<lparr>fi_credentials := fi_credentials old @ [c]\<rparr>) d = (seen, None, f')"
    by (rule mint_cases) blast
  have path: "fi_path (old\<lparr>fi_credentials := fi_credentials old @ [c]\<rparr>) = fl_file f" using Open_checked(1) [OF mi(1)] by simp
  note loaded = saved_loaded [OF mi(2), unfolded path, OF assms(2-6)]
  show "fmlookup (ad_credentials (sv_admissions (nd_server n'))) (cred_ID c) = Some c" using loaded(2) by simp
  show "fmlookup (ad_credentials (sv_admissions (nd_server n'))) (cred_ID k) = Some k"
    if "Open (to_json t) d (fl_file f) = Inr fo" "k \<in> set (fi_credentials fo)"
    using loaded(2) that mi(1) by simp
  show "\<exists>a. nd_server n' = (nd_server n)\<lparr>sv_admissions := a\<rparr>" by (rule loaded(3))
qed

lemma b64_nonempty: "raw \<noteq> [] \<Longrightarrow> b64url_encode raw \<noteq> []"
  using length_b64url_encode [of raw] by (cases raw) auto

lemma challenge_reply:
  assumes "x_rand x = Some raw" "raw \<noteq> []"
  obtains "fst (handleAdmissionChallenge w x s) = ErrorReply 429 ''admission_busy''"
  | nonce k where "fst (handleAdmissionChallenge w x s) = Reply 200 (VChallenge nonce k)" "nonce \<noteq> []"
proof -
  obtain a ss where ch: "Challenge (w_rng w) (x_now x) (x_rand x) (sv_sessions s) = (a, ss)"
    by (cases "Challenge (w_rng w) (x_now x) (x_rand x) (sv_sessions s)")
  from ch show thesis
  proof (cases rule: Challenge_cases)
    case (issued r)
    with assms ch b64_nonempty [OF assms(2)] show thesis
      by (intro that(2) [of "b64url_encode raw" "w_secs w nonceTTL"]) (auto simp: handleAdmissionChallenge_def Let_def)
  qed (use ch that(1) in \<open>simp_all add: handleAdmissionChallenge_def Let_def\<close>)
qed

lemma redeem_token:
  assumes "handleAdmissionRedeem w x d s = (Reply 200 (VSession token k ts), s')" "x_rand x = Some raw"
  shows "token = b64url_encode raw"
  using assms
  by (auto simp: handleAdmissionRedeem_def OpenSession_def randomToken_def Let_def case_prod_beta
      split: sum.splits if_splits option.splits admission_error.splits)

text \<open>The session command against a relay that admits the credential of the code.\<close>

lemma session_runs:
  assumes laws: "ed25519_laws (w_crypto w)" "to_crypto t = w_crypto w"
    and form: "transcribes (fl_code f) code" "code \<noteq> []" and relay: "relay \<noteq> []"
    and ok: "lists_ok (sv_sessions s0)" and rand: "x_rand x0 = Some raw0" "raw0 \<noteq> []" "x_rand x1 = Some raw1" "raw1 \<noteq> []"
    and soon: "x_now x1 < x_now x0 + nonceTTL"
    and look: "adm_Lookup (snd (KeyFromCode (w_crypto w) code)) (x_now x1) (sv_admissions s0) = Inr g"
    and ask: "handleAdmissionChallenge w x0 s0 = (a0, s1)"
    and run: "res = session_command t f relay (Some a0) (\<lambda>b. Some (fst (handleAdmissionRedeem w x1 (Inr b) s1)))"
  shows "res = Inl ChallengesBusy \<or> res = Inl SessionsBusy \<or>
    (\<exists>token pf s2. res = Inr token \<and> handleAdmissionRedeem w x1 (Inr pf) s1 =
        (Reply 200 (VSession token (w_secs w sessionTTL) (termsJSON (w_secs w) (gr_Terms g))), s2) \<and>
      (fmlookup (ss_sessions (sv_sessions s1)) token = None \<longrightarrow>
        (\<forall>cfg x2 r2 g2. rq_Header r2 admissionHeader = token \<and> x_now x2 < x_now x1 + sessionTTL \<and>
           adm_Lookup (snd (KeyFromCode (w_crypto w) code)) (x_now x2) (sv_admissions s0) = Inr g2 \<longrightarrow>
           admit cfg x2 r2 s2 = (Inr g2, s2))))"
proof -
  have norm: "NormalizeCode (fl_code f) = code" by (rule transcribes_NormalizeCode [OF form(1)])
  have "NormalizeCode [] = []" "NormalizeCode ''-'' = []" by code_simp+
  then have given: "fl_code f \<noteq> []" "fl_code f \<noteq> ''-''" using norm form(2) by auto
  let ?key = "KeyFromCode (w_crypto w) (fl_code f)"
  have res: "res = (case challenge (Some a0) of Inl e \<Rightarrow> Inl e | Inr nonce \<Rightarrow>
      (case redeem (Some (fst (handleAdmissionRedeem w x1 (Inr (proof_of (w_crypto w) (fl_code f) nonce)) s1))) of
         Inl e \<Rightarrow> Inl e | Inr (token, _, _) \<Rightarrow> Inr token))"
    using given norm form(2) relay laws(2)
    by (auto simp: run session_command_def codeGiven_def case_prod_beta proof_of_def signChallenge_def Let_def split: sum.split)
  from rand(1,2) show ?thesis
  proof (cases rule: challenge_reply [of x0 raw0 w s0])
    case 1
    then show ?thesis using ask by (simp add: res challenge_def)
  next
    case (2 nonce k)
    then have a0: "a0 = Reply 200 (VChallenge nonce k)" using ask by simp
    let ?proof = "proof_of (w_crypto w) (fl_code f) nonce"
    obtain a s2 where red: "handleAdmissionRedeem w x1 (Inr ?proof) s1 = (a, s2)" by (cases "handleAdmissionRedeem w x1 (Inr ?proof) s1")
    show ?thesis
    proof (cases "a = ErrorReply 429 ''admission_busy''")
      case True
      then show ?thesis using 2(2) by (simp add: res a0 challenge_def red redeem_def)
    next
      case False
      have ask': "serve w cfg x0 r0 AdmissionChallenge s0 = (Reply 200 (VChallenge nonce k), s1)" for cfg r0 using ask a0 by simp
      obtain token where tok: "a = Reply 200 (VSession token (w_secs w sessionTTL) (termsJSON (w_secs w) (gr_Terms g)))"
        using code_exchange [OF laws(1) form(1) ok ask' 2(2) soon look red False] by blast
      have raw: "token = b64url_encode raw1" by (rule redeem_token [OF red [unfolded tok] rand(3)])
      then have ne: "token \<noteq> []" using b64_nonempty [OF rand(4)] by simp
      have "res = Inr token" using 2(2) ne by (simp add: res a0 challenge_def red redeem_def tok)
      moreover have "admit cfg x2 r2 s2 = (Inr g2, s2)"
        if "fmlookup (ss_sessions (sv_sessions s1)) token = None" "rq_Header r2 admissionHeader = token" "x_now x2 < x_now x1 + sessionTTL"
          "adm_Lookup (snd (KeyFromCode (w_crypto w) code)) (x_now x2) (sv_admissions s0) = Inr g2" for cfg x2 r2 g2
        using code_exchange [OF laws(1) form(1) ok ask' 2(2) soon look red False, of cfg] that ne tok by auto
      ultimately show ?thesis using red tok by blast
    qed
  qed
qed

text \<open>
  C9. A minted code opens the relay. When the mint command reports a code and the relay re-reads the
  file on a hangup signal, then until the end of the window the relay admits the credential of the
  code, as anyone wrote it down, with the terms that were minted, and it still has every credential
  the file had before; and the session command run with the code gets a token, unless one of the
  gate's tables is full, under which requests are charged to the minted terms until the token or
  the window runs out.
\<close>

theorem mint_to_session:
  assumes mint: "mint t f d = (Inr (code, c), seen)" "to_temp t \<noteq> fl_file f" "fmlookup (dk_files d) (to_temp t) = None"
    and rand: "to_rand t = Some raw" "length raw = CodeBytes"
    and laws: "json_laws (to_json t)" "ed25519_laws (w_crypto w)" "to_crypto t = w_crypto w" "to_crypto t' = w_crypto w"
    and node: "store_ok (sv_admissions (nd_server n))" "lists_ok (sv_sessions (nd_server n))"
    and reload: "n' = hangup (contentsAt (to_json t) (last seen) (fl_file f)) n"
    and holder: "transcribes (fl_code f') code" "relay \<noteq> []" "x_rand x0 = Some raw0" "raw0 \<noteq> []" "x_rand x1 = Some raw1" "raw1 \<noteq> []"
    and soon: "x_now x1 < x_now x0 + nonceTTL" "x_now x1 < te_NotAfter (cred_Terms c)"
    and ask: "handleAdmissionChallenge w x0 (nd_server n') = (a0, s1)"
    and res: "res = session_command t' f' relay (Some a0) (\<lambda>b. Some (fst (handleAdmissionRedeem w x1 (Inr b) s1)))"
  shows "(\<forall>now. now < te_NotAfter (cred_Terms c) \<longrightarrow>
      (\<exists>g. adm_Lookup (snd (KeyFromCode (w_crypto w) (fl_code f'))) now (sv_admissions (nd_server n')) = Inr g \<and>
         gr_Terms g = cred_Terms c)) \<and>
    (\<forall>fo k. Open (to_json t) d (fl_file f) = Inr fo \<longrightarrow> k \<in> set (fi_credentials fo) \<longrightarrow>
      fmlookup (ad_credentials (sv_admissions (nd_server n'))) (cred_ID k) = Some k) \<and>
    (res = Inl ChallengesBusy \<or> res = Inl SessionsBusy \<or>
     (\<exists>token pf s2. res = Inr token \<and> (\<exists>k. handleAdmissionRedeem w x1 (Inr pf) s1 = (Reply 200 (VSession token k (termsJSON (w_secs w) (cred_Terms c))), s2)) \<and>
       (fmlookup (ss_sessions (sv_sessions s1)) token = None \<longrightarrow>
         (\<forall>cfg x2 r2. rq_Header r2 admissionHeader = token \<and> x_now x2 < x_now x1 + sessionTTL \<and>
            x_now x2 < te_NotAfter (cred_Terms c) \<longrightarrow> (\<exists>g. admit cfg x2 r2 s2 = (Inr g, s2) \<and> gr_Terms g = cred_Terms c)))))"
proof -
  let ?id = "snd (KeyFromCode (w_crypto w) code)" and ?adm = "sv_admissions (nd_server n')"
  from mint(1) have new: "NewCode (to_rand t) = Some code" and idc: "cred_ID c = ?id"
    by (auto elim!: mint_cases simp: laws(3))
  have code: "code \<noteq> []" using NewCode_value(1) [OF new [unfolded rand(1)] rand(2)] by auto
  note loaded = minted_loaded [OF mint laws(1) node(1) reload]
  have look: "\<exists>g. adm_Lookup ?id now ?adm = Inr g \<and> gr_Terms g = cred_Terms c" if "now < te_NotAfter (cred_Terms c)" for now
    using loaded(1) that by (simp add: adm_Lookup_def idc Let_def)
  have key: "KeyFromCode (w_crypto w) (fl_code f') = KeyFromCode (w_crypto w) code" by (rule transcribes_key [OF holder(1)])
  from look [OF soon(2)] obtain g where g: "adm_Lookup ?id (x_now x1) ?adm = Inr g" "gr_Terms g = cred_Terms c" by blast
  have "lists_ok (sv_sessions (nd_server n'))" using loaded(3) node(2) by auto
  from session_runs [OF laws(2,4) holder(1) code holder(2) this holder(3-6) soon(1) g(1) ask res]
  have "res = Inl ChallengesBusy \<or> res = Inl SessionsBusy \<or>
     (\<exists>token pf s2. res = Inr token \<and> (\<exists>k. handleAdmissionRedeem w x1 (Inr pf) s1 = (Reply 200 (VSession token k (termsJSON (w_secs w) (cred_Terms c))), s2)) \<and>
       (fmlookup (ss_sessions (sv_sessions s1)) token = None \<longrightarrow>
         (\<forall>cfg x2 r2. rq_Header r2 admissionHeader = token \<and> x_now x2 < x_now x1 + sessionTTL \<and>
            x_now x2 < te_NotAfter (cred_Terms c) \<longrightarrow> (\<exists>g. admit cfg x2 r2 s2 = (Inr g, s2) \<and> gr_Terms g = cred_Terms c))))"
  proof (elim disjE exE conjE)
    fix token pf s2
    assume tok: "res = Inr token"
      and red: "handleAdmissionRedeem w x1 (Inr pf) s1 = (Reply 200 (VSession token (w_secs w sessionTTL) (termsJSON (w_secs w) (gr_Terms g))), s2)"
      and later: "fmlookup (ss_sessions (sv_sessions s1)) token = None \<longrightarrow>
        (\<forall>cfg x2 r2 g2. rq_Header r2 admissionHeader = token \<and> x_now x2 < x_now x1 + sessionTTL \<and>
           adm_Lookup ?id (x_now x2) ?adm = Inr g2 \<longrightarrow> admit cfg x2 r2 s2 = (Inr g2, s2))"
    have s2: "\<exists>k. handleAdmissionRedeem w x1 (Inr pf) s1 = (Reply 200 (VSession token k (termsJSON (w_secs w) (cred_Terms c))), s2)"
      using red g(2) by simp
    have adm: "\<exists>g. admit cfg x2 r2 s2 = (Inr g, s2) \<and> gr_Terms g = cred_Terms c"
      if "fmlookup (ss_sessions (sv_sessions s1)) token = None" "rq_Header r2 admissionHeader = token"
        "x_now x2 < x_now x1 + sessionTTL" "x_now x2 < te_NotAfter (cred_Terms c)" for cfg x2 r2
      using look [OF that(4)] later that(1-3) by blast
    show ?thesis using tok s2 adm by blast
  qed simp_all
  with look loaded(2) show ?thesis by (auto simp: key)
qed

section \<open>Where the tool does not do what it says\<close>

text \<open>
  The window is a product in 64 bits. A window of 106,752 days, which the check for a positive
  number of days lets through, is negative, so the code that is handed out has already expired; and
  renewing by 213,504 days adds less than half an hour.
\<close>

theorem window_wraps:
  "window \<lparr>fl_file = p, fl_tiers = [], fl_tier = [], fl_days = 106752, fl_code = [], fl_credential = []\<rparr> = Inr (- 9223371273709551616) \<and>
   window \<lparr>fl_file = p, fl_tiers = [], fl_tier = [], fl_days = 213504, fl_code = [], fl_credential = []\<rparr> = Inr 1526290448384 \<and>
   1526290448384 < Hour div 2"
  by (simp add: window_def wrap64_def Hour_def Minute_def Second_def)

text \<open>
  A presets file is refused when it names a tier twice, but names are compared as written there and
  without regard to case when a tier is looked up: two tiers that differ in case load, and the
  second is never found.
\<close>

theorem tier_alias:
  "let a = \<lparr>pt_Tier = ''Crew'', pt_QueueSlots = 1, pt_RetentionWindow = 0, pt_AttachmentBytes = 0, pt_ConcurrentTransfers = 0,
       pt_TransitBytesPerDay = 0, pt_MaxPerPair = 0\<rparr>; b = a\<lparr>pt_Tier := ''crew'', pt_QueueSlots := 2\<rparr>
   in LoadPresets (Some [a, b]) = Inr [a, b] \<and> tier_Lookup ''crew'' [a, b] = Inr a"
proof -
  have "TrimSpace ''Crew'' = ''Crew''" "TrimSpace ''crew'' = ''crew''" "EqualFold ''Crew'' ''crew''" by code_simp+
  then show ?thesis by (simp add: LoadPresets_def Let_def)
qed

section \<open>Concrete inputs\<close>

definition is_ex_terms :: Terms where
  "is_ex_terms = zero_Terms\<lparr>te_NotAfter := 24 * Hour\<rparr>"

definition is_ex_credential :: Credential where
  "is_ex_credential = \<lparr>cred_ID = sv_ex_id, cred_Terms = is_ex_terms\<rparr>"

definition is_ex_json :: json where
  "is_ex_json = \<lparr>js_render = (\<lambda>cs. if cs = [is_ex_credential] then Some ''x'' else None),
     js_decode = (\<lambda>b. if b = ''x'' then Some [is_ex_credential] else None)\<rparr>"

definition is_ex_disk :: disk where
  "is_ex_disk = \<lparr>dk_files = fmempty, dk_denied = (\<lambda>_. False), dk_dirMissing = (\<lambda>_. False)\<rparr>"

definition is_ex_tool :: tool where
  "is_ex_tool = \<lparr>to_json = is_ex_json, to_crypto = sv_ex_crypto, to_me = 0, to_temp = ''t'', to_fails = (\<lambda>_. False), to_short = 0,
     to_now = 5, to_rand = Some ga_ex_raw, to_stdin = None, to_presets = (\<lambda>_. None)\<rparr>"

definition is_ex_flags :: "string \<Rightarrow> flags" where
  "is_ex_flags code = \<lparr>fl_file = ''f'', fl_tiers = [], fl_tier = [], fl_days = 1, fl_code = code, fl_credential = []\<rparr>"

lemma is_ex_read: "ReadFile (Some [is_ex_credential]) = Inr [is_ex_credential]"
proof -
  have "IsZero (24 * Hour) = False" by code_simp
  then show ?thesis
    by (simp add: ReadFile_def ParseCredentials_def validateCredential_def is_ex_credential_def is_ex_terms_def sv_ex_id_def
        b64url_decode_encode zero_Terms_def del: b64url_encode.simps)
qed

lemma is_ex_marshal: "fi_credentials f = [is_ex_credential] \<Longrightarrow> Marshal is_ex_json f = Inr ''x''"
  by (simp add: Marshal_def is_ex_json_def is_ex_read)

lemma is_ex_laws: "json_laws is_ex_json"
  by (simp add: json_laws_def is_ex_json_def)

lemma is_ex_mint:
  "mint is_ex_tool (is_ex_flags []) is_ex_disk = (Inr (ga_ex_code, is_ex_credential),
     snd (mint is_ex_tool (is_ex_flags []) is_ex_disk))"
proof -
  have code: "NewCode (Some ga_ex_raw) = Some ga_ex_code" by code_simp
  have key: "KeyFromCode sv_ex_crypto ga_ex_code = (replicate 32 CHR ''k'', sv_ex_id)"
    by (simp add: KeyFromCode_def CredentialID_def sv_ex_crypto_def sv_ex_id_def Let_def del: b64url_encode.simps)
  have trunc: "truncSecond (5 + wrap64 (wrap64 24 * Hour)) = 24 * Hour" by code_simp
  have trim: "TrimSpace ''f'' = ''f''" by code_simp
  show ?thesis
    by (simp add: mint_def window_def mintTerms_def is_ex_tool_def is_ex_flags_def trunc Open_def trim is_ex_disk_def Mint_def code key
        file_find_def saveFile_def Save_def is_ex_credential_def [symmetric] is_ex_terms_def [symmetric] is_ex_marshal Let_def)
qed

theorem save_atomic_witness:
  "let f = \<lparr>fi_path = ''f'', fi_credentials = [is_ex_credential], fi_mode = 384, fi_existed = False\<rparr>;
       seen = fst (Save is_ex_json 0 ''t'' (\<lambda>_. False) 0 f is_ex_disk)
   in (\<exists>e. fmlookup (dk_files (last seen)) ''f'' = Some e \<and> replaced is_ex_json (\<lambda>_. False) f is_ex_disk e)"
proof -
  let ?f = "\<lparr>fi_path = ''f'', fi_credentials = [is_ex_credential], fi_mode = 384, fi_existed = False\<rparr>"
  let ?run = "Save is_ex_json 0 ''t'' (\<lambda>_. False) 0 ?f is_ex_disk"
  have "Marshal is_ex_json ?f = Inr ''x''" by (rule is_ex_marshal) simp
  then have ok: "fst (snd ?run) = None" by (simp add: Save_def Let_def)
  have run: "?run = (fst ?run, fst (snd ?run), snd (snd ?run))" by simp
  have apart: "''t'' \<noteq> fi_path ?f" "fmlookup (dk_files is_ex_disk) ''t'' = None" by (simp_all add: is_ex_disk_def)
  from conjunct1 [OF conjunct2 [OF save_atomic [OF run apart]]] ok show ?thesis by (auto simp: Let_def)
qed

theorem mint_to_session_witness:
  "let n = \<lparr>nd_cfg = sv_ex_cfg, nd_server = sv_ex_server, nd_cursors = fmempty\<rparr>;
       n' = hangup (contentsAt is_ex_json (last (snd (mint is_ex_tool (is_ex_flags []) is_ex_disk))) ''f'') n
   in \<exists>g. adm_Lookup (snd (KeyFromCode sv_ex_crypto ga_ex_code)) 7 (sv_admissions (nd_server n')) = Inr g \<and> gr_Terms g = is_ex_terms"
proof -
  let ?n = "\<lparr>nd_cfg = sv_ex_cfg, nd_server = sv_ex_server, nd_cursors = fmempty\<rparr>"
  let ?n' = "hangup (contentsAt (to_json is_ex_tool) (last (snd (mint is_ex_tool (is_ex_flags []) is_ex_disk))) (fl_file (is_ex_flags []))) ?n"
  let ?x0 = "sv_ex_instant 5 (Some ''abc'')" and ?x1 = "sv_ex_instant 6 (Some ''abd'')"
  let ?ask = "handleAdmissionChallenge sv_ex_world ?x0 (nd_server ?n')"
  have tool: "to_rand is_ex_tool = Some ga_ex_raw" "to_crypto is_ex_tool = w_crypto sv_ex_world" "json_laws (to_json is_ex_tool)"
    "to_temp is_ex_tool \<noteq> fl_file (is_ex_flags [])" "fmlookup (dk_files is_ex_disk) (to_temp is_ex_tool) = None"
    by (simp_all add: is_ex_tool_def is_ex_flags_def is_ex_disk_def sv_ex_world_def is_ex_laws)
  have raw: "length ga_ex_raw = CodeBytes" by code_simp
  have laws: "ed25519_laws (w_crypto sv_ex_world)" by (simp add: sv_ex_world_def ed25519_laws_def sv_ex_crypto_def)
  have node: "store_ok (sv_admissions (nd_server ?n))" "lists_ok (sv_sessions (nd_server ?n))"
    by (simp_all add: sv_ex_server_def NewServer_def store_start lists_ok_def Admission_Inv.tokens_ok_def tokensOf_def NewSessions_def)
  have "NewCode (Some ga_ex_raw) = Some ga_ex_code" by code_simp
  from transcribes_self [OF NewCode_value(2) [OF this raw]] have form: "transcribes (fl_code (is_ex_flags ga_ex_code)) ga_ex_code"
    by (simp add: is_ex_flags_def)
  have times: "x_rand ?x0 = Some ''abc''" "x_rand ?x1 = Some ''abd''" "x_now ?x1 < x_now ?x0 + nonceTTL"
    "x_now ?x1 < te_NotAfter (cred_Terms is_ex_credential)" "7 < te_NotAfter (cred_Terms is_ex_credential)"
    by (simp_all add: sv_ex_instant_def nonceTTL_def is_ex_credential_def is_ex_terms_def Hour_def Minute_def Second_def)
  from mint_to_session [OF is_ex_mint tool(4,5,1) raw tool(3) laws tool(2,2) node refl form _ times(1) _ times(2) _ times(3,4)
      prod.collapse [symmetric] refl, of "''r''"] times(5)
  show ?thesis
    by (simp add: is_ex_flags_def is_ex_tool_def sv_ex_world_def is_ex_credential_def del: b64url_encode.simps)
qed

end
