(* ===== verification/Admit_Props.thy ===== *)
theory Admit_Props
  imports Issue_Props
begin

text \<open>
  What renewing and revoking with the tool do to a relay that re-reads the file: the window moves
  without a new code, and a revoked credential is refused at its next request.
\<close>

lemma edit_cases:
  assumes "saveFile t fo d v = (Inr w, seen)"
  obtains f' where "w = v" "Save (to_json t) (to_me t) (to_temp t) (to_fails t) (to_short t) fo d = (seen, None, f')"
  using assms by (auto simp: saveFile_def Let_def split: prod.splits option.splits)

lemma Revoke_cases:
  assumes "file_Revoke idc fo = Inr (c, fn)" "distinct (map cred_ID (fi_credentials fo))"
  shows "c \<in> set (fi_credentials fo)" "cred_ID c = idc" "fi_path fn = fi_path fo"
    "set (fi_credentials fn) = set (fi_credentials fo) - {c}" "cred_ID c \<notin> cred_ID ` set (fi_credentials fn)"
proof -
  let ?cs = "fi_credentials fo"
  from assms(1) obtain i where i: "findFrom 0 idc ?cs = Some i" "c = ?cs ! i" "fn = fo\<lparr>fi_credentials := take i ?cs @ drop (i + 1) ?cs\<rparr>"
    by (auto simp: file_Revoke_def file_find_def split: option.splits)
  note found = findFrom_Some [OF i(1)]
  have cs: "?cs = take i ?cs @ c # drop (i + 1) ?cs" using found i(2) by (simp add: id_take_nth_drop)
  show "c \<in> set ?cs" "cred_ID c = idc" "fi_path fn = fi_path fo" using found i by auto
  have dist: "distinct (map cred_ID (take i ?cs @ c # drop (i + 1) ?cs))" using assms(2) cs by simp
  show gone: "cred_ID c \<notin> cred_ID ` set (fi_credentials fn)" using dist by (auto simp: i(3) image_Un)
  have "set ?cs = set (fi_credentials fn) \<union> {c}" by (subst cs) (simp add: i(3))
  then show "set (fi_credentials fn) = set ?cs - {c}" using gone by auto
qed

lemma revoke_cases:
  assumes "revoke t f d = (Inr c, seen)"
  obtains fo fn f' where "subject t f = Inr (cred_ID c)" "Open (to_json t) d (fl_file f) = Inr fo" "file_Revoke (cred_ID c) fo = Inr (c, fn)"
    "Save (to_json t) (to_me t) (to_temp t) (to_fails t) (to_short t) fn d = (seen, None, f')"
proof -
  from assms obtain idc fo c' fn where 1: "subject t f = Inr idc" "Open (to_json t) d (fl_file f) = Inr fo" "file_Revoke idc fo = Inr (c', fn)"
    and save: "saveFile t fn d c' = (Inr c, seen)"
    by (auto simp: revoke_def split: sum.splits)
  from save obtain f' where 2: "c = c'" "Save (to_json t) (to_me t) (to_temp t) (to_fails t) (to_short t) fn d = (seen, None, f')" by (rule edit_cases)
  have "cred_ID c' = idc" by (rule Revoke_cases(2) [OF 1(3) Open_checked(2) [OF 1(2)]])
  with 1 2 that show thesis by simp
qed

lemma Forget_all:
  assumes "lists_ok s" "fmlookup (ss_sessions (Forget c s)) t = Some e"
  shows "en_credentialID e \<noteq> c"
proof -
  have "set (tokensOf s c) = {t. \<exists>e. fmlookup (ss_sessions s) t = Some e \<and> en_credentialID e = c}"
    using assms(1) by (simp add: lists_ok_def Admission_Inv.tokens_ok_def)
  with assms(2) show ?thesis by (auto simp: Forget_def lookup_fold_drop split: if_splits)
qed

text \<open>
  C13. A revocation takes effect at the next request. When the revoke command reports a credential
  and the relay re-reads the file, the relay no longer knows the credential, has every other one of
  the file with its terms, and answers a request under a session of the revoked credential with a
  refusal, after which none of its sessions is left. The one exception is the one the tool prints:
  on a relay that requires admission, taking out the last credential changes nothing until a
  restart.
\<close>

theorem revoke_takes_effect:
  assumes revoke: "revoke t f d = (Inr c, seen)" "to_temp t \<noteq> fl_file f" "fmlookup (dk_files d) (to_temp t) = None"
    and "json_laws (to_json t)"
    and node: "store_ok (sv_admissions (nd_server n))" "lists_ok (sv_sessions (nd_server n))"
    and reload: "n' = hangup (contentsAt (to_json t) (last seen) (fl_file f)) n"
    and before: "Open (to_json t) d (fl_file f) = Inr fo"
  shows "subject t f = Inr (cred_ID c) \<and> c \<in> set (fi_credentials fo) \<and>
    (if c_RequireAdmission (nd_cfg n) \<and> set (fi_credentials fo) = {c} then n' = n
     else (\<forall>now. adm_Lookup (cred_ID c) now (sv_admissions (nd_server n')) = Inl ErrUnknownCredential) \<and>
       (\<forall>k\<in>set (fi_credentials fo) - {c}. fmlookup (ad_credentials (sv_admissions (nd_server n'))) (cred_ID k) = Some k) \<and>
       (\<forall>cfg x r e. rq_Header r admissionHeader \<noteq> [] \<and> x_now x < en_expiresAt e \<and> en_credentialID e = cred_ID c \<and>
          fmlookup (ss_sessions (sv_sessions (nd_server n'))) (rq_Header r admissionHeader) = Some e \<longrightarrow>
          (\<exists>s. admit cfg x r (nd_server n') = (Inl (ErrorReply 403 ''admission_refused''), s) \<and>
             (\<forall>tok e'. fmlookup (ss_sessions (sv_sessions s)) tok = Some e' \<longrightarrow> en_credentialID e' \<noteq> cred_ID c))))"
proof -
  from revoke(1) before obtain fn f' where r: "subject t f = Inr (cred_ID c)" "file_Revoke (cred_ID c) fo = Inr (c, fn)"
    "Save (to_json t) (to_me t) (to_temp t) (to_fails t) (to_short t) fn d = (seen, None, f')"
    by (elim revoke_cases) simp
  note rv = Revoke_cases [OF r(2) Open_checked(2) [OF before]]
  have path: "fi_path fn = fl_file f" using rv(3) Open_checked(1) [OF before] by simp
  note loaded = saved_loaded [OF r(3), unfolded path, OF revoke(2,3) assms(4) node(1) reload]
  have empty: "fi_credentials fn = [] \<longleftrightarrow> set (fi_credentials fo) = {c}"
    using rv(1,4) by (metis Diff_cancel insert_Diff set_empty)
  show ?thesis
  proof (cases "c_RequireAdmission (nd_cfg n) \<and> set (fi_credentials fo) = {c}")
    case True
    then show ?thesis using r(1) rv(1) loaded(1) empty by simp
  next
    case False
    then have held: "fmlookup (ad_credentials (sv_admissions (nd_server n'))) i = Some k \<longleftrightarrow> k \<in> set (fi_credentials fn) \<and> cred_ID k = i" for i k
      using loaded(2) empty by blast
    have gone: "fmlookup (ad_credentials (sv_admissions (nd_server n'))) (cred_ID c) = None"
      using held [of "cred_ID c"] rv(5) by (metis imageI not_Some_eq)
    then have look: "adm_Lookup (cred_ID c) now (sv_admissions (nd_server n')) = Inl ErrUnknownCredential" for now
      by (simp add: adm_Lookup_def Let_def)
    have sess: "sv_sessions (nd_server n') = sv_sessions (nd_server n)" using loaded(3) by auto
    have "\<exists>s. admit cfg x r (nd_server n') = (Inl (ErrorReply 403 ''admission_refused''), s) \<and>
        (\<forall>tok e'. fmlookup (ss_sessions (sv_sessions s)) tok = Some e' \<longrightarrow> en_credentialID e' \<noteq> cred_ID c)"
      if "rq_Header r admissionHeader \<noteq> []" "x_now x < en_expiresAt e" "en_credentialID e = cred_ID c"
        "fmlookup (ss_sessions (sv_sessions (nd_server n'))) (rq_Header r admissionHeader) = Some e" for cfg x r e
      using that look Forget_all [OF node(2)] by (auto simp: admit_def Resolve_def sess Let_def)
    then show ?thesis using False r(1) rv(1,4) look held by auto
  qed
qed

lemma Renew_cases:
  assumes "Renew idc now len fo = Inr (was, until, fn)"
  obtains i where "findFrom 0 idc (fi_credentials fo) = Some i" "was = te_NotAfter (cred_Terms (fi_credentials fo ! i))"
    "until = truncSecond (max was now + len)"
    "fn = fo\<lparr>fi_credentials := (fi_credentials fo)[i := (fi_credentials fo ! i)\<lparr>cred_Terms := (cred_Terms (fi_credentials fo ! i))\<lparr>te_NotAfter := until\<rparr>\<rparr>]\<rparr>"
proof -
  obtain i where i: "findFrom 0 idc (fi_credentials fo) = Some i" using assms by (auto simp: Renew_def file_find_def split: option.splits)
  let ?c = "fi_credentials fo ! i"
  let ?until = "truncSecond (max (te_NotAfter (cred_Terms ?c)) now + len)"
  have later: "(if Before a b then b else a) = max a b" for a b by (simp add: max_def)
  have "0 < len" using assms i by (auto simp: Renew_def file_find_def split: if_splits)
  then have "Renew idc now len fo = Inr (te_NotAfter (cred_Terms ?c), ?until,
      fo\<lparr>fi_credentials := (fi_credentials fo)[i := ?c\<lparr>cred_Terms := (cred_Terms ?c)\<lparr>te_NotAfter := ?until\<rparr>\<rparr>]\<rparr>)"
    unfolding Renew_def file_find_def i option.case Let_def later by simp
  from this [unfolded assms sum.inject prod.inject] show thesis by (intro that [OF i]) metis+
qed

text \<open>
  A renewal takes effect the same way: after the reload the credential is admitted on its old terms
  until the new end, under the code it always had, and no other credential is touched.
\<close>

theorem renew_takes_effect:
  assumes renew: "renew t f d = (Inr (was, until), seen)" "to_temp t \<noteq> fl_file f" "fmlookup (dk_files d) (to_temp t) = None"
    and "json_laws (to_json t)" "store_ok (sv_admissions (nd_server n))"
    and reload: "n' = hangup (contentsAt (to_json t) (last seen) (fl_file f)) n"
    and before: "Open (to_json t) d (fl_file f) = Inr fo"
  shows "\<exists>c len. c \<in> set (fi_credentials fo) \<and> subject t f = Inr (cred_ID c) \<and> window f = Inr len \<and> te_NotAfter (cred_Terms c) = was \<and>
    until = truncSecond (max was (to_now t) + len) \<and>
    fmlookup (ad_credentials (sv_admissions (nd_server n'))) (cred_ID c) = Some (c\<lparr>cred_Terms := (cred_Terms c)\<lparr>te_NotAfter := until\<rparr>\<rparr>) \<and>
    (\<forall>k\<in>set (fi_credentials fo) - {c}. fmlookup (ad_credentials (sv_admissions (nd_server n'))) (cred_ID k) = Some k)"
proof -
  from renew(1) before obtain idc len fn was' until' where 1: "subject t f = Inr idc" "window f = Inr len"
    "Renew idc (to_now t) len fo = Inr (was', until', fn)" and save: "saveFile t fn d (was', until') = (Inr (was, until), seen)"
    by (auto simp: renew_def split: sum.splits)
  from save obtain f' where 2: "was' = was" "until' = until"
    "Save (to_json t) (to_me t) (to_temp t) (to_fails t) (to_short t) fn d = (seen, None, f')"
    by (elim edit_cases) simp
  let ?cs = "fi_credentials fo"
  from 1(3) [unfolded 2(1,2)] obtain i where i: "findFrom 0 idc ?cs = Some i"
    and ends: "was = te_NotAfter (cred_Terms (?cs ! i))" "until = truncSecond (max was (to_now t) + len)"
    and fn: "fn = fo\<lparr>fi_credentials := ?cs[i := (?cs ! i)\<lparr>cred_Terms := (cred_Terms (?cs ! i))\<lparr>te_NotAfter := until\<rparr>\<rparr>]\<rparr>"
    by (rule Renew_cases)
  let ?c = "?cs ! i"
  note found = findFrom_Some [OF i]
  have path: "fi_path fn = fl_file f" using Open_checked(1) [OF before] by (simp add: fn)
  have ne: "fi_credentials fn \<noteq> []" using found by (auto simp: fn)
  have held: "k \<in> set (fi_credentials fn) \<Longrightarrow> fmlookup (ad_credentials (sv_admissions (nd_server n'))) (cred_ID k) = Some k" for k
    using saved_loaded(2) [OF 2(3), unfolded path, OF renew(2,3) assms(4,5) reload] ne by blast
  have "?c\<lparr>cred_Terms := (cred_Terms ?c)\<lparr>te_NotAfter := until\<rparr>\<rparr> \<in> set (fi_credentials fn)"
    using found by (simp add: fn set_update_memI)
  from held [OF this] have new: "fmlookup (ad_credentials (sv_admissions (nd_server n'))) (cred_ID ?c) =
      Some (?c\<lparr>cred_Terms := (cred_Terms ?c)\<lparr>te_NotAfter := until\<rparr>\<rparr>)" by simp
  have "k \<in> set (fi_credentials fn)" if "k \<in> set ?cs - {?c}" for k
  proof -
    from that obtain j where "j < length ?cs" "k = ?cs ! j" "j \<noteq> i" by (auto simp: in_set_conv_nth)
    then show ?thesis by (auto simp: fn in_set_conv_nth intro!: exI [of _ j])
  qed
  then show ?thesis using found 1(1,2) ends new held by (intro exI [of _ ?c] exI [of _ len]) auto
qed

section \<open>A concrete revocation\<close>

definition ad_ex_json :: json where
  "ad_ex_json = \<lparr>js_render = (\<lambda>cs. if cs = [] then Some ''y'' else if cs = [is_ex_credential] then Some ''x'' else None),
     js_decode = (\<lambda>b. if b = ''x'' then Some [is_ex_credential] else if b = ''y'' then Some [] else None)\<rparr>"

definition ad_ex_disk :: disk where
  "ad_ex_disk = putFile ''f'' \<lparr>st_bytes = ''x'', st_mode = 420, st_owner = 7, st_regular = True\<rparr> is_ex_disk"

definition ad_ex_tool :: tool where
  "ad_ex_tool = is_ex_tool\<lparr>to_json := ad_ex_json\<rparr>"

definition ad_ex_flags :: flags where
  "ad_ex_flags = (is_ex_flags [])\<lparr>fl_credential := sv_ex_id\<rparr>"

definition ad_ex_node :: Node where
  "ad_ex_node = \<lparr>nd_cfg = sv_ex_cfg\<lparr>c_RequireAdmission := False\<rparr>, nd_server = sv_ex_server, nd_cursors = fmempty\<rparr>"

lemma ad_ex_open:
  "Open ad_ex_json ad_ex_disk ''f'' = Inr \<lparr>fi_path = ''f'', fi_credentials = [is_ex_credential], fi_mode = 420, fi_existed = True\<rparr>"
proof -
  have "TrimSpace ''f'' = ''f''" by code_simp
  then show ?thesis by (simp add: Open_def ad_ex_disk_def is_ex_disk_def putFile_def contentsAt_def ad_ex_json_def is_ex_read)
qed

lemma ad_ex_revoke: "revoke ad_ex_tool ad_ex_flags ad_ex_disk = (Inr is_ex_credential, snd (revoke ad_ex_tool ad_ex_flags ad_ex_disk))"
proof -
  have idc: "sv_ex_id \<noteq> []" "cred_ID is_ex_credential = sv_ex_id"
    using b64_nonempty [of "replicate 32 CHR ''k''"] by (simp_all add: sv_ex_id_def is_ex_credential_def del: b64url_encode.simps)
  have "Marshal ad_ex_json \<lparr>fi_path = ''f'', fi_credentials = [], fi_mode = 420, fi_existed = True\<rparr> = Inr ''y''"
    by (simp add: Marshal_def ad_ex_json_def ReadFile_def ParseCredentials_def)
  then show ?thesis using idc ad_ex_open
    by (simp add: revoke_def subject_def ad_ex_tool_def ad_ex_flags_def is_ex_flags_def is_ex_tool_def file_Revoke_def file_find_def
        saveFile_def Save_def Let_def)
qed

theorem revoke_takes_effect_witness:
  "let n' = hangup (contentsAt ad_ex_json (last (snd (revoke ad_ex_tool ad_ex_flags ad_ex_disk))) ''f'') ad_ex_node
   in adm_Lookup sv_ex_id 5 (sv_admissions (nd_server n')) = Inl ErrUnknownCredential"
proof -
  have laws: "json_laws (to_json ad_ex_tool)" by (simp add: json_laws_def ad_ex_tool_def ad_ex_json_def)
  have temp: "to_temp ad_ex_tool \<noteq> fl_file ad_ex_flags" "fmlookup (dk_files ad_ex_disk) (to_temp ad_ex_tool) = None"
    by (simp_all add: ad_ex_tool_def is_ex_tool_def ad_ex_flags_def is_ex_flags_def ad_ex_disk_def is_ex_disk_def)
  have node: "store_ok (sv_admissions (nd_server ad_ex_node))" "lists_ok (sv_sessions (nd_server ad_ex_node))"
    by (simp_all add: ad_ex_node_def sv_ex_server_def NewServer_def store_start lists_ok_def Admission_Inv.tokens_ok_def tokensOf_def NewSessions_def)
  have before: "Open (to_json ad_ex_tool) ad_ex_disk (fl_file ad_ex_flags) =
      Inr \<lparr>fi_path = ''f'', fi_credentials = [is_ex_credential], fi_mode = 420, fi_existed = True\<rparr>"
    using ad_ex_open by (simp add: ad_ex_tool_def ad_ex_flags_def is_ex_flags_def)
  have require: "\<not> c_RequireAdmission (nd_cfg ad_ex_node)" by (simp add: ad_ex_node_def)
  from revoke_takes_effect [OF ad_ex_revoke temp laws node refl before] require show ?thesis
    by (simp add: ad_ex_tool_def ad_ex_flags_def is_ex_flags_def is_ex_credential_def Let_def)
qed

end
