(* ===== verification/Duration_Text.thy ===== *)
theory Duration_Text
  imports Go_Text
begin

text \<open>
  The text form of a window in the credential and presets files (\<open>admission.Duration\<close> in
  \<open>internal/admission/credential.go\<close>): how a duration is written, with \<open>time.Duration.String\<close> under it,
  and how it is read back. The JSON string around the text is taken as decoded.
\<close>

section \<open>Writing\<close>

definition FormatInt :: "int \<Rightarrow> string" where
  "FormatInt n = (if n < 0 then CHR ''-'' # formatNat (nat (- n)) else formatNat (nat n))"

text \<open>
  The loop of \<open>fmtFrac\<close> over the digits of a fraction, from the last one on and in front of what is
  already written, and the part of the value above them.
\<close>

fun fmtFrac :: "nat \<Rightarrow> nat \<Rightarrow> bool \<Rightarrow> string \<Rightarrow> string \<times> nat" where
  "fmtFrac 0 v print buf = (if print then CHR ''.'' # buf else buf, v)"
| "fmtFrac (Suc prec) v print buf =
     (let digit = v mod 10; print = (print \<or> digit \<noteq> 0)
      in fmtFrac prec (v div 10) print (if print then digit_char digit # buf else buf))"

definition fmtSmall :: "nat \<Rightarrow> string" where
  "fmtSmall u =
     (if u = 0 then ''0s''
      else let (prec, unit) =
                 (if u < 1000 then (0, ''ns'') else if u < 1000000 then (3, [CHR 0xC2, CHR 0xB5, CHR ''s'']) else (6, ''ms''));
               (buf, v) = fmtFrac prec u False unit
           in formatNat v @ buf)"

definition fmtLarge :: "nat \<Rightarrow> string" where
  "fmtLarge u =
     (let (buf, seconds) = fmtFrac 9 u False ''s'';
          buf = formatNat (seconds mod 60) @ buf;
          minutes = seconds div 60
      in if minutes = 0 then buf
         else let buf = formatNat (minutes mod 60) @ CHR ''m'' # buf; hours = minutes div 60
              in if hours = 0 then buf else formatNat hours @ CHR ''h'' # buf)"

definition time_Duration_String :: "duration \<Rightarrow> string" where
  "time_Duration_String d =
     (let u = nat \<bar>d\<bar>; text = (if u < 1000000000 then fmtSmall u else fmtLarge u)
      in if d < 0 then CHR ''-'' # text else text)"

definition Duration_String :: "duration \<Rightarrow> string" where
  "Duration_String d =
     (if d = 0 then ''0s''
      else if d mod Hour = 0 then FormatInt (d div Hour) @ ''h''
      else if d mod Minute = 0 then FormatInt (d div Minute) @ ''m''
      else time_Duration_String d)"

section \<open>Reading\<close>

datatype duration_error = NotAString | NotADuration | NegativeDuration

definition Duration_UnmarshalJSON :: "(nat \<Rightarrow> nat \<Rightarrow> nat \<Rightarrow> nat) \<Rightarrow> string option \<Rightarrow> duration_error + duration" where
  "Duration_UnmarshalJSON fl raw =
     (case raw of
        None \<Rightarrow> Inl NotAString
      | Some text \<Rightarrow>
          (case ParseDuration fl text of
             None \<Rightarrow> Inl NotADuration
           | Some parsed \<Rightarrow> if parsed < 0 then Inl NegativeDuration else Inr parsed))"

section \<open>The digits of a fraction\<close>

fun pad :: "nat \<Rightarrow> nat \<Rightarrow> string" where
  "pad 0 v = []"
| "pad (Suc k) v = pad k (v div 10) @ [digit_char (v mod 10)]"

lemma digit_fits: "is_digit c \<Longrightarrow> digit_value c < 10"
  by (simp add: is_digit_def digit_value_def less_eq_char_def) arith

lemma pad_digits: "list_all is_digit (pad k v)" "length (pad k v) = k" "decimal (pad k v) = v mod 10 ^ k"
proof (induction k v rule: pad.induct)
  case (2 k v)
  case 1 show ?case using 2 digit_round [of "v mod 10"] by simp
  case 2 show ?case using \<open>length (pad k (v div 10)) = k\<close> by simp
  case 3 show ?case
    using \<open>decimal (pad k (v div 10)) = v div 10 mod 10 ^ k\<close> digit_round [of "v mod 10"]
    by (simp add: decimal_snoc mod_mult2_eq)
qed (simp_all add: decimal_def)

lemma fmtFrac_print: "fmtFrac i v True buf = (CHR ''.'' # pad i v @ buf, v div 10 ^ i)"
  by (induction i arbitrary: v buf) (simp_all add: div_mult2_eq)

lemma fmtFrac_value: "snd (fmtFrac i v b buf) = v div 10 ^ i"
  by (induction i arbitrary: v b buf) (simp_all add: div_mult2_eq Let_def)

text \<open>What is written is nothing for a whole number, and otherwise a point and the digits up to the last non-zero one.\<close>

lemma fmtFrac_text:
  obtains (whole) "v mod 10 ^ i = 0" "fst (fmtFrac i v False buf) = buf"
  | (fraction) k where "k < i" "v mod 10 ^ i = 10 ^ k * (v div 10 ^ k mod 10 ^ (i - k))" "0 < v mod 10 ^ i"
      "fst (fmtFrac i v False buf) = CHR ''.'' # pad (i - k) (v div 10 ^ k) @ buf"
proof (induction i arbitrary: v thesis)
  case (Suc i)
  have split: "v mod 10 ^ Suc i = 10 * (v div 10 mod 10 ^ i) + v mod 10" by (simp add: mod_mult2_eq)
  show ?case
  proof (cases "v mod 10 = 0")
    case True
    then have rec: "fmtFrac (Suc i) v False buf = fmtFrac i (v div 10) False buf" by simp
    show ?thesis
    proof (rule Suc.IH [of "v div 10"])
      assume "v div 10 mod 10 ^ i = 0" "fst (fmtFrac i (v div 10) False buf) = buf"
      then show ?thesis using Suc.prems(1) True by (simp only: rec split)
    next
      fix k assume "k < i" "v div 10 mod 10 ^ i = 10 ^ k * (v div 10 div 10 ^ k mod 10 ^ (i - k))" "0 < v div 10 mod 10 ^ i"
        "fst (fmtFrac i (v div 10) False buf) = CHR ''.'' # pad (i - k) (v div 10 div 10 ^ k) @ buf"
      then show ?thesis using True by (intro Suc.prems(2) [of "Suc k"]) (simp_all only: rec split, simp_all add: div_mult2_eq)
    qed
  next
    case False
    then have "fst (fmtFrac (Suc i) v False buf) = CHR ''.'' # pad (Suc i - 0) (v div 10 ^ 0) @ buf"
      by (simp add: fmtFrac_print)
    then show ?thesis using False split by (intro Suc.prems(2) [of 0]) simp_all
  qed
qed simp

section \<open>Reading the parts\<close>

text \<open>The characters a number ends at.\<close>

definition stops :: "string \<Rightarrow> bool" where
  "stops s \<longleftrightarrow> s = [] \<or> \<not> is_digit (hd s)"

lemma foldl_decimal: "foldl (\<lambda>n c. n * 10 + digit_value c) x ds = x * 10 ^ length ds + decimal ds"
proof (induction ds rule: rev_induct)
  case (snoc c ds)
  then show ?case by (simp add: decimal_snoc algebra_simps)
qed (simp add: decimal_def)

lemma decimal_Cons: "x * 10 ^ length (c # ds) + decimal (c # ds) = (x * 10 + digit_value c) * 10 ^ length ds + decimal ds"
  using foldl_decimal [of x "c # ds"] foldl_decimal [of "x * 10 + digit_value c" ds] by simp

lemma leadingInt_digits:
  "list_all is_digit ds \<Longrightarrow> stops rest \<Longrightarrow> x * 10 ^ length ds + decimal ds \<le> 2 ^ 63 \<Longrightarrow>
   leadingInt (ds @ rest) x = Some (x * 10 ^ length ds + decimal ds, rest)"
proof (induction ds arbitrary: x)
  case Nil
  then show ?case by (cases rest) (auto simp: stops_def decimal_def)
next
  case (Cons c ds)
  let ?y = "x * 10 + digit_value c"
  have le: "?y * 10 ^ length ds + decimal ds \<le> 2 ^ 63" using Cons.prems(3) by (simp only: decimal_Cons)
  have "?y \<le> ?y * 10 ^ length ds" by simp
  with le have "?y \<le> 2 ^ 63" by linarith
  then have "leadingInt (c # ds @ rest) x = leadingInt (ds @ rest) ?y" using Cons.prems(1) by (simp add: Let_def)
  with Cons.IH [of ?y] Cons.prems(1,2) le show ?case by (simp only: decimal_Cons append_Cons list.pred_inject)
qed

lemma leadingFraction_digits:
  "list_all is_digit ds \<Longrightarrow> stops rest \<Longrightarrow> (x + 1) * 10 ^ length ds \<le> 10 ^ 18 \<Longrightarrow>
   leadingFraction (ds @ rest) x scale False = (x * 10 ^ length ds + decimal ds, scale * 10 ^ length ds, rest)"
proof (induction ds arbitrary: x scale)
  case Nil
  then show ?case by (cases rest) (auto simp: stops_def decimal_def)
next
  case (Cons c ds)
  let ?y = "x * 10 + digit_value c"
  have "digit_value c < 10" using Cons.prems(1) digit_fits by simp
  then have "(?y + 1) * 10 ^ length ds \<le> (x + 1) * 10 * 10 ^ length ds" by (intro mult_right_mono) simp_all
  also have "\<dots> \<le> 10 ^ 18" using Cons.prems(3) by (simp add: algebra_simps)
  finally have le: "(?y + 1) * 10 ^ length ds \<le> 10 ^ 18" .
  have "(?y + 1) * 1 \<le> (?y + 1) * 10 ^ length ds" by (intro mult_left_mono) simp_all
  from le_trans [OF this le] have "?y + 1 \<le> 10 ^ 18" by (simp only: mult_1_right)
  then have "leadingFraction (c # ds @ rest) x scale False = leadingFraction (ds @ rest) ?y (scale * 10) False"
    using Cons.prems(1) by (simp add: Let_def)
  with Cons.IH [of ?y "scale * 10"] Cons.prems(1,2) le show ?case
    by (simp only: decimal_Cons append_Cons list.pred_inject) (simp add: mult.assoc)
qed

text \<open>
  The law of the float product the round trip rests on: where the power of ten divides the unit and
  the product is an integer below \<open>2\<^sup>5\<^sup>3\<close>, nothing is rounded.
\<close>

definition float_exact :: "(nat \<Rightarrow> nat \<Rightarrow> nat \<Rightarrow> nat) \<Rightarrow> bool" where
  "float_exact fl \<longleftrightarrow>
     (\<forall>f unit scale. scale dvd unit \<longrightarrow> f * (unit div scale) < 2 ^ 53 \<longrightarrow> fl f unit scale = f * (unit div scale))"

definition unit_text :: "string \<Rightarrow> bool" where
  "unit_text u \<longleftrightarrow> u \<noteq> [] \<and> list_all (\<lambda>c. c \<noteq> CHR ''.'' \<and> \<not> is_digit c) u"

lemma unit_ends:
  assumes "unit_text u" "rest = [] \<or> is_digit (hd rest)"
  shows "takeWhile (\<lambda>c. c \<noteq> CHR ''.'' \<and> \<not> is_digit c) (u @ rest) = u" "stops (u @ rest)" "hd (u @ rest) \<noteq> CHR ''.''"
  using assms by (auto simp: unit_text_def stops_def list_all_iff takeWhile_append takeWhile_eq_Nil_iff)

lemma formatNat_lead: "\<exists>c cs. formatNat v = c # cs \<and> is_digit c"
  using formatNat_round [of v] by (cases "formatNat v") (auto simp: numeric_def)

lemma formatNat_0: "formatNat 0 = ''0''"
  by code_simp

lemma part_whole:
  assumes "unit_text u" "rest = [] \<or> is_digit (hd rest)" "unitNanos u = Some unit" "v * unit \<le> 2 ^ 63" "0 < unit"
  shows "durationPart fl (formatNat v @ u @ rest) = Some (v * unit, rest)"
proof -
  obtain c cs where lead: "formatNat v = c # cs" "is_digit c" using formatNat_lead by blast
  have le: "v \<le> 2 ^ 63 div unit" using assms(4,5) by (simp add: less_eq_div_iff_mult_less_eq)
  then have "v \<le> 2 ^ 63" by (meson div_le_dividend le_trans)
  with leadingInt_digits [of "formatNat v" "u @ rest" 0] formatNat_round [of v] unit_ends(2) [OF assms(1,2)]
  have li: "leadingInt (formatNat v @ u @ rest) 0 = Some (v, u @ rest)" by (simp add: numeric_def)
  have "u \<noteq> []" using assms(1) by (simp add: unit_text_def)
  with li lead le assms(3) unit_ends [OF assms(1,2)] show ?thesis by (simp add: durationPart_def)
qed

lemma part_fraction:
  assumes "float_exact fl" "unit_text u" "unitNanos u = Some unit" "list_all is_digit ds" "10 ^ length ds dvd unit"
    and "0 < decimal ds" "decimal ds * (unit div 10 ^ length ds) < 2 ^ 53" "length ds \<le> 18" "0 < unit"
    and "v * unit + decimal ds * (unit div 10 ^ length ds) \<le> 2 ^ 63"
  shows "durationPart fl (formatNat v @ CHR ''.'' # ds @ u) = Some (v * unit + decimal ds * (unit div 10 ^ length ds), [])"
proof -
  obtain c cs where lead: "formatNat v = c # cs" "is_digit c" using formatNat_lead by blast
  have le: "v \<le> 2 ^ 63 div unit" using assms(9,10) by (simp add: less_eq_div_iff_mult_less_eq)
  then have "v \<le> 2 ^ 63" by (meson div_le_dividend le_trans)
  with leadingInt_digits [of "formatNat v" "CHR ''.'' # ds @ u" 0] formatNat_round [of v]
  have li: "leadingInt (formatNat v @ CHR ''.'' # ds @ u) 0 = Some (v, CHR ''.'' # ds @ u)"
    by (simp add: numeric_def stops_def is_digit_def less_eq_char_def)
  note ends = unit_ends [OF assms(2), of "[]", unfolded append_Nil2, OF disjI1 [OF refl]]
  have "(10 :: nat) ^ length ds \<le> 10 ^ 18" using assms(8) by (intro power_increasing) simp_all
  with leadingFraction_digits [OF assms(4) ends(2), of 0 1]
  have lf: "leadingFraction (ds @ u) 0 1 False = (decimal ds, 10 ^ length ds, u)" by simp
  have ne: "u \<noteq> []" using assms(2) by (simp add: unit_text_def)
  have "fl (decimal ds) unit (10 ^ length ds) = decimal ds * (unit div 10 ^ length ds)"
    using assms(1,5,7) by (simp add: float_exact_def)
  moreover have "ds \<noteq> []" using assms(6) by (auto simp: decimal_def)
  ultimately show ?thesis using li lf lead le ne assms(3,6,10) by (simp add: durationPart_def ends(1) Let_def)
qed

text \<open>The last number of a text, as \<open>fmtFrac\<close> leaves it.\<close>

lemma part_frac:
  assumes "float_exact fl" "unit_text u" "unitNanos u = Some (10 ^ p)" "p \<le> 9" "w * 10 ^ p + n mod 10 ^ p \<le> 2 ^ 63"
  shows "durationPart fl (formatNat w @ fst (fmtFrac p n False u)) = Some (w * 10 ^ p + n mod 10 ^ p, [])"
proof (cases rule: fmtFrac_text [of n p u])
  case whole
  with part_whole [OF assms(2) _ assms(3), of "[]" w fl] assms(5) show ?thesis by simp
next
  case (fraction k)
  let ?ds = "pad (p - k) (n div 10 ^ k)"
  have "(10 :: nat) ^ p = 10 ^ k * 10 ^ (p - k)" using fraction(1) by (simp add: power_add [symmetric])
  then have unit: "10 ^ p div 10 ^ length ?ds = (10 :: nat) ^ k" "10 ^ length ?ds dvd (10 :: nat) ^ p" by (simp_all add: pad_digits)
  have sum: "decimal ?ds * (10 ^ p div 10 ^ length ?ds) = n mod 10 ^ p" unfolding unit(1) by (simp add: pad_digits fraction(2))
  have "n mod 10 ^ p < 10 ^ p" by simp
  also have "(10 :: nat) ^ p \<le> 10 ^ 9" using assms(4) by (intro power_increasing) simp_all
  finally have small: "n mod 10 ^ p < 2 ^ 53" by simp
  have "0 < decimal ?ds" using sum fraction(3) by (metis mult_zero_left not_gr_zero)
  moreover have "length ?ds \<le> 18" using assms(4) by (simp add: pad_digits)
  ultimately show ?thesis
    using part_fraction [OF assms(1,2,3) pad_digits(1) unit(2)] sum small assms(5) fraction(4) by simp
qed

lemma parts_step:
  assumes "s \<noteq> []" "durationPart fl s = Some (v, rest)" "d + v \<le> 2 ^ 63"
  shows "durationParts (length s) fl s d = durationParts (length rest) fl rest (d + v)"
proof -
  obtain c t where s: "s = c # t" using assms(1) by (cases s) auto
  with durationPart_shorter [of fl c t v rest] assms(2) have "length rest \<le> length t" by simp
  then have "durationParts (length t) fl rest (d + v) = durationParts (length rest) fl rest (d + v)" by (intro durationParts_fuel) simp_all
  with assms(2,3) s show ?thesis by (simp add: Let_def)
qed

section \<open>The round trip\<close>

lemma unit_texts [simp]: "unit_text ''h''" "unit_text ''m''" "unit_text ''s''" "unit_text ''ns''" "unit_text ''ms''"
  "unit_text [CHR 0xC2, CHR 0xB5, CHR ''s'']"
  by code_simp+

lemma unit_nanos [simp]: "unitNanos ''h'' = Some 3600000000000" "unitNanos ''m'' = Some 60000000000" "unitNanos ''s'' = Some (10 ^ 9)"
  "unitNanos ''ns'' = Some (10 ^ 0)" "unitNanos ''ms'' = Some (10 ^ 6)" "unitNanos [CHR 0xC2, CHR 0xB5, CHR ''s''] = Some (10 ^ 3)"
  by (simp_all add: unitNanos_def)

text \<open>A text of a duration: it starts with a digit, is not the bare zero, and its parts add up to \<open>n\<close>.\<close>

definition reads_as :: "(nat \<Rightarrow> nat \<Rightarrow> nat \<Rightarrow> nat) \<Rightarrow> string \<Rightarrow> nat \<Rightarrow> bool" where
  "reads_as fl s n \<longleftrightarrow> (\<exists>v t. s = formatNat v @ t \<and> t \<noteq> []) \<and> n \<le> 2 ^ 63 \<and> (\<forall>d. d + n \<le> 2 ^ 63 \<longrightarrow> durationParts (length s) fl s d = Some (d + n))"

lemma reads_lead:
  assumes "reads_as fl s n"
  obtains c t where "s = c # t" "is_digit c" "t \<noteq> []"
  using assms formatNat_lead unfolding reads_as_def by (metis append_Cons append_is_Nil_conv)

lemma reads_last:
  assumes "durationPart fl (formatNat v @ t) = Some (n, [])" "t \<noteq> []" "n \<le> 2 ^ 63"
  shows "reads_as fl (formatNat v @ t) n"
  using assms parts_step [OF _ assms(1)] by (auto simp: reads_as_def)

lemma reads_more:
  assumes "reads_as fl s n" "unit_text u" "unitNanos u = Some unit" "0 < unit" "v * unit + n \<le> 2 ^ 63"
  shows "reads_as fl (formatNat v @ u @ s) (v * unit + n)"
proof -
  obtain c t where s: "s = c # t" "is_digit c" using reads_lead [OF assms(1)] by metis
  have part: "durationPart fl (formatNat v @ u @ s) = Some (v * unit, s)"
    using s assms(2-5) by (intro part_whole) simp_all
  have "durationParts (length (formatNat v @ u @ s)) fl (formatNat v @ u @ s) d = Some (d + (v * unit + n))"
    if "d + (v * unit + n) \<le> 2 ^ 63" for d
    using parts_step [OF _ part, of d] assms(1) s that by (simp add: reads_as_def add.assoc)
  moreover have "u @ s \<noteq> []" using s by simp
  ultimately show ?thesis using assms(5) unfolding reads_as_def by blast
qed

lemma reads_unit:
  assumes "unit_text u" "unitNanos u = Some unit" "0 < unit" "v * unit \<le> 2 ^ 63"
  shows "reads_as fl (formatNat v @ u) (v * unit)"
  using part_whole [OF assms(1) _ assms(2), of "[]" v fl] assms by (intro reads_last) (auto simp: unit_text_def)

lemma reads_frac:
  assumes "float_exact fl" "unit_text u" "unitNanos u = Some (10 ^ p)" "p \<le> 9" "w * 10 ^ p + n mod 10 ^ p \<le> 2 ^ 63"
  shows "reads_as fl (formatNat w @ fst (fmtFrac p n False u)) (w * 10 ^ p + n mod 10 ^ p)"
proof (rule reads_last [OF part_frac [OF assms] _ assms(5)])
  show "fst (fmtFrac p n False u) \<noteq> []"
    using assms(2) by (cases rule: fmtFrac_text [of n p u]) (auto simp: unit_text_def)
qed

lemma reads_small:
  assumes "float_exact fl" "u < 1000000000"
  shows "reads_as fl (fmtSmall u) u"
proof (cases "u = 0")
  case True
  with reads_unit [of "''s''" "10 ^ 9" 0 fl] show ?thesis by (simp add: fmtSmall_def formatNat_0)
next
  case False
  have whole: "reads_as fl (formatNat (u div 10 ^ p) @ fst (fmtFrac p u False unit)) u"
    if "unit_text unit" "unitNanos unit = Some (10 ^ p)" "p \<le> 9" for p unit
    using reads_frac [OF assms(1) that, of "u div 10 ^ p" u] assms(2) unfolding div_mult_mod_eq by simp
  from False whole [of "''ns''" 0] whole [of "[CHR 0xC2, CHR 0xB5, CHR ''s'']" 3] whole [of "''ms''" 6]
  show ?thesis by (simp add: fmtSmall_def case_prod_beta fmtFrac_value Let_def del: fmtFrac.simps power_0 split: if_splits)
qed

lemma clock_split:
  fixes u :: nat
  shows "u = s * 10 ^ 9 + r \<Longrightarrow> s = m * 60 + a \<Longrightarrow> m = h * 60 + b \<Longrightarrow>
    u = h * 3600000000000 + (b * 60000000000 + (a * 10 ^ 9 + r))"
  by simp

lemma reads_large:
  assumes "float_exact fl" "u \<le> 2 ^ 63"
  shows "reads_as fl (fmtLarge u) u"
proof -
  let ?s = "u div 10 ^ 9" and ?frac = "fst (fmtFrac 9 u False ''s'')"
  have u: "u = ?s * 10 ^ 9 + u mod 10 ^ 9" by (simp only: div_mult_mod_eq)
  have "?s mod 60 * 10 ^ 9 \<le> ?s * 10 ^ 9" by (intro mult_right_mono) simp_all
  with u assms(2) have "?s mod 60 * 10 ^ 9 + u mod 10 ^ 9 \<le> 2 ^ 63" by linarith
  from reads_frac [OF assms(1) _ _ _ this] have sec: "reads_as fl (formatNat (?s mod 60) @ ?frac) (?s mod 60 * 10 ^ 9 + u mod 10 ^ 9)"
    by simp
  let ?m = "?s div 60" and ?text = "formatNat (?s mod 60) @ ?frac"
  have min: "reads_as fl (formatNat (w mod 60) @ ''m'' @ ?text) (w mod 60 * 60000000000 + (?s mod 60 * 10 ^ 9 + u mod 10 ^ 9))"
    if "w mod 60 * 60000000000 + (?s mod 60 * 10 ^ 9 + u mod 10 ^ 9) \<le> 2 ^ 63" for w
    using that by (intro reads_more [OF sec]) simp_all
  have split: "u = ?m div 60 * 3600000000000 + (?m mod 60 * 60000000000 + (?s mod 60 * 10 ^ 9 + u mod 10 ^ 9))"
    by (rule clock_split; simp only: div_mult_mod_eq)
  with assms(2) have le: "?m mod 60 * 60000000000 + (?s mod 60 * 10 ^ 9 + u mod 10 ^ 9) \<le> 2 ^ 63" by linarith
  have hour: "reads_as fl (formatNat (?m div 60) @ ''h'' @ formatNat (?m mod 60) @ ''m'' @ ?text) u"
    using reads_more [OF min [OF le], of "''h''" 3600000000000 "?m div 60"] split assms(2) by simp
  show ?thesis
  proof (cases "?m = 0")
    case True
    then have "?s mod 60 * 10 ^ 9 + u mod 10 ^ 9 = u" using split by simp
    with sec True show ?thesis by (simp add: fmtLarge_def case_prod_beta fmtFrac_value Let_def del: fmtFrac.simps)
  next
    case False
    show ?thesis
    proof (cases "?m div 60 = 0")
      case True
      then have "?m mod 60 * 60000000000 + (?s mod 60 * 10 ^ 9 + u mod 10 ^ 9) = u" using split by (simp only: mult_0 add_0)
      from min [OF le, unfolded this] True False show ?thesis by (simp add: fmtLarge_def case_prod_beta fmtFrac_value Let_def del: fmtFrac.simps)
    next
      case nonzero: False
      with hour False show ?thesis by (simp add: fmtLarge_def case_prod_beta fmtFrac_value Let_def del: fmtFrac.simps)
    qed
  qed
qed

lemma parse_reads:
  assumes "reads_as fl s n"
  shows "n < 2 ^ 63 \<Longrightarrow> ParseDuration fl s = Some (int n)" "ParseDuration fl (CHR ''-'' # s) = Some (- int n)"
proof -
  obtain c t where s: "s = c # t" "is_digit c" "t \<noteq> []" using reads_lead [OF assms] by metis
  have sign: "c \<noteq> CHR ''-''" "c \<noteq> CHR ''+''" using s(2) by (auto simp: is_digit_def less_eq_char_def)
  have sum: "durationParts (length s) fl s 0 = Some n" "n \<le> 2 ^ 63" using assms unfolding reads_as_def by (metis add_0)+
  show "n < 2 ^ 63 \<Longrightarrow> ParseDuration fl s = Some (int n)" using s sign sum by (auto simp: ParseDuration_def Let_def simp del: durationParts.simps)
  show "ParseDuration fl (CHR ''-'' # s) = Some (- int n)" using s sum by (auto simp: ParseDuration_def Let_def simp del: durationParts.simps)
qed

lemma parse_signed:
  assumes "reads_as fl s (nat \<bar>d\<bar>)" "d < 2 ^ 63"
  shows "ParseDuration fl (if d < 0 then CHR ''-'' # s else s) = Some d"
  using parse_reads [OF assms(1)] assms(2) by (auto simp: nat_less_iff)

lemma parse_multiple:
  assumes "unit_text u" "unitNanos u = Some unit" "0 < unit" "int unit dvd d" "- (2 ^ 63) \<le> d" "d < 2 ^ 63"
  shows "ParseDuration fl (FormatInt (d div int unit) @ u) = Some d"
proof -
  obtain k where d: "d = int unit * k" using assms(4) by auto
  have neg: "d < 0 \<longleftrightarrow> k < 0" using assms(3) by (simp add: d mult_less_0_iff)
  have abs: "nat \<bar>k\<bar> * unit = nat \<bar>d\<bar>" using assms(3) by (simp add: d abs_mult nat_mult_distrib)
  moreover have "nat \<bar>d\<bar> \<le> 2 ^ 63" using assms(5,6) by (simp add: nat_le_iff)
  ultimately have "reads_as fl (formatNat (nat \<bar>k\<bar>) @ u) (nat \<bar>d\<bar>)" using reads_unit [OF assms(1-3), of "nat \<bar>k\<bar>"] by simp
  from parse_signed [OF this assms(6)] show ?thesis using assms(3) neg by (auto simp: FormatInt_def d split: if_splits)
qed

text \<open>
  C15. Every window survives being written to a file and read back: both the short form the tool
  writes and the form of the standard library parse to the same duration, to the nanosecond, over
  the whole range of 64 bits; and a negative one, however it is written, is refused.
\<close>

theorem duration_roundtrip:
  assumes "float_exact fl" "- (2 ^ 63) \<le> d" "d < 2 ^ 63"
  shows "ParseDuration fl (time_Duration_String d) = Some d \<and>
    Duration_UnmarshalJSON fl (Some (Duration_String d)) = (if d < 0 then Inl NegativeDuration else Inr d)"
proof -
  have n: "nat \<bar>d\<bar> \<le> 2 ^ 63" using assms(2,3) by (simp add: nat_le_iff)
  have long: "ParseDuration fl (time_Duration_String d) = Some d"
    using parse_signed [OF _ assms(3), of fl] reads_small [OF assms(1), of "nat \<bar>d\<bar>"] reads_large [OF assms(1) n]
    unfolding time_Duration_String_def Let_def by (simp split: if_splits)
  have "ParseDuration fl (Duration_String d) = Some d"
    using long parse_multiple [of "''h''" 3600000000000 d fl] parse_multiple [of "''m''" 60000000000 d fl]
      parse_multiple [of "''s''" "10 ^ 9" 0 fl] assms(2,3)
    by (auto simp: Duration_String_def Hour_def Minute_def Second_def FormatInt_def formatNat_0)
  with long show ?thesis by (simp add: Duration_UnmarshalJSON_def)
qed

theorem duration_roundtrip_witness:
  "ParseDuration (\<lambda>f unit scale. f * unit div scale) (time_Duration_String 172800000000000) = Some 172800000000000 \<and>
   Duration_UnmarshalJSON (\<lambda>f unit scale. f * unit div scale) (Some (Duration_String 172800000000000)) = Inr 172800000000000 \<and>
   Duration_String 172800000000000 = ''48h''"
proof -
  have "float_exact (\<lambda>f unit scale. f * unit div scale)" by (simp add: float_exact_def div_mult_swap)
  from duration_roundtrip [OF this, of 172800000000000]
  have "ParseDuration (\<lambda>f unit scale. f * unit div scale) (time_Duration_String 172800000000000) = Some 172800000000000 \<and>
    Duration_UnmarshalJSON (\<lambda>f unit scale. f * unit div scale) (Some (Duration_String 172800000000000)) = Inr 172800000000000" by simp
  moreover have "formatNat 48 = ''48''" by code_simp
  then have "Duration_String 172800000000000 = ''48h''"
    by (simp add: Duration_String_def FormatInt_def Hour_def Minute_def Second_def)
  ultimately show ?thesis by simp
qed

end
