(* ===== verification/Redact.thy ===== *)
theory Redact
  imports Go_Text
begin

text \<open>
  \<open>cmd/dee-relay/errorlog.go\<close>: the lines the HTTP server logs about its own failures, with the address of
  the caller taken out. The regular expression is run as the library does it: alternatives and
  repetitions give their matches in order of preference, and the first one counts.
\<close>

section \<open>Matching\<close>

text \<open>A position in a text is the character before it and what follows it.\<close>

type_synonym position = "char option \<times> string"

datatype regex =
    One "char \<Rightarrow> bool"
  | Plus "char \<Rightarrow> bool"
  | UpTo nat "char \<Rightarrow> bool"
  | Optional regex
  | Boundary
  | Seq regex regex
  | Alt regex regex

definition in_span :: "string \<Rightarrow> char \<Rightarrow> bool" where
  "in_span span c \<longleftrightarrow> hd span \<le> c \<and> c \<le> last span"

definition is_letter :: "char \<Rightarrow> bool" where
  "is_letter c \<longleftrightarrow> in_span ''az'' c \<or> in_span ''AZ'' c"

definition is_word :: "char \<Rightarrow> bool" where
  "is_word c \<longleftrightarrow> is_digit c \<or> is_letter c \<or> c = CHR ''_''"

fun atBoundary :: "position \<Rightarrow> bool" where
  "atBoundary (before, s) \<longleftrightarrow>
     (case before of None \<Rightarrow> False | Some c \<Rightarrow> is_word c) \<noteq> (case s of [] \<Rightarrow> False | c # _ \<Rightarrow> is_word c)"

text \<open>All positions after at most \<open>n\<close> characters of a class, the furthest first.\<close>

fun greedy :: "nat \<Rightarrow> (char \<Rightarrow> bool) \<Rightarrow> position \<Rightarrow> position list" where
  "greedy (Suc n) P (before, c # s) = (if P c then greedy n P (Some c, s) @ [(before, c # s)] else [(before, c # s)])"
| "greedy n P x = [x]"

fun oneOf :: "(char \<Rightarrow> bool) \<Rightarrow> position \<Rightarrow> position list" where
  "oneOf P (before, []) = []"
| "oneOf P (before, c # s) = (if P c then [(Some c, s)] else [])"

fun matchesAt :: "regex \<Rightarrow> position \<Rightarrow> position list" where
  "matchesAt (One P) x = oneOf P x"
| "matchesAt (Plus P) x = concat (map (greedy (length (snd x)) P) (oneOf P x))"
| "matchesAt (UpTo n P) x = concat (map (greedy (n - 1) P) (oneOf P x))"
| "matchesAt (Optional r) x = matchesAt r x @ [x]"
| "matchesAt Boundary x = (if atBoundary x then [x] else [])"
| "matchesAt (Seq r t) x = concat (map (matchesAt t) (matchesAt r x))"
| "matchesAt (Alt r t) x = matchesAt r x @ matchesAt t x"

text \<open>\<open>ReplaceAllString\<close> for an expression that matches no empty text: the leftmost match first.\<close>

function replaceAll :: "regex \<Rightarrow> string \<Rightarrow> position \<Rightarrow> string" where
  "replaceAll r new (before, []) = []"
| "replaceAll r new (before, c # s) =
     (case matchesAt r (before, c # s) of
        [] \<Rightarrow> c # replaceAll r new (Some c, s)
      | (before, rest) # _ \<Rightarrow>
          if length rest < length (c # s) then new @ replaceAll r new (before, rest) else c # replaceAll r new (Some c, s))"
  by pat_completeness auto
termination
  by (relation "measure (\<lambda>(r, new, x). length (snd x))") auto

section \<open>The expression\<close>

definition is_hex_colon :: "char \<Rightarrow> bool" where
  "is_hex_colon c \<longleftrightarrow> is_digit c \<or> in_span ''af'' c \<or> in_span ''AF'' c \<or> c \<in> set '':.''"

definition is_zone :: "char \<Rightarrow> bool" where
  "is_zone c \<longleftrightarrow> is_digit c \<or> is_letter c \<or> c \<in> set ''._-''"

definition lit :: "char \<Rightarrow> regex" where
  "lit c = One ((=) c)"

definition octet_dot :: regex where
  "octet_dot = Seq (UpTo 3 is_digit) (lit CHR ''.'')"

definition bracketed :: regex where
  "bracketed = Seq (lit CHR ''['') (Seq (Plus is_hex_colon) (Seq (Optional (Seq (lit CHR ''%'') (Plus is_zone)))
     (Seq (lit CHR '']'') (Seq (lit CHR '':'') (UpTo 5 is_digit)))))"

definition dotted :: regex where
  "dotted = Seq Boundary (Seq octet_dot (Seq octet_dot (Seq octet_dot (Seq (UpTo 3 is_digit)
     (Seq (Optional (Seq (lit CHR '':'') (UpTo 5 is_digit))) Boundary)))))"

definition remoteAddress :: regex where
  "remoteAddress = Alt bracketed dotted"

text \<open>\<open>redactingWriter.Write\<close>: the length it reports and the detail it logs.\<close>

definition redactingWriter_Write :: "string \<Rightarrow> int \<times> string" where
  "redactingWriter_Write line =
     (let message = trimRightByte (CHR 0x0A) line in (int (length line), replaceAll remoteAddress ''redacted'' (None, message)))"

section \<open>First matches\<close>

definition firstly :: "regex \<Rightarrow> position \<Rightarrow> position \<Rightarrow> bool" where
  "firstly r x y \<longleftrightarrow> (\<exists>ys. matchesAt r x = y # ys)"

definition ends_class :: "(char \<Rightarrow> bool) \<Rightarrow> string \<Rightarrow> bool" where
  "ends_class P s \<longleftrightarrow> s = [] \<or> \<not> P (hd s)"

definition after :: "char option \<Rightarrow> string \<Rightarrow> char option" where
  "after before s = (if s = [] then before else Some (last s))"

lemma firstly_Seq: "firstly r x y \<Longrightarrow> firstly t y z \<Longrightarrow> firstly (Seq r t) x z"
  by (auto simp: firstly_def)

lemma firstly_lit: "firstly (lit c) (before, c # s) (Some c, s)"
  by (simp add: firstly_def lit_def)

lemma firstly_Optional: "firstly r x y \<Longrightarrow> firstly (Optional r) x y"
  by (auto simp: firstly_def)

lemma firstly_skip: "matchesAt r x = [] \<Longrightarrow> firstly (Optional r) x x"
  by (simp add: firstly_def)

lemma firstly_Boundary: "atBoundary x \<Longrightarrow> firstly Boundary x x"
  by (cases x) (auto simp: firstly_def)

lemma greedy_class:
  "list_all P ds \<Longrightarrow> length ds \<le> n \<Longrightarrow> ends_class P s \<or> length ds = n \<Longrightarrow> \<exists>ys. greedy n P (before, ds @ s) = (after before ds, s) # ys"
proof (induction ds arbitrary: n before)
  case Nil
  then show ?case by (cases n; cases s) (auto simp: ends_class_def after_def)
next
  case (Cons c ds)
  then obtain m where m: "n = Suc m" by (cases n) auto
  obtain ys where "greedy m P (Some c, ds @ s) = (after (Some c) ds, s) # ys" using Cons.IH [of m "Some c"] Cons.prems m by auto
  then show ?case using Cons.prems(1) by (simp add: m after_def)
qed

lemma firstly_class:
  assumes "list_all P ds" "ds \<noteq> []" "ends_class P s"
  shows "firstly (Plus P) (before, ds @ s) (Some (last ds), s)" "length ds \<le> n \<Longrightarrow> firstly (UpTo n P) (before, ds @ s) (Some (last ds), s)"
proof -
  obtain c cs where ds: "ds = c # cs" using assms(2) by (cases ds) auto
  have last: "after (Some c) cs = Some (last ds)" by (simp add: ds after_def)
  show "firstly (Plus P) (before, ds @ s) (Some (last ds), s)"
    using greedy_class [of P cs "length (ds @ s)" s "Some c"] assms(1,3) last by (auto simp: firstly_def ds)
  show "firstly (UpTo n P) (before, ds @ s) (Some (last ds), s)" if "length ds \<le> n"
    using greedy_class [of P cs "n - 1" s "Some c"] assms(1,3) last that by (auto simp: firstly_def ds)
qed

section \<open>Addresses\<close>

text \<open>
  The address of a caller as the HTTP server names it: four octets and a port, or an IPv6 address in
  brackets, with its zone where it has one, and a port.
\<close>

definition ipv4Address :: "nat \<Rightarrow> nat \<Rightarrow> nat \<Rightarrow> nat \<Rightarrow> nat \<Rightarrow> string" where
  "ipv4Address a b c d port =
     formatNat a @ CHR ''.'' # formatNat b @ CHR ''.'' # formatNat c @ CHR ''.'' # formatNat d @ CHR '':'' # formatNat port"

definition ipv6Address :: "string \<Rightarrow> string \<Rightarrow> nat \<Rightarrow> string" where
  "ipv6Address host zone port =
     CHR ''['' # host @ (if zone = [] then [] else CHR ''%'' # zone) @ CHR '']'' # CHR '':'' # formatNat port"

definition callerAddress :: "string \<Rightarrow> bool" where
  "callerAddress s \<longleftrightarrow>
     (\<exists>a b c d port. list_all (\<lambda>n. n < 256) [a, b, c, d] \<and> port < 65536 \<and> s = ipv4Address a b c d port) \<or>
     (\<exists>host zone port. host \<noteq> [] \<and> list_all is_hex_colon host \<and> list_all is_zone zone \<and> port < 65536 \<and> s = ipv6Address host zone port)"

lemma formatNat_length: "n < 10 ^ k \<Longrightarrow> 0 < k \<Longrightarrow> length (formatNat n) \<le> k"
proof (induction n arbitrary: k rule: formatNat.induct)
  case (1 n)
  show ?case
  proof (cases "n < 10")
    case False
    with 1(2) obtain j where j: "k = Suc j" "0 < j" by (cases k; cases "k - 1") auto
    with 1(1) [OF False, of j] 1(2) False show ?thesis by (simp add: formatNat.simps [of n] less_mult_imp_div_less mult.commute)
  qed (use 1(3) in \<open>simp add: formatNat.simps [of n]\<close>)
qed

lemma number: "list_all is_digit (formatNat n)" "formatNat n \<noteq> []" "is_digit (last (formatNat n))" "is_digit (hd (formatNat n))"
  using formatNat_round [of n] by (auto simp: numeric_def list_all_iff)

lemma firstly_number:
  assumes "n < 10 ^ k" "0 < k" "ends_class is_digit s"
  shows "firstly (UpTo k is_digit) (before, formatNat n @ s) (Some (last (formatNat n)), s)"
  by (rule firstly_class(2) [OF number(1,2) assms(3) formatNat_length [OF assms(1,2)]])

lemma punctuation [simp]: "\<not> is_digit CHR ''.''" "\<not> is_digit CHR '':''" "\<not> is_digit CHR ''[''" "\<not> is_hex_colon CHR ''%''"
  "\<not> is_hex_colon CHR '']''" "\<not> is_zone CHR '']''"
  by code_simp+

lemma ends_class_Cons [simp]: "ends_class P (c # s) \<longleftrightarrow> \<not> P c"
  by (simp add: ends_class_def)

lemma word_digit: "is_digit c \<Longrightarrow> is_word c" "ends_class is_word s \<Longrightarrow> ends_class is_digit s"
  by (auto simp: is_word_def ends_class_def)

lemma firstly_octet: "n < 256 \<Longrightarrow> firstly octet_dot (before, formatNat n @ CHR ''.'' # s) (Some CHR ''.'', s)"
  unfolding octet_dot_def by (rule firstly_Seq [OF firstly_number firstly_lit]) simp_all

lemma port_end: "ends_class is_word post \<Longrightarrow> atBoundary (Some (last (formatNat port)), post)"
  using word_digit(1) [OF number(3)] by (cases post) auto

lemma firstly_dotted:
  assumes "a < 256" "b < 256" "c < 256" "d < 256" "port < 65536" "ends_class is_word post" "\<forall>x. before = Some x \<longrightarrow> \<not> is_word x"
  shows "firstly dotted (before, ipv4Address a b c d port @ post) (Some (last (formatNat port)), post)"
proof -
  have "firstly (UpTo 5 is_digit) (Some CHR '':'', formatNat port @ post) (Some (last (formatNat port)), post)"
    using assms(5) word_digit(2) [OF assms(6)] by (intro firstly_number) simp_all
  then have "firstly (Optional (Seq (lit CHR '':'') (UpTo 5 is_digit))) (Some (last (formatNat d)), CHR '':'' # formatNat port @ post)
      (Some (last (formatNat port)), post)"
    by (intro firstly_Optional firstly_Seq [OF firstly_lit])
  moreover have "firstly (UpTo 3 is_digit) (Some CHR ''.'', formatNat d @ CHR '':'' # formatNat port @ post)
      (Some (last (formatNat d)), CHR '':'' # formatNat port @ post)"
    using assms(4) by (intro firstly_number) simp_all
  moreover obtain e es where lead: "formatNat a = e # es" "is_word e" using number(2,4) [of a] word_digit(1) by (cases "formatNat a") auto
  have "atBoundary (before, ipv4Address a b c d port @ post)" using lead assms(7) by (cases before) (auto simp: ipv4Address_def)
  ultimately show ?thesis
    using assms(1-3) unfolding dotted_def ipv4Address_def
    by (auto intro!: firstly_Seq [OF firstly_Boundary] firstly_Seq [OF firstly_octet] firstly_Boundary port_end [OF assms(6)]
        intro: firstly_Seq)
qed

lemma firstly_bracketed:
  assumes "host \<noteq> []" "list_all is_hex_colon host" "list_all is_zone zone" "port < 65536" "ends_class is_digit post"
  shows "firstly bracketed (before, ipv6Address host zone port @ post) (Some (last (formatNat port)), post)"
proof -
  let ?tail = "CHR '']'' # CHR '':'' # formatNat port @ post"
  let ?zone = "if zone = [] then [] else CHR ''%'' # zone"
  have "firstly (UpTo 5 is_digit) (Some CHR '':'', formatNat port @ post) (Some (last (formatNat port)), post)"
    using assms(4,5) by (intro firstly_number) simp_all
  then have port: "firstly (Seq (lit CHR '']'') (Seq (lit CHR '':'') (UpTo 5 is_digit))) (x, ?tail) (Some (last (formatNat port)), post)" for x
    by (intro firstly_Seq [OF firstly_lit])
  have zone: "\<exists>y. firstly (Optional (Seq (lit CHR ''%'') (Plus is_zone))) (x, ?zone @ ?tail) (y, ?tail)" for x
  proof (cases "zone = []")
    case True
    then show ?thesis by (auto intro!: exI firstly_skip simp: lit_def)
  next
    case False
    then show ?thesis using firstly_class(1) [OF assms(3) False, of ?tail]
      by (auto intro!: exI firstly_Optional firstly_Seq [OF firstly_lit])
  qed
  obtain y where y: "firstly (Optional (Seq (lit CHR ''%'') (Plus is_zone))) (Some (last host), ?zone @ ?tail) (y, ?tail)" using zone by blast
  have host: "firstly (Plus is_hex_colon) (Some CHR ''['', host @ ?zone @ ?tail) (Some (last host), ?zone @ ?tail)"
    using assms(1,2) by (intro firstly_class(1)) (simp_all split: if_splits)
  from firstly_Seq [OF firstly_lit firstly_Seq [OF host firstly_Seq [OF y port]]] show ?thesis
    by (simp add: bracketed_def ipv6Address_def)
qed

lemma firstly_remote:
  assumes "callerAddress addr" "ends_class is_word post" "\<forall>x. before = Some x \<longrightarrow> \<not> is_word x"
  shows "firstly remoteAddress (before, addr @ post) (Some (last addr), post)"
  using assms(1) unfolding callerAddress_def
proof (elim disjE exE conjE)
  fix a b c d port assume v4: "list_all (\<lambda>n. n < 256) [a, b, c, d]" "port < 65536" "addr = ipv4Address a b c d port"
  obtain e es where lead: "formatNat a = e # es" "is_digit e" using number(2,4) [of a] by (cases "formatNat a") auto
  then have "matchesAt bracketed (before, addr @ post) = []" by (auto simp: v4(3) bracketed_def lit_def ipv4Address_def)
  moreover have "last addr = last (formatNat port)" using number(2) [of port] by (simp add: v4(3) ipv4Address_def)
  ultimately show ?thesis using firstly_dotted [of a b c d port post before] v4 assms(2,3)
    by (simp add: firstly_def remoteAddress_def)
next
  fix host zone port assume v6: "host \<noteq> []" "list_all is_hex_colon host" "list_all is_zone zone" "port < 65536" "addr = ipv6Address host zone port"
  have "last addr = last (formatNat port)" using number(2) [of port] by (simp add: v6(5) ipv6Address_def)
  then show ?thesis using firstly_bracketed [OF v6(1-4) word_digit(2) [OF assms(2)], of before] v6(5)
    by (auto simp: firstly_def remoteAddress_def)
qed

text \<open>No match begins at a character that is neither a digit nor an opening bracket.\<close>

definition quiet :: "char \<Rightarrow> bool" where
  "quiet c \<longleftrightarrow> c \<noteq> CHR ''['' \<and> \<not> is_digit c"

lemma quiet_skip: "list_all quiet pre \<Longrightarrow> replaceAll remoteAddress new (before, pre @ s) = pre @ replaceAll remoteAddress new (after before pre, s)"
proof (induction pre arbitrary: before)
  case (Cons c pre)
  then have "matchesAt remoteAddress (before, (c # pre) @ s) = []"
    by (auto simp: remoteAddress_def bracketed_def dotted_def octet_dot_def lit_def quiet_def)
  with Cons show ?case by (simp add: after_def)
qed (simp add: after_def)

lemma trimRight_keeps: "s \<noteq> [] \<Longrightarrow> last s \<noteq> c \<Longrightarrow> trimRightByte c (s @ t) = s @ trimRightByte c t"
  by (cases s rule: rev_cases) (auto simp: trimRightByte_def dropWhile_append)

text \<open>
  C40. The address of a caller does not reach the log: in a line that names one after text without
  digits or brackets, as the HTTP server's messages do, everything of the address, the port
  included, is replaced by the word redacted, whatever the line goes on with after the word ends.
  The text before it is kept, and the text after it up to the addresses in it.
\<close>

theorem address_redacted:
  assumes "callerAddress addr" "list_all quiet pre" "pre = [] \<or> \<not> is_word (last pre)" "post = [] \<or> \<not> is_word (hd post)"
  shows "redactingWriter_Write (pre @ addr @ post) =
    (int (length (pre @ addr @ post)),
     pre @ ''redacted'' @ replaceAll remoteAddress ''redacted'' (Some (last addr), trimRightByte (CHR 0x0A) post))"
proof -
  let ?post = "trimRightByte (CHR 0x0A) post"
  have addr: "addr \<noteq> []" "is_digit (last addr)"
    using assms(1) number by (auto simp: callerAddress_def ipv4Address_def ipv6Address_def)
  then have "last addr \<noteq> CHR 0x0A" by (auto simp: is_digit_def less_eq_char_def)
  then have trim: "trimRightByte (CHR 0x0A) (pre @ addr @ post) = pre @ addr @ ?post"
    using trimRight_keeps [of "pre @ addr" "CHR 0x0A" post] addr(1) by simp
  obtain w where w: "post = ?post @ w" using takeWhile_dropWhile_id [of "\<lambda>x. x = CHR 0x0A" "rev post"]
    unfolding trimRightByte_def by (metis rev_append rev_rev_ident)
  have "ends_class is_word ?post" using assms(4) w by (cases ?post) (auto simp: ends_class_def)
  moreover have "\<forall>x. after None pre = Some x \<longrightarrow> \<not> is_word x" using assms(3) by (auto simp: after_def)
  ultimately have first: "firstly remoteAddress (after None pre, addr @ ?post) (Some (last addr), ?post)"
    by (intro firstly_remote [OF assms(1)])
  have "replaceAll remoteAddress ''redacted'' (after None pre, addr @ ?post) =
      ''redacted'' @ replaceAll remoteAddress ''redacted'' (Some (last addr), ?post)"
    using first addr(1) by (cases addr) (auto simp: firstly_def)
  then show ?thesis by (simp add: redactingWriter_Write_def trim quiet_skip [OF assms(2)] Let_def)
qed

theorem address_redacted_witness:
  "redactingWriter_Write (''http: panic serving '' @ ipv4Address 203 0 113 4 53422 @ '': x'') =
    (int (length (''http: panic serving '' @ ipv4Address 203 0 113 4 53422 @ '': x'')), ''http: panic serving redacted: x'')"
proof -
  have addr: "callerAddress (ipv4Address 203 0 113 4 53422)"
    unfolding callerAddress_def by (intro disjI1 exI [of _ 203] exI [of _ 0] exI [of _ 113] exI [of _ 4] exI [of _ 53422]) simp
  have pre: "list_all quiet ''http: panic serving ''" "\<not> is_word (last ''http: panic serving '')" "\<not> is_word (hd '': x'')" by code_simp+
  have quiet: "list_all quiet '': x''" "trimRightByte (CHR 0x0A) '': x'' = '': x''" by code_simp+
  from address_redacted [OF addr pre(1) disjI2 [OF pre(2)] disjI2 [OF pre(3)]] quiet(2) quiet_skip [OF quiet(1), of "''redacted''" _ "[]"]
  show ?thesis by simp
qed

end
