(* ===== verification/Spec2Isabelle.thy ===== *)
theory Spec2Isabelle
  imports Queue_Props Queue_Write_Props Prekey_Props Presence_Props Attachment_Props Admission_Props
    Server_More_Props Mesh_Props Node_Props Admit_Props Duration_Text Redact
begin

text \<open>
  A verification of the dee relay: a store-and-forward message relay that keeps everything in
  memory, replicates between peers, and admits circles by redemption codes.

  \<^bold>\<open>The program.\<close> A request reaches one of two listeners (\<open>internal/httpapi\<close>). The body is cut at
  a limit, the gate decides whether the caller's circle is admitted (\<open>internal/admission\<close>), and the
  handler calls into one of the stores: the message queue (\<open>internal/queue\<close>), the one-time prekeys
  (\<open>internal/prekey\<close>), the presence leases (\<open>internal/presence\<close>) and the attachment relay
  (\<open>internal/attachment\<close>). A syncer (\<open>internal/mesh\<close>) pulls pages of the queue and the presence table
  from a roster of peers (\<open>internal/peer\<close>). The process (\<open>cmd/dee-relay\<close>) reads its configuration
  (\<open>internal/config\<close>), refuses to start on a bad one, and runs a cleanup loop, a mesh loop and a
  handler for the hangup signal, which re-reads the credential file. The file is written by a tool
  (\<open>cmd/dee-admit\<close> over \<open>internal/issue\<close>).

  \<^bold>\<open>Common ground.\<close>
  \<^item> \<open>Prelude\<close>: time as nanoseconds since Go's zero time, with the saturation of \<open>Sub\<close>; \<open>int\<close> as an
    integer with \<open>wrap64\<close> where it can overflow; \<open>uint32\<close> and \<open>uint64\<close> as words; strings as bytes.
  \<^item> \<open>Go_Maps\<close>: maps as finite maps, and the interfaces \<open>range_order\<close> (the order the runtime picks for
    a loop over a map, an argument \<open>rng\<close> of every definition that ranges), \<open>sweepable\<close> (deleting while
    ranging), \<open>counter\<close> and \<open>key_index\<close>. Every counter and index of the stores is an instance.
  \<^item> \<open>Machine\<close>: a component as a step function over its requests; \<open>observed_machine\<close>, \<open>machine\<close> and
    \<open>clocked_machine\<close> carry an invariant from the steps to whole histories.
  \<^item> \<open>Base64\<close>, \<open>Go_Text\<close>, \<open>Go_Net\<close>, \<open>Http\<close>, \<open>Model_Types\<close>: the library functions the sources call, and
    the records of \<open>internal/model\<close>.

  \<^bold>\<open>The message queue\<close> (\<open>internal/queue\<close>). \<open>Capability\<close> has tags and read authorization, \<open>Queue_Store\<close> the
  state and the helpers under the lock, \<open>Queue_Ops\<close> the exported operations and the machine they
  form. \<open>Queue_Frame\<close> gives each operation as an equation over four insertion and deletion points;
  \<open>Queue_Inv\<close> shows that what those points keep, every history keeps. On this rest the bookkeeping
  (\<open>Queue_Wf\<close>), authorization (\<open>Queue_Auth\<close>), expiry and the ack lane (\<open>Queue_Expiry\<close>), the
  equivalence of the purge by index with a scan (\<open>Queue_Purge\<close>), reads (\<open>Queue_Reads\<close>) and the
  replication cursor (\<open>Queue_Sync\<close>, up to \<open>2\<^sup>6\<^sup>4\<close> insertions). \<open>Queue_Facts\<close> and \<open>Queue_Examples\<close> are shared
  by \<open>Queue_Props\<close> and \<open>Queue_Write_Props\<close>, which hold the properties.

  \<^bold>\<open>Prekeys\<close> (\<open>Prekey\<close>, \<open>Prekey_Inv\<close>, \<open>Prekey_Ledger\<close>, \<open>Prekey_Props\<close>): caps, the ledger by which a key is
  issued at most as often as it was admitted, the outcome of every claim and publish, and the token
  bucket. Tokens are doubles in the code; here they are rationals and \<open>fl\<close> is the rounding, of which
  the properties use that it is monotone, idempotent and exact on integers up to \<open>2\<^sup>5\<^sup>3\<close>.

  \<^bold>\<open>Presence\<close> (\<open>Presence\<close>, \<open>Presence_Inv\<close>, \<open>Presence_Props\<close>): the caller counts, which lease gives way in a
  full table, that a revocation holds, and the round trip of a snapshot through a peer.

  \<^bold>\<open>Attachments\<close> (\<open>Attachment\<close>, \<open>Attachment_Inv\<close>, \<open>Attachment_Ledger\<close>, \<open>Attachment_Transit\<close>,
  \<open>Attachment_Props\<close>): each chunk is delivered once and in order, memory is bounded by the caps, and the
  24 hourly slots refine a log of charges.

  \<^bold>\<open>Admission\<close> (\<open>Admission\<close>, \<open>Admission_Code\<close>, \<open>Admission_Inv\<close>, \<open>Admission_Props\<close>, \<open>Duration_Text\<close>): codes and
  what they derive, nonces, sessions, the credential store, and the text form of a window.

  \<^bold>\<open>Configuration and the mesh\<close> (\<open>Config\<close>, \<open>Peer\<close>, \<open>Mesh\<close>, \<open>Mesh_Inv\<close>, \<open>Mesh_Props\<close>): every setting and
  every check, the roster and the advertised address, and the pull. Twenty pages of 500 records
  are the bounds of the code; one request may go to a stale cursor, so that 9,500 records are drained
  for certain. \<open>Mesh_Props\<close> puts a puller and a serving relay together.

  \<^bold>\<open>The HTTP layer\<close> (\<open>Gate\<close>, \<open>Server\<close>, \<open>Server_Inv\<close>, \<open>Server_Props\<close>, \<open>Server_More_Props\<close>): every handler whole,
  with its guards in the order of the code, as a function from the state of the server to a reply and
  the next state. The long poll is a loop that might not end; that it does is a property.

  \<^bold>\<open>The process\<close> (\<open>Node\<close>, \<open>Node_Reach\<close>, \<open>Node_Inv\<close>, \<open>Node_Props\<close>, \<open>Redact\<close>): starting, the loops, and the
  machine they form with the listeners. \<open>Node_Reach\<close> shows that the process refines its components:
  whatever it does, each store goes only through requests of its own machine, so that what was proved
  of the histories of a store holds of the store inside the process. \<open>Redact\<close> is the log line.

  \<^bold>\<open>Issuing\<close> (\<open>Issue\<close>, \<open>Admit\<close>, \<open>Issue_Props\<close>, \<open>Admit_Props\<close>): the credential file with the disk after
  every system call, the tiers, the commands of the tool and the session it opens. The properties
  run from the tool through the file and the reload to the gate of the relay.

  \<^bold>\<open>Arguments and what is asked of them.\<close> SHA-256 and Ed25519 (\<open>crypto\<close>; a signature made with a key
  verifies under its public half), the rounding of doubles, the fractions of a duration
  (\<open>float_exact\<close>), parsing of URLs, hosts and addresses (\<open>netlib\<close>), random bytes, the clock, the
  interfaces of the host, what a peer answers, and the JSON decoder: a document is known by what
  decoding it yields, and the credential file by \<open>json_laws\<close>. Each property with such a premise has a
  witness at concrete functions.

  \<^bold>\<open>Fuel.\<close> The duration parser runs on the length of its text, which more fuel does not change
  (\<open>durationParts_fuel\<close>); the pull on the page bound of the code. No other definition has fuel.

  \<^bold>\<open>Granularity.\<close> Every exported operation of a store holds one mutex and is one step. A handler reads the
  clock once and its calls into the stores run one after the other; a mesh tick is one step of the
  process. Histories are arbitrary sequences of such steps; interleavings inside a handler that takes
  several locks in turn are covered where a property is about the store alone.

  \<^bold>\<open>Not modelled.\<close> The HTTP transport, timeouts of connections, TLS, logging and the orderly shutdown:
  calls into libraries without state of the relay's own. JSON syntax and field tags. The parsing
  of command lines and what the tool prints, sentences of error messages, and the summaries of terms
  in them (\<open>describe\<close>, \<open>remaining\<close>, \<open>explain\<close>): output only. Comparing the names of tiers beyond ASCII.
  \<open>newEpoch\<close>, which draws the random epoch that is an argument here, and the hook \<open>OnSelfURLChange\<close>, which
  only logs. \<open>adoptOwner\<close> on systems other than Unix does nothing.

  \<^bold>\<open>Where the code and its documentation part.\<close> \<open>ack_lane_reserve_needs_prune\<close>, \<open>pairKey_collides\<close>,
  \<open>receipt_squatting\<close>, \<open>transit_ceiling\<close>, \<open>credential_alias\<close>, \<open>blank_tag_accepted\<close>, \<open>health_undercounts\<close>, \<open>huge_message_cap\<close>, \<open>window_wraps\<close> and
  \<open>tier_alias\<close> each state a behaviour of the code that a comment or the purpose of a check
  contradicts.
\<close>

end
